(* ===== verification/Go_Prelude.thy ===== *)
theory Go_Prelude
  imports Main "HOL-Library.Word" "HOL-Library.Sublist" "HOL-Library.List_Lexorder" "HOL-Library.Char_ord"
begin

text \<open>
  The prelude of the development: the Go values every component uses (errors, machine
  integers, byte strings, the \<open>fmt\<close>/\<open>strconv\<close>/\<open>strings\<close> functions the sources call) and
  the sorted association lists that stand for a Go \<open>map[string]T\<close>.

  A Go map has no order and no duplicate key. A list whose keys are strictly ascending
  (\<open>kv_ok\<close>) is a canonical representation of it: two maps with the same bindings are the
  same list, and \<open>encoding/json\<close> prints the members of a map in exactly this order.
  The locale \<open>string_map\<close> is the interface of such a map; it is interpreted on the
  list operations at the end of the theory.
\<close>

named_theorems kv_simps \<open>laws of sorted association lists\<close>

type_synonym int32 = "32 word"
type_synonym int64 = "64 word"

section \<open>Errors and results\<close>

text \<open>
  A Go \<open>error\<close> is its text; the API machinery's NotFound is told apart because the code
  asks for it (\<open>client.IgnoreNotFound\<close>). A function \<open>(T, error)\<close> returns \<open>goerr + T\<close>.
\<close>

datatype goerr = NotFound string | GoErr string

fun errText :: "goerr \<Rightarrow> string" where
  "errText (NotFound s) = s"
| "errText (GoErr s) = s"

fun IgnoreNotFound :: "goerr \<Rightarrow> goerr option" where
  "IgnoreNotFound (NotFound s) = None"
| "IgnoreNotFound (GoErr s) = Some (GoErr s)"

text \<open>\<open>fmt.Errorf("...: %w", err)\<close> and \<open>errors.Wrapf\<close>: NotFound stays recognisable.\<close>

fun wrapErr :: "string \<Rightarrow> goerr \<Rightarrow> goerr" where
  "wrapErr m (NotFound s) = NotFound (m @ '': '' @ s)"
| "wrapErr m (GoErr s) = GoErr (m @ '': '' @ s)"

section \<open>Machine integers\<close>

lemma signed_in_range: "- (2 ^ n) \<le> k \<Longrightarrow> k < 2 ^ n \<Longrightarrow> signed_take_bit n (k :: int) = k"
  by (simp add: signed_take_bit_int_eq_self)

lemma sint_int32_range: "- (2 ^ 31) \<le> sint (r :: int32)" "sint (r :: int32) < 2 ^ 31"
  using sint_ge [of r] sint_lt [of r] by simp_all

text \<open>\<open>int64(r)\<close> keeps the value, \<open>int32(q)\<close> keeps the low 32 bits.\<close>

lemma sint_scast64: "sint (scast (r :: int32) :: int64) = sint r"
  using sint_int32_range [of r] by (simp add: signed_scast_eq signed_in_range)

lemma ucast_of_int: "ucast (word_of_int i :: 64 word) = (word_of_int i :: 32 word)"
  by (rule bit_word_eqI) (simp add: bit_simps)

lemma sint_ucast32: "sint (ucast (q :: int64) :: int32) = signed_take_bit 31 (sint q)"
  by transfer (simp add: signed_take_bit_signed_take_bit min_def signed_take_bit_take_bit)

section \<open>Formatting: \<open>%d\<close>, \<open>%q\<close>\<close>

function dec_pos :: "int \<Rightarrow> string" where
  "dec_pos n = (if n < 10 then [char_of (48 + n)] else dec_pos (n div 10) @ [char_of (48 + n mod 10)])"
  by pat_completeness auto
termination
  by (relation "measure nat") auto

declare dec_pos.simps [simp del]

definition dec_int :: "int \<Rightarrow> string" where
  "dec_int i = (if i < 0 then ''-'' @ dec_pos (- i) else dec_pos i)"

definition hex_digit :: "nat \<Rightarrow> char" where
  "hex_digit n = (if n < 10 then char_of (48 + n) else char_of (87 + n))"

text \<open>
  \<open>strconv.Quote\<close>, byte by byte. Bytes from 0x80 on are kept: a rune outside ASCII is
  taken to be printable, which is what \<open>Quote\<close> leaves unescaped.
\<close>

definition quote_byte :: "char \<Rightarrow> nat \<Rightarrow> string" where
  "quote_byte c n =
     (if n = 34 then [char_of (92::nat), c]
     else if n = 92 then [c, c]
     else if n = 7 then [char_of (92::nat), CHR ''a'']
     else if n = 8 then [char_of (92::nat), CHR ''b'']
     else if n = 9 then [char_of (92::nat), CHR ''t'']
     else if n = 10 then [char_of (92::nat), CHR ''n'']
     else if n = 11 then [char_of (92::nat), CHR ''v'']
     else if n = 12 then [char_of (92::nat), CHR ''f'']
     else if n = 13 then [char_of (92::nat), CHR ''r'']
     else if n < 32 \<or> n = 127
       then [char_of (92::nat), CHR ''x'', hex_digit (n div 16), hex_digit (n mod 16)]
     else [c])"

definition quote_char :: "char \<Rightarrow> string" where
  "quote_char c = quote_byte c (of_char c)"

definition quoted :: "string \<Rightarrow> string" where
  "quoted s = char_of (34::nat) # concat (map quote_char s) @ [char_of (34::nat)]"

section \<open>The \<open>strings\<close> functions\<close>

text \<open>\<open>strings.Split(s, sep)\<close> for a one-byte separator: always at least one piece.\<close>

fun split_on :: "char \<Rightarrow> string \<Rightarrow> string list" where
  "split_on c [] = [[]]"
| "split_on c (x # xs) =
     (if x = c then [] # split_on c xs
      else (case split_on c xs of [] \<Rightarrow> [[x]] | w # ws \<Rightarrow> (x # w) # ws))"

fun join_with :: "char \<Rightarrow> string list \<Rightarrow> string" where
  "join_with c [] = []"
| "join_with c [w] = w"
| "join_with c (w # v # vs) = w @ c # join_with c (v # vs)"

definition trim_prefix :: "string \<Rightarrow> string \<Rightarrow> string" where
  "trim_prefix p s = (if prefix p s then drop (length p) s else s)"

lemma split_on_nonempty [simp]: "split_on c s \<noteq> []"
  by (induction s) (auto split: list.splits)

lemma nonempty_split_on [simp]: "[] \<noteq> split_on c s"
  using split_on_nonempty [of c s] by (metis)

lemma join_split_on: "join_with c (split_on c s) = s"
proof (induction s)
  case (Cons x xs)
  obtain w ws where "split_on c xs = w # ws"
    by (cases "split_on c xs") simp_all
  with Cons.IH show ?case by (cases ws) auto
qed simp

lemma split_on_piece: "w \<in> set (split_on c s) \<Longrightarrow> c \<notin> set w"
proof (induction s arbitrary: w)
  case (Cons x xs)
  then show ?case by (fastforce split: if_splits list.splits)
qed simp

lemma split_on_single: "c \<notin> set s \<Longrightarrow> split_on c s = [s]"
  by (induction s) auto

lemma split_on_append: "c \<notin> set w \<Longrightarrow> split_on c (w @ c # s) = w # split_on c s"
  by (induction w) (auto split: list.splits)

lemma split_join_with:
  "ws \<noteq> [] \<Longrightarrow> \<forall>w \<in> set ws. c \<notin> set w \<Longrightarrow> split_on c (join_with c ws) = ws"
  by (induction c ws rule: join_with.induct) (auto simp: split_on_single split_on_append)

lemma parallel_Cons_same [simp]: "x # xs \<parallel> x # ys \<longleftrightarrow> xs \<parallel> ys"
  by (simp add: parallel_def)

section \<open>Sorted association lists: Go's \<open>map[string]T\<close>\<close>

type_synonym 'v kvs = "(string \<times> 'v) list"

abbreviation kv_get :: "'v kvs \<Rightarrow> string \<Rightarrow> 'v option" where
  "kv_get \<equiv> map_of"

fun kv_put :: "string \<Rightarrow> 'v \<Rightarrow> 'v kvs \<Rightarrow> 'v kvs" where
  "kv_put k v [] = [(k, v)]"
| "kv_put k v ((l, w) # m) =
     (if k = l then (k, v) # m
      else if k < l then (k, v) # (l, w) # m
      else (l, w) # kv_put k v m)"

fun kv_ok :: "'v kvs \<Rightarrow> bool" where
  "kv_ok [] = True"
| "kv_ok ((k, v) # m) = ((\<forall>l \<in> fst ` set m. k < l) \<and> kv_ok m)"

text \<open>Building a map from bindings in the order the code writes them; the last one wins.\<close>

definition kv_of :: "'v kvs \<Rightarrow> 'v kvs" where
  "kv_of bs = fold (\<lambda>(k, v). kv_put k v) bs []"

lemma kv_get_put [simp, kv_simps]: "kv_get (kv_put k v m) l = (if l = k then Some v else kv_get m l)"
  by (induction k v m rule: kv_put.induct) auto

lemma keys_kv_put [simp, kv_simps]: "fst ` set (kv_put k v m) = insert k (fst ` set m)"
  by (induction k v m rule: kv_put.induct) auto

lemma kv_ok_put [simp, kv_simps]: "kv_ok m \<Longrightarrow> kv_ok (kv_put k v m)"
  by (induction k v m rule: kv_put.induct) auto

lemma kv_put_vals: "x \<in> set (kv_put k v m) \<Longrightarrow> x = (k, v) \<or> x \<in> set m"
  by (induction k v m rule: kv_put.induct) (auto split: if_splits)

lemma kv_ok_distinct: "kv_ok m \<Longrightarrow> distinct (map fst m)"
  by (induction m rule: kv_ok.induct) auto

lemma kv_get_set: "kv_ok m \<Longrightarrow> kv_get m k = Some v \<longleftrightarrow> (k, v) \<in> set m"
  by (simp add: kv_ok_distinct)

lemma kv_get_min: "\<forall>l \<in> fst ` set m. k < l \<Longrightarrow> kv_get m k = None"
  by (auto simp: map_of_eq_None_iff)

text \<open>The representation is canonical: equal bindings, equal lists.\<close>

lemma kv_ext: "kv_ok m \<Longrightarrow> kv_ok n \<Longrightarrow> kv_get m = kv_get n \<Longrightarrow> m = n"
proof (induction m arbitrary: n rule: kv_ok.induct)
  case 1
  then show ?case by (cases n) (auto dest: fun_cong split: if_splits)
next
  case (2 k v m)
  then obtain l w n' where n: "n = (l, w) # n'"
    by (cases n) (auto dest: fun_cong split: if_splits)
  have k: "kv_get ((k, v) # m) k = kv_get ((l, w) # n') k"
    and l: "kv_get ((k, v) # m) l = kv_get ((l, w) # n') l"
    using "2.prems"(3) n by metis+
  have kl: "k = l"
  proof (rule ccontr)
    assume ne: "k \<noteq> l"
    from k ne have "kv_get n' k = Some v" by simp
    then have "(k, v) \<in> set n'" by (rule map_of_SomeD)
    with "2.prems"(2) n have "l < k" by force
    moreover from l ne have "kv_get m l = Some w" by simp
    then have "(l, w) \<in> set m" by (rule map_of_SomeD)
    with "2.prems"(1) have "k < l" by force
    ultimately show False by simp
  qed
  moreover from k kl have "v = w" by simp
  moreover have "kv_get m = kv_get n'"
  proof
    fix x
    show "kv_get m x = kv_get n' x"
    proof (cases "x = k")
      case True
      with "2.prems"(1,2) n kl show ?thesis by (simp add: kv_get_min)
    next
      case False
      then show ?thesis using fun_cong [OF "2.prems"(3), of x] n kl by simp
    qed
  qed
  ultimately show ?case using "2.IH" "2.prems" n by simp
qed

lemma kv_put_put [kv_simps]: "kv_ok m \<Longrightarrow> kv_put k v (kv_put k w m) = kv_put k v m"
  by (rule kv_ext) (auto simp: fun_eq_iff)

lemma kv_put_swap: "kv_ok m \<Longrightarrow> k \<noteq> l \<Longrightarrow> kv_put k v (kv_put l w m) = kv_put l w (kv_put k v m)"
  by (rule kv_ext) (auto simp: fun_eq_iff)

lemma kv_put_same: "kv_ok m \<Longrightarrow> kv_get m k = Some v \<Longrightarrow> kv_put k v m = m"
  by (rule kv_ext) (auto simp: fun_eq_iff)

subsection \<open>The interface of a string-keyed map\<close>

locale string_map =
  fixes empty :: "'m" and get :: "'m \<Rightarrow> string \<Rightarrow> 'v option" and put :: "string \<Rightarrow> 'v \<Rightarrow> 'm \<Rightarrow> 'm"
    and invar :: "'m \<Rightarrow> bool"
  assumes get_empty: "get empty k = None"
    and get_put: "invar m \<Longrightarrow> get (put k v m) l = (if l = k then Some v else get m l)"
    and invar_empty: "invar empty"
    and invar_put: "invar m \<Longrightarrow> invar (put k v m)"
begin

text \<open>A loop \<open>for k, v := range src { dst[k] = v }\<close> over bindings with distinct keys.\<close>

lemma invar_fold: "invar m \<Longrightarrow> invar (fold (\<lambda>(k, v). put k v) bs m)"
  by (induction bs arbitrary: m) (auto simp: invar_put)

lemma get_fold:
  "invar m \<Longrightarrow> distinct (map fst bs) \<Longrightarrow>
   get (fold (\<lambda>(k, v). put k v) bs m) l = (case map_of bs l of Some v \<Rightarrow> Some v | None \<Rightarrow> get m l)"
proof (induction bs arbitrary: m)
  case (Cons b bs)
  obtain k v where b: "b = (k, v)" by fastforce
  from Cons.prems b have "map_of bs k = None"
    by (simp add: map_of_eq_None_iff)
  with Cons b show ?case
    by (auto simp: invar_put get_put split: option.splits)
qed simp

end

interpretation kv: string_map "[]" kv_get kv_put kv_ok
  by unfold_locales (auto simp: kv_simps)

lemma kv_ok_of: "kv_ok (kv_of bs)"
  unfolding kv_of_def by (rule kv.invar_fold) simp

lemma kv_get_of: "distinct (map fst bs) \<Longrightarrow> kv_get (kv_of bs) = map_of bs"
  unfolding kv_of_def by (auto simp: fun_eq_iff kv.get_fold split: option.splits)

lemma kv_of_same: "kv_ok m \<Longrightarrow> kv_of m = m"
  by (rule kv_ext) (simp_all add: kv_ok_of kv_get_of kv_ok_distinct)

end
