(* ===== verification/Json.thy ===== *)
theory Json
  imports Go_Prelude
begin

text \<open>
  JSON values as Go's \<open>interface{}\<close> holds them after decoding: \<open>nil\<close>, \<open>bool\<close>, numbers,
  \<open>string\<close>, \<open>[]interface{}\<close> and \<open>map[string]interface{}\<close>. Numbers keep the Go type they
  have: \<open>int64\<close> (the API machinery decodes integral numbers so) or \<open>float64\<close>, given by its
  64 IEEE bits (\<open>encoding/json\<close> decodes every number so). An object is a sorted association
  list. The text codec (\<open>json.Marshal\<close>, \<open>json.Unmarshal\<close> into \<open>interface{}\<close>) is a
  parameter, the record \<open>codec\<close>.
\<close>

section \<open>Values\<close>

datatype gonum = Int64 int64 | Float64 "64 word"

datatype json =
    JNull
  | JBool bool
  | JNum gonum
  | JStr string
  | JArr "json list"
  | JObj "(string \<times> json) list"

type_synonym jobj = "json kvs"

fun wf_json :: "json \<Rightarrow> bool" where
  "wf_json (JArr xs) = (\<forall>x \<in> set xs. wf_json x)"
| "wf_json (JObj m) = (kv_ok m \<and> (\<forall>x \<in> set m. wf_json (snd x)))"
| "wf_json _ = True"

abbreviation wf_obj :: "jobj \<Rightarrow> bool" where
  "wf_obj m \<equiv> wf_json (JObj m)"

record codec =
  marshal :: "json \<Rightarrow> goerr + string"
  unmarshal :: "string \<Rightarrow> goerr + json"

text \<open>
  \<open>json.Unmarshal(data, &m)\<close> with \<open>m\<close> a \<open>map[string]interface{}\<close>: an object fills the map,
  \<open>null\<close> makes it nil (\<open>None\<close>), every other value is a type error.
\<close>

definition unmarshal_map :: "codec \<Rightarrow> string \<Rightarrow> goerr + jobj option" where
  "unmarshal_map c s = (case unmarshal c s of
       Inl e \<Rightarrow> Inl e
     | Inr (JObj m) \<Rightarrow> Inr (Some m)
     | Inr JNull \<Rightarrow> Inr None
     | Inr _ \<Rightarrow> Inl (GoErr ''json: cannot unmarshal into Go value of type map[string]interface {}''))"

lemma wf_obj_put [simp]: "wf_obj m \<Longrightarrow> wf_json v \<Longrightarrow> wf_obj (kv_put k v m)"
  by (auto dest: kv_put_vals)

lemma wf_obj_get: "wf_obj m \<Longrightarrow> kv_get m k = Some v \<Longrightarrow> wf_json v"
  by (auto dest!: map_of_SomeD)

end
