(* ===== verification/Kube_Api.thy ===== *)
theory Kube_Api
  imports Json
begin

text \<open>
  What the controllers use of the Kubernetes libraries, which are not part of the repository: the
  typed client of controller-runtime, the finalizer helpers and \<open>meta.SetStatusCondition\<close>. They are
  parameters of the model, the records \<open>kclient\<close> and \<open>kutil\<close> over a world \<open>'w\<close> that is the API
  server and everything else outside the process. What the libraries document is stated as the
  laws of the locales \<open>kube_util\<close> and \<open>kube_api\<close>; the properties of the controllers take
  them as hypotheses, and \<open>Kube_Ref\<close> interprets them on an API server held in memory.
\<close>

section \<open>Objects\<close>

text \<open>
  \<open>metav1.ObjectMeta\<close> and \<open>metav1.Condition\<close>, the fields the controllers read or write. A
  deletion timestamp is only ever asked for being set. The transition time of a condition is
  never read and is left out.
\<close>

record ObjectMeta =
  om_name :: string
  om_namespace :: string
  om_uid :: string
  om_generation :: int64
  om_resourceVersion :: string
  om_deleted :: bool
  om_finalizers :: "string list"
  om_controller :: "string option"

record Condition =
  co_type :: string
  co_status :: string
  co_reason :: string
  co_message :: string
  co_generation :: int64

text \<open>Every API type has \<open>ObjectMeta\<close>, \<open>Spec\<close> and \<open>Status\<close>.\<close>

record ('sp, 'st) kobj =
  ko_meta :: ObjectMeta
  ko_spec :: 'sp
  ko_status :: 'st

text \<open>\<open>types.NamespacedName\<close>, also the \<open>ctrl.Request\<close> of a reconcile.\<close>

type_synonym key = "string \<times> string"

abbreviation ns_of :: "('sp, 'st) kobj \<Rightarrow> string" where
  "ns_of x \<equiv> om_namespace (ko_meta x)"

abbreviation name_of :: "('sp, 'st) kobj \<Rightarrow> string" where
  "name_of x \<equiv> om_name (ko_meta x)"

abbreviation key_of :: "('sp, 'st) kobj \<Rightarrow> key" where
  "key_of x \<equiv> (ns_of x, name_of x)"

abbreviation finalizers_of :: "('sp, 'st) kobj \<Rightarrow> string list" where
  "finalizers_of x \<equiv> om_finalizers (ko_meta x)"

abbreviation deleting :: "('sp, 'st) kobj \<Rightarrow> bool" where
  "deleting x \<equiv> om_deleted (ko_meta x)"

abbreviation with_finalizers :: "(string list \<Rightarrow> string list) \<Rightarrow> ('sp, 'st) kobj \<Rightarrow> ('sp, 'st) kobj" where
  "with_finalizers f x \<equiv> x\<lparr>ko_meta := (ko_meta x)\<lparr>om_finalizers := f (om_finalizers (ko_meta x))\<rparr>\<rparr>"

text \<open>Metadata up to what the server assigns on a write: version and generation.\<close>

definition same_meta :: "ObjectMeta \<Rightarrow> ObjectMeta \<Rightarrow> bool" where
  "same_meta m n \<longleftrightarrow> om_name m = om_name n \<and> om_namespace m = om_namespace n \<and> om_uid m = om_uid n
     \<and> om_deleted m = om_deleted n \<and> om_finalizers m = om_finalizers n \<and> om_controller m = om_controller n"

lemma same_metaD [dest]:
  "same_meta m n \<Longrightarrow> om_name m = om_name n \<and> om_namespace m = om_namespace n \<and> om_uid m = om_uid n
     \<and> om_deleted m = om_deleted n \<and> om_finalizers m = om_finalizers n \<and> om_controller m = om_controller n"
  by (simp add: same_meta_def)

lemma same_meta_refl [simp]: "same_meta m m"
  by (simp add: same_meta_def)

section \<open>Outcome of a reconcile\<close>

text \<open>
  \<open>(ctrl.Result, error)\<close>, or a panic. Requeue delays are in seconds.
\<close>

datatype Result = Done | RequeueAfter nat

datatype outcome = Ret Result "goerr option" | Panic string

section \<open>Finalizers and conditions\<close>

record kutil =
  ContainsFinalizer :: "string list \<Rightarrow> string \<Rightarrow> bool"
  AddFinalizer :: "string list \<Rightarrow> string \<Rightarrow> string list"
  RemoveFinalizer :: "string list \<Rightarrow> string \<Rightarrow> string list"
  SetStatusCondition :: "Condition list \<Rightarrow> Condition \<Rightarrow> Condition list"

fun findCondition :: "string \<Rightarrow> Condition list \<Rightarrow> Condition option" where
  "findCondition t [] = None"
| "findCondition t (c # cs) = (if co_type c = t then Some c else findCondition t cs)"

locale kube_util =
  fixes u :: kutil
  assumes contains: "ContainsFinalizer u fs f \<longleftrightarrow> f \<in> set fs"
    and add_set: "set (AddFinalizer u fs f) = insert f (set fs)"
    and remove_set: "set (RemoveFinalizer u fs f) = set fs - {f}"
    and set_condition: "findCondition t (SetStatusCondition u cs c) =
      (if t = co_type c then Some c else findCondition t cs)"

section \<open>The client\<close>

text \<open>
  The client of one API type. A write returns the object as the server stored it, which Go puts
  back into the argument. \<open>kList\<close> lists by namespace (\<open>None\<close>: all) and by the value of a
  registered field index.
\<close>

record ('w, 'o) kclient =
  kGet :: "key \<Rightarrow> 'w \<Rightarrow> goerr + 'o"
  kList :: "string option \<Rightarrow> string \<Rightarrow> string \<Rightarrow> 'w \<Rightarrow> goerr + 'o list"
  kUpdate :: "'o \<Rightarrow> 'w \<Rightarrow> (goerr + 'o) \<times> 'w"
  kStatusUpdate :: "'o \<Rightarrow> 'w \<Rightarrow> (goerr + 'o) \<times> 'w"

text \<open>
  The contract of the API server for a type with a status subresource. \<open>store\<close> is what the server
  holds, \<open>idx\<close> the registered index functions. Reads are current. \<open>Update\<close> writes metadata and
  spec, but not the uid and the deletion mark, and leaves the stored status; \<open>Status().Update\<close>
  writes the status only. An object that is being deleted goes away with its last finalizer. A
  failed write stores nothing.
\<close>

locale kube_api =
  fixes cl :: "('w, ('sp, 'st) kobj) kclient"
    and store :: "'w \<Rightarrow> key \<Rightarrow> ('sp, 'st) kobj option"
    and idx :: "string \<Rightarrow> ('sp, 'st) kobj \<Rightarrow> string list"
  assumes store_key: "store w k = Some x \<Longrightarrow> key_of x = k"
    and get_current: "kGet cl k w = Inr x \<Longrightarrow> store w k = Some x"
    and get_not_found: "kGet cl k w = Inl (NotFound m) \<Longrightarrow> store w k = None"
    and list_current: "kList cl ns ik v w = Inr xs \<Longrightarrow>
      x \<in> set xs \<longleftrightarrow> store w (key_of x) = Some x \<and> v \<in> set (idx ik x) \<and> (ns = None \<or> ns = Some (ns_of x))"
    and update_ok: "kUpdate cl x w = (Inr y, w') \<Longrightarrow>
      \<exists>z. store w (key_of x) = Some z
        \<and> same_meta (ko_meta y) ((ko_meta x)\<lparr>om_uid := om_uid (ko_meta z), om_deleted := deleting z\<rparr>)
        \<and> ko_spec y = ko_spec x \<and> ko_status y = ko_status z
        \<and> store w' = (store w)(key_of x := if deleting z \<and> finalizers_of x = [] then None else Some y)"
    and update_err: "kUpdate cl x w = (Inl e, w') \<Longrightarrow> store w' = store w"
    and status_ok: "kStatusUpdate cl x w = (Inr y, w') \<Longrightarrow>
      \<exists>z. store w (key_of x) = Some z \<and> same_meta (ko_meta y) (ko_meta z)
        \<and> ko_spec y = ko_spec z \<and> ko_status y = ko_status x \<and> store w' = (store w)(key_of x \<mapsto> y)"
    and status_err: "kStatusUpdate cl x w = (Inl e, w') \<Longrightarrow> store w' = store w"
begin

lemma update_stored:
  assumes "kUpdate cl x w = (Inr y, w')" and "store w (key_of x) = Some z"
  shows "key_of y = key_of x" and "ko_status y = ko_status z" and "ko_spec y = ko_spec x"
    and "finalizers_of y = finalizers_of x" and "deleting y = deleting z"
    and "store w' (key_of x) = (if deleting z \<and> finalizers_of x = [] then None else Some y)"
  using update_ok [OF assms(1)] assms(2) by auto

lemma status_stored:
  assumes "kStatusUpdate cl x w = (Inr y, w')" and "store w (key_of x) = Some z"
  shows "key_of y = key_of x" and "ko_status y = ko_status x" and "ko_spec y = ko_spec z"
    and "finalizers_of y = finalizers_of z" and "deleting y = deleting z"
    and "store w' (key_of x) = Some y"
  using status_ok [OF assms(1)] assms(2) store_key [OF assms(2)] by auto

lemma get_err: "kGet cl k w = Inl e \<Longrightarrow> store w k = Some x \<Longrightarrow> IgnoreNotFound e = Some e"
  using get_not_found by (cases e) fastforce+

lemma write_frame:
  "kUpdate cl x w = (r, w') \<Longrightarrow> k \<noteq> key_of x \<Longrightarrow> store w' k = store w k"
  "kStatusUpdate cl x w = (r, w') \<Longrightarrow> k \<noteq> key_of x \<Longrightarrow> store w' k = store w k"
  by (cases r; auto dest: update_ok update_err status_ok status_err)+

end

end
