(* ===== verification/Api_Types.thy ===== *)
theory Api_Types
  imports Kube_Api
begin

text \<open>
  The API types of \<open>src/api/v1alpha1\<close>: spec and status of each kind as records, the kinds
  themselves as objects over them. A \<open>*int32\<close> is an option, a \<open>map[string]string\<close> a sorted
  association list, and a \<open>runtime.RawExtension\<close> its raw bytes (empty when nothing was sent).
\<close>

section \<open>Group and version: \<open>groupversion_info.go\<close>\<close>

definition SchemeGroupVersion :: string where
  "SchemeGroupVersion = ''math.example.com/v1alpha1''"

section \<open>Add and Subtract\<close>

record AddSpec =
  ad_x :: int32
  ad_y :: int32

record AddStatus =
  ad_result :: "int32 option"
  ad_conditions :: "Condition list"

type_synonym Add = "(AddSpec, AddStatus) kobj"

record SubtractSpec =
  sb_x :: int32
  sb_y :: int32

record SubtractStatus =
  sb_result :: "int32 option"
  sb_conditions :: "Condition list"

type_synonym Subtract = "(SubtractSpec, SubtractStatus) kobj"

section \<open>Square\<close>

record SourceReference =
  sr_apiVersion :: string
  sr_kind :: string
  sr_name :: string

record SquareSpec =
  sq_sourceRef :: SourceReference

record SquareStatus =
  sq_result :: "int32 option"
  sq_conditions :: "Condition list"

type_synonym Square = "(SquareSpec, SquareStatus) kobj"

section \<open>HTTPTask\<close>

record ApiFieldMapping =
  am_sourceRef :: SourceReference
  am_sourceField :: string
  am_targetField :: string

record HTTPTaskSpec =
  ht_endpoint :: string
  ht_method :: string
  ht_headers :: "string kvs"
  ht_input :: string
  ht_inputFrom :: "ApiFieldMapping list"

record HTTPTaskStatus =
  hs_output :: string
  hs_statusCode :: "int32 option"
  hs_observedInputHash :: string
  hs_conditions :: "Condition list"

type_synonym HTTPTask = "(HTTPTaskSpec, HTTPTaskStatus) kobj"

section \<open>Workflow\<close>

record WorkflowFieldMapping =
  wm_sourceStep :: string
  wm_sourceField :: string
  wm_targetField :: string

record WorkflowTaskSpec =
  wt_name :: string
  wt_endpoint :: string
  wt_method :: string
  wt_headers :: "string kvs"
  wt_input :: string
  wt_inputFrom :: "WorkflowFieldMapping list"

record WorkflowSpec =
  wf_tasks :: "WorkflowTaskSpec list"
  wf_notifyURL :: string

record WorkflowTaskStatus =
  wk_name :: string
  wk_phase :: string
  wk_statusCode :: "int32 option"
  wk_output :: string
  wk_error :: string

record WorkflowStatus =
  ws_transactionID :: string
  ws_dashboardURL :: string
  ws_phase :: string
  ws_tasks :: "WorkflowTaskStatus list"
  ws_notifiedPhase :: string
  ws_conditions :: "Condition list"

type_synonym Workflow = "(WorkflowSpec, WorkflowStatus) kobj"

end
