(* ===== verification/Ref_Check.thy ===== *)
theory Ref_Check
  imports Api_Types
begin

text \<open>
  Deletion protection: \<open>src/internal/controller/refcheck.go\<close>, \<open>task_refcheck.go\<close>, the index
  values of \<open>task_transfer.go\<close> and the index functions that \<open>SetupWithManager\<close> registers, and the
  two blocks at the head of the Add, Subtract and HTTPTask reconcilers: the handling of an object
  that is being deleted and the placing of the finalizer.
\<close>

section \<open>Index values\<close>

definition sourceRefIndexValue :: "string \<Rightarrow> string \<Rightarrow> string \<Rightarrow> string" where
  "sourceRefIndexValue apiVersion kind name = apiVersion @ ''/'' @ kind @ ''/'' @ name"

definition sourceRefIndexKey :: string where
  "sourceRefIndexKey = ''.spec.sourceRef''"

definition taskSourceRefIndexKey :: string where
  "taskSourceRefIndexKey = ''.spec.inputFrom.sourceRef''"

definition inUseFinalizer :: string where
  "inUseFinalizer = ''math.example.com/in-use-protection''"

definition taskInUseFinalizer :: string where
  "taskInUseFinalizer = ''math.example.com/task-in-use-protection''"

text \<open>The function indexed under \<open>sourceRefIndexKey\<close> for Squares.\<close>

definition squareIndex :: "Square \<Rightarrow> string list" where
  "squareIndex sq =
     (if sr_name (sq_sourceRef (ko_spec sq)) = [] then []
      else [sourceRefIndexValue (sr_apiVersion (sq_sourceRef (ko_spec sq)))
              (sr_kind (sq_sourceRef (ko_spec sq))) (sr_name (sq_sourceRef (ko_spec sq)))])"

text \<open>The function indexed under \<open>taskSourceRefIndexKey\<close> for HTTPTasks: one value per mapping.\<close>

definition taskIndex :: "HTTPTask \<Rightarrow> string list" where
  "taskIndex t = map (\<lambda>m. sourceRefIndexValue (sr_apiVersion (am_sourceRef m))
                            (sr_kind (am_sourceRef m)) (sr_name (am_sourceRef m)))
                     (ht_inputFrom (ko_spec t))"

section \<open>Reference checks\<close>

definition referencedBySquare :: "('w, Square) kclient \<Rightarrow> string \<Rightarrow> string \<Rightarrow> string \<Rightarrow> string \<Rightarrow> 'w \<Rightarrow> goerr + bool" where
  "referencedBySquare c namespace apiVersion kind name w =
     (case kList c (Some namespace) sourceRefIndexKey (sourceRefIndexValue apiVersion kind name) w of
        Inl e \<Rightarrow> Inl (wrapErr ''listing squares'' e)
      | Inr items \<Rightarrow> Inr (length items > 0))"

definition taskReferencedByOthers :: "('w, HTTPTask) kclient \<Rightarrow> string \<Rightarrow> string \<Rightarrow> string \<Rightarrow> string \<Rightarrow> 'w \<Rightarrow> goerr + bool" where
  "taskReferencedByOthers c namespace apiVersion kind name w =
     (case kList c (Some namespace) taskSourceRefIndexKey (sourceRefIndexValue apiVersion kind name) w of
        Inl e \<Rightarrow> Inl (wrapErr ''listing tasks'' e)
      | Inr items \<Rightarrow> Inr (length items > 0))"

section \<open>The head of a reconcile\<close>

text \<open>The block under \<open>if !obj.DeletionTimestamp.IsZero()\<close>.\<close>

definition handleDeletion :: "kutil \<Rightarrow> ('w, ('sp, 'st) kobj) kclient \<Rightarrow> string \<Rightarrow> ('w \<Rightarrow> goerr + bool)
    \<Rightarrow> ('sp, 'st) kobj \<Rightarrow> 'w \<Rightarrow> outcome \<times> 'w" where
  "handleDeletion u cl fin inUse x w =
     (if ContainsFinalizer u (finalizers_of x) fin then
        (case inUse w of
           Inl e \<Rightarrow> (Ret Done (Some e), w)
         | Inr used \<Rightarrow>
             if used then (Ret (RequeueAfter 5) None, w)
             else (case kUpdate cl (with_finalizers (\<lambda>fs. RemoveFinalizer u fs fin) x) w of
                     (Inl e, w1) \<Rightarrow> (Ret Done (Some e), w1)
                   | (Inr y, w1) \<Rightarrow> (Ret Done None, w1)))
      else (Ret Done None, w))"

text \<open>The block that adds a missing finalizer; the object comes back as the server stored it.\<close>

definition ensureFinalizer :: "kutil \<Rightarrow> ('w, ('sp, 'st) kobj) kclient \<Rightarrow> string
    \<Rightarrow> ('sp, 'st) kobj \<Rightarrow> 'w \<Rightarrow> (goerr + ('sp, 'st) kobj) \<times> 'w" where
  "ensureFinalizer u cl fin x w =
     (if \<not> ContainsFinalizer u (finalizers_of x) fin
      then kUpdate cl (with_finalizers (\<lambda>fs. AddFinalizer u fs fin) x) w
      else (Inr x, w))"

text \<open>Both blocks in front of the work of a kind.\<close>

definition guarded :: "kutil \<Rightarrow> ('w, ('sp, 'st) kobj) kclient \<Rightarrow> string
    \<Rightarrow> (('sp, 'st) kobj \<Rightarrow> 'w \<Rightarrow> goerr + bool) \<Rightarrow> (('sp, 'st) kobj \<Rightarrow> 'w \<Rightarrow> outcome \<times> 'w)
    \<Rightarrow> key \<Rightarrow> 'w \<Rightarrow> outcome \<times> 'w" where
  "guarded u cl fin inUse work k w =
     (case kGet cl k w of
        Inl e \<Rightarrow> (Ret Done (IgnoreNotFound e), w)
      | Inr x \<Rightarrow>
          if deleting x then handleDeletion u cl fin (inUse x) x w
          else (case ensureFinalizer u cl fin x w of
                  (Inl e, w1) \<Rightarrow> (Ret Done (Some e), w1)
                | (Inr y, w1) \<Rightarrow> work y w1))"

end
