(* ===== verification/Guarded.thy ===== *)
theory Guarded
  imports Ref_Check
begin

text \<open>
  What deletion protection guarantees, once for every kind that has it. The locale
  \<open>protected_kind\<close> is a kind with a finalizer and a use check in front of some work; \<open>calc_kind\<close>
  extends it to the kinds whose work publishes a computed result (Add and Subtract). The
  reconcilers are shown to be instances in their own theories.
\<close>

section \<open>Reference checks against the store\<close>

definition sourceRefIs :: "SourceReference \<Rightarrow> string \<Rightarrow> string \<Rightarrow> string \<Rightarrow> bool" where
  "sourceRefIs r apiVersion kind name \<longleftrightarrow>
     sr_apiVersion r = apiVersion \<and> sr_kind r = kind \<and> sr_name r = name"

lemma last_segment:
  assumes "x \<notin> set n" and "x \<notin> set m" and "a @ x # n = b @ x # m"
  shows "a = b \<and> n = m"
proof -
  have tw: "takeWhile (\<lambda>y. y \<noteq> x) (rev l) = rev l" if "x \<notin> set l" for l
    using that by (auto simp: takeWhile_eq_all_conv)
  from assms(3) have "rev (a @ x # n) = rev (b @ x # m)" by (rule arg_cong)
  then have eq: "rev n @ x # rev a = rev m @ x # rev b" by simp
  then have "takeWhile (\<lambda>y. y \<noteq> x) (rev n @ x # rev a) = takeWhile (\<lambda>y. y \<noteq> x) (rev m @ x # rev b)" by (rule arg_cong)
  then have "n = m"
    using assms(1,2) by (simp add: takeWhile_tail tw)
  with eq show ?thesis by simp
qed

text \<open>Kind and object names hold no slash, so index values tell references apart.\<close>

lemma sourceRefIndexValue_inj:
  "CHR ''/'' \<notin> set k \<Longrightarrow> CHR ''/'' \<notin> set n \<Longrightarrow> CHR ''/'' \<notin> set k' \<Longrightarrow> CHR ''/'' \<notin> set n' \<Longrightarrow>
   sourceRefIndexValue a k n = sourceRefIndexValue a' k' n' \<longleftrightarrow> a = a' \<and> k = k' \<and> n = n'"
  unfolding sourceRefIndexValue_def
  by (auto dest!: last_segment [of "CHR ''/''" n n' "a @ CHR ''/'' # k" "a' @ CHR ''/'' # k'", simplified]
      last_segment [of "CHR ''/''" k k' a a'])

lemma referencedBySquare_iff:
  assumes "kube_api cS storeS idxS" and "idxS sourceRefIndexKey = squareIndex"
    and "referencedBySquare cS ns av kind n w = Inr used"
  shows "used \<longleftrightarrow> (\<exists>q sq. storeS w (ns, q) = Some sq \<and> sourceRefIndexValue av kind n \<in> set (squareIndex sq))"
proof -
  from assms(3) obtain items where l:
    "kList cS (Some ns) sourceRefIndexKey (sourceRefIndexValue av kind n) w = Inr items"
    "used \<longleftrightarrow> items \<noteq> []"
    by (auto simp: referencedBySquare_def split: sum.splits)
  have "sq \<in> set items \<longleftrightarrow> storeS w (ns, name_of sq) = Some sq
      \<and> sourceRefIndexValue av kind n \<in> set (squareIndex sq) \<and> ns_of sq = ns" for sq
    using kube_api.list_current [OF assms(1) l(1), of sq] assms(2) by auto
  moreover have "storeS w (ns, q) = Some sq \<Longrightarrow> key_of sq = (ns, q)" for q sq
    using kube_api.store_key [OF assms(1)] .
  ultimately show ?thesis unfolding l(2) by (metis equals0D last_in_set set_empty prod.inject)
qed

lemma taskReferencedByOthers_iff:
  assumes "kube_api cT storeT idxT" and "idxT taskSourceRefIndexKey = taskIndex"
    and "taskReferencedByOthers cT ns av kind n w = Inr used"
  shows "used \<longleftrightarrow> (\<exists>q t. storeT w (ns, q) = Some t \<and> sourceRefIndexValue av kind n \<in> set (taskIndex t))"
proof -
  from assms(3) obtain items where l:
    "kList cT (Some ns) taskSourceRefIndexKey (sourceRefIndexValue av kind n) w = Inr items"
    "used \<longleftrightarrow> items \<noteq> []"
    by (auto simp: taskReferencedByOthers_def split: sum.splits)
  have "t \<in> set items \<longleftrightarrow> storeT w (ns, name_of t) = Some t
      \<and> sourceRefIndexValue av kind n \<in> set (taskIndex t) \<and> ns_of t = ns" for t
    using kube_api.list_current [OF assms(1) l(1), of t] assms(2) by auto
  moreover have "storeT w (ns, q) = Some t \<Longrightarrow> key_of t = (ns, q)" for q t
    using kube_api.store_key [OF assms(1)] .
  ultimately show ?thesis unfolding l(2) by (metis equals0D last_in_set set_empty prod.inject)
qed

lemma square_refers:
  "sourceRefIs (sq_sourceRef (ko_spec sq)) av kind n \<Longrightarrow> n \<noteq> [] \<Longrightarrow>
   sourceRefIndexValue av kind n \<in> set (squareIndex sq)"
  by (auto simp: sourceRefIs_def squareIndex_def)

lemma task_refers:
  "m \<in> set (ht_inputFrom (ko_spec t)) \<Longrightarrow> sourceRefIs (am_sourceRef m) av kind n \<Longrightarrow>
   sourceRefIndexValue av kind n \<in> set (taskIndex t)"
  by (auto simp: sourceRefIs_def taskIndex_def)

lemma used_by_square:
  assumes "kube_api cS storeS idxS" and "idxS sourceRefIndexKey = squareIndex"
    and "storeS w (ns, q) = Some sq" and "sourceRefIndexValue av kind n \<in> set (squareIndex sq)"
  shows "referencedBySquare cS ns av kind n w \<noteq> Inr False"
  using referencedBySquare_iff [OF assms(1,2), of ns av kind n w False] assms(3,4) by blast

lemma unused_by_square:
  assumes "kube_api cS storeS idxS" and "idxS sourceRefIndexKey = squareIndex"
    and "\<And>q sq. storeS w (ns, q) = Some sq \<Longrightarrow> sourceRefIndexValue av kind n \<notin> set (squareIndex sq)"
  shows "referencedBySquare cS ns av kind n w \<noteq> Inr True"
  using referencedBySquare_iff [OF assms(1,2), of ns av kind n w True] assms(3) by blast

lemma unused_by_task:
  assumes "kube_api cT storeT idxT" and "idxT taskSourceRefIndexKey = taskIndex"
    and "\<And>q t. storeT w (ns, q) = Some t \<Longrightarrow> sourceRefIndexValue av kind n \<notin> set (taskIndex t)"
  shows "taskReferencedByOthers cT ns av kind n w \<noteq> Inr True"
  using taskReferencedByOthers_iff [OF assms(1,2), of ns av kind n w True] assms(3) by blast

lemma used_by_task:
  assumes "kube_api cT storeT idxT" and "idxT taskSourceRefIndexKey = taskIndex"
    and "storeT w (ns, q) = Some t" and "sourceRefIndexValue av kind n \<in> set (taskIndex t)"
  shows "taskReferencedByOthers cT ns av kind n w \<noteq> Inr False"
  using taskReferencedByOthers_iff [OF assms(1,2), of ns av kind n w False] assms(3,4) by blast

section \<open>What a reconcile can change\<close>

text \<open>A property that every write of the client and the work keep is kept by the reconcile.\<close>

lemma guarded_preserves:
  assumes "\<And>x v. P v \<Longrightarrow> P (snd (kUpdate cl x v))" and "\<And>x v. P v \<Longrightarrow> P (snd (work x v))" and "P w"
  shows "P (snd (guarded u cl fin inUse work k w))"
proof (cases "kGet cl k w")
  case (Inr x)
  let ?rem = "with_finalizers (\<lambda>fs. RemoveFinalizer u fs fin) x"
  let ?add = "with_finalizers (\<lambda>fs. AddFinalizer u fs fin) x"
  obtain q v where q: "kUpdate cl ?rem w = (q, v)" by fastforce
  obtain q' v' where q': "kUpdate cl ?add w = (q', v')" by fastforce
  have "P v" "P v'" using assms(1) [OF assms(3), of ?rem] assms(1) [OF assms(3), of ?add] q q' by simp_all
  then show ?thesis
    using assms(2,3) Inr q q'
    by (auto simp: guarded_def handleDeletion_def ensureFinalizer_def split: sum.splits)
qed (simp add: guarded_def assms(3))

section \<open>Protected kinds\<close>

locale protected_kind = kube_util u + kube_api cl store idx
  for u :: kutil and cl :: "('w, ('sp, 'st) kobj) kclient"
    and store :: "'w \<Rightarrow> key \<Rightarrow> ('sp, 'st) kobj option" and idx :: "string \<Rightarrow> ('sp, 'st) kobj \<Rightarrow> string list" +
  fixes fin :: string and inUse :: "('sp, 'st) kobj \<Rightarrow> 'w \<Rightarrow> goerr + bool"
    and work :: "('sp, 'st) kobj \<Rightarrow> 'w \<Rightarrow> outcome \<times> 'w"
begin

lemma deletion_blocked:
  assumes "store w k = Some x" and "deleting x" and "fin \<in> set (finalizers_of x)" and "inUse x w \<noteq> Inr False"
  shows "snd (guarded u cl fin inUse work k w) = w"
  using assms get_current [of k w]
  by (auto simp: guarded_def handleDeletion_def contains split: sum.splits)

lemma deletion_released:
  assumes "store w k = Some x" and "deleting x" and "inUse x w \<noteq> Inr True"
    and "guarded u cl fin inUse work k w = (Ret Done None, w')"
  shows "case store w' k of None \<Rightarrow> True | Some y \<Rightarrow> fin \<notin> set (finalizers_of y)"
proof (cases "kGet cl k w")
  case (Inl e)
  with assms(1,4) show ?thesis by (auto simp: guarded_def dest: get_err)
next
  case (Inr x')
  with assms(1) have x: "kGet cl k w = Inr x" using get_current by fastforce
  have k: "key_of x = k" using store_key [OF assms(1)] .
  show ?thesis
  proof (cases "fin \<in> set (finalizers_of x)")
    case False
    with x assms show ?thesis by (auto simp: guarded_def handleDeletion_def contains)
  next
    case True
    let ?x = "with_finalizers (\<lambda>fs. RemoveFinalizer u fs fin) x"
    from True x assms obtain y where "kUpdate cl ?x w = (Inr y, w')"
      by (auto simp: guarded_def handleDeletion_def contains split: prod.splits sum.splits)
    then show ?thesis using update_stored [of ?x w y w' x] assms(1) k by (auto simp: remove_set)
  qed
qed

text \<open>A live object reaches the work of its kind with the finalizer in the store.\<close>

lemma live_guarded:
  assumes "store w k = Some x" and "\<not> deleting x" and "guarded u cl fin inUse work k w = (r, w')"
  obtains e where "r = Ret Done (Some e)" "store w' = store w"
  | y w1 where "store w1 k = Some y" "fin \<in> set (finalizers_of y)" "key_of y = k" "\<not> deleting y"
      "ko_spec y = ko_spec x" "ko_status y = ko_status x" "work y w1 = (r, w')"
      "\<And>l. l \<noteq> k \<Longrightarrow> store w1 l = store w l" "fin \<in> set (finalizers_of x) \<Longrightarrow> w1 = w \<and> y = x"
proof (cases "kGet cl k w")
  case (Inl e)
  with assms show thesis by (intro that(1)) (auto simp: guarded_def dest: get_err)
next
  case (Inr x')
  with assms(1) have x: "kGet cl k w = Inr x" using get_current by fastforce
  have k: "key_of x = k" using store_key [OF assms(1)] .
  show thesis
  proof (cases "fin \<in> set (finalizers_of x)")
    case True
    with x k assms show thesis
      by (intro that(2) [of w x]) (auto simp: guarded_def ensureFinalizer_def contains)
  next
    case False
    let ?x = "with_finalizers (\<lambda>fs. AddFinalizer u fs fin) x"
    obtain q w1 where q: "kUpdate cl ?x w = (q, w1)" by fastforce
    show thesis
    proof (cases q)
      case (Inl e)
      with q False x assms show thesis
        by (intro that(1) [of e]) (auto simp: guarded_def ensureFinalizer_def contains dest: update_err)
    next
      case (Inr y)
      with q have y: "kUpdate cl ?x w = (Inr y, w1)" by simp
      have g: "work y w1 = (r, w')"
        using y False x assms(2,3) by (simp add: guarded_def ensureFinalizer_def contains)
      have st: "store w (key_of ?x) = Some x" using assms(1) k by simp
      note u = update_stored [OF y st]
      show thesis
      proof (rule that(2) [OF _ _ _ _ _ _ g])
        show "store w1 k = Some y" using u(6) k assms(2) by simp
        show "fin \<in> set (finalizers_of y)" using u(4) by (simp add: add_set)
      qed (use u k assms(2) False write_frame(1) [OF y] in auto)
    qed
  qed
qed

end

section \<open>Kinds with a computed result\<close>

text \<open>The work of Add and Subtract: publish the result unless the status already has it.\<close>

definition publishResult :: "('w, ('sp, 'st) kobj) kclient \<Rightarrow> ('sp \<Rightarrow> int32) \<Rightarrow> ('st \<Rightarrow> int32 option)
    \<Rightarrow> (('sp, 'st) kobj \<Rightarrow> 'st) \<Rightarrow> ('sp, 'st) kobj \<Rightarrow> 'w \<Rightarrow> outcome \<times> 'w" where
  "publishResult cl calc result_of published x w =
     (if result_of (ko_status x) \<noteq> Some (calc (ko_spec x))
      then (case kStatusUpdate cl (x\<lparr>ko_status := published x\<rparr>) w of
              (Inl e, w1) \<Rightarrow> (Ret Done (Some e), w1)
            | (Inr y, w1) \<Rightarrow> (Ret Done None, w1))
      else (Ret Done None, w))"

locale calc_kind = protected_kind u cl store idx fin inUse "publishResult cl calc result_of published"
  for u :: kutil and cl :: "('w, ('sp, 'st) kobj) kclient"
    and store :: "'w \<Rightarrow> key \<Rightarrow> ('sp, 'st) kobj option" and idx :: "string \<Rightarrow> ('sp, 'st) kobj \<Rightarrow> string list"
    and fin :: string and inUse :: "('sp, 'st) kobj \<Rightarrow> 'w \<Rightarrow> goerr + bool"
    and calc :: "'sp \<Rightarrow> int32" and result_of :: "'st \<Rightarrow> int32 option"
    and published :: "('sp, 'st) kobj \<Rightarrow> 'st" +
  assumes published_result: "result_of (published x) = Some (calc (ko_spec x))"
begin

abbreviation "reconcile \<equiv> guarded u cl fin inUse (publishResult cl calc result_of published)"

lemma reconciled:
  assumes "store w k = Some x" and "\<not> deleting x" and "reconcile k w = (Ret Done None, w')"
  shows "\<exists>y. store w' k = Some y \<and> ko_spec y = ko_spec x \<and> \<not> deleting y \<and> fin \<in> set (finalizers_of y)
    \<and> result_of (ko_status y) = Some (calc (ko_spec x))"
  using assms
proof (cases rule: live_guarded)
  case (2 y w1)
  show ?thesis
  proof (cases "result_of (ko_status y) = Some (calc (ko_spec y))")
    case True
    with 2 show ?thesis by (auto simp: publishResult_def)
  next
    case False
    with 2(7) obtain z where z: "kStatusUpdate cl (y\<lparr>ko_status := published y\<rparr>) w1 = (Inr z, w')"
      by (auto simp: publishResult_def split: prod.splits sum.splits)
    from status_stored [OF z, of y] 2(1-6) show ?thesis
      by (intro exI [of _ z]) (auto simp: published_result)
  qed
qed simp

text \<open>Once the result is published, reconciling again writes nothing.\<close>

lemma stable:
  assumes "store w k = Some y" and "\<not> deleting y" and "fin \<in> set (finalizers_of y)"
    and "result_of (ko_status y) = Some (calc (ko_spec y))"
  shows "snd (reconcile k w) = w"
  using assms get_current [of k w]
  by (auto simp: guarded_def ensureFinalizer_def publishResult_def contains split: sum.splits)

lemma reconciled_stable:
  assumes "store w k = Some x" and "\<not> deleting x" and "reconcile k w = (Ret Done None, w')"
  shows "\<exists>y. store w' k = Some y \<and> ko_spec y = ko_spec x \<and> fin \<in> set (finalizers_of y)
    \<and> result_of (ko_status y) = Some (calc (ko_spec x)) \<and> snd (reconcile k w') = w'"
  using reconciled [OF assms] stable by metis

lemma frame:
  assumes "l \<noteq> k" and "store w k = Some x" and "\<not> deleting x" and "reconcile k w = (r, w')"
  shows "store w' l = store w l"
  using assms(2-4)
proof (cases rule: live_guarded)
  case (2 y w1)
  show ?thesis
  proof (cases "kStatusUpdate cl (y\<lparr>ko_status := published y\<rparr>) w1")
    case (Pair q w2)
    have "store w2 l = store w1 l"
      using write_frame(2) [OF Pair] 2(3) assms(1) by simp
    with Pair 2 assms(1) show ?thesis
      by (auto simp: publishResult_def split: if_splits sum.splits)
  qed
qed simp

text \<open>Whatever its outcome, a reconcile writes to its own key only.\<close>

lemma reconcile_frame:
  assumes "l \<noteq> k"
  shows "store (snd (reconcile k w)) l = store w l"
proof (cases "kGet cl k w")
  case (Inr x)
  then have x: "store w k = Some x" by (rule get_current)
  show ?thesis
  proof (cases "deleting x")
    case True
    let ?x = "with_finalizers (\<lambda>fs. RemoveFinalizer u fs fin) x"
    obtain q v where q: "kUpdate cl ?x w = (q, v)" by fastforce
    have "l \<noteq> key_of ?x" using store_key [OF x] assms by simp
    then have "store v l = store w l" by (rule write_frame(1) [OF q])
    with True Inr q show ?thesis
      by (auto simp: guarded_def handleDeletion_def split: sum.splits)
  next
    case False
    then show ?thesis using frame [OF assms x False] by (metis prod.collapse)
  qed
qed (simp add: guarded_def)

text \<open>Nor does it ever take the finalizer off an object that is in use.\<close>

lemma keeps_finalizer:
  assumes "store w k = Some x" and "fin \<in> set (finalizers_of x)" and "inUse x w \<noteq> Inr False"
  shows "\<exists>y. store (snd (reconcile k w)) k = Some y \<and> fin \<in> set (finalizers_of y)"
proof (cases "deleting x")
  case True
  with deletion_blocked [OF assms(1) True assms(2,3)] assms show ?thesis by auto
next
  case False
  obtain r w' where run: "reconcile k w = (r, w')" by fastforce
  from assms(1) False run show ?thesis
  proof (cases rule: live_guarded)
    case 1
    with assms run show ?thesis by auto
  next
    case (2 y w1)
    with assms(2) have y: "w1 = w" "y = x" by simp_all
    obtain q v where q: "kStatusUpdate cl (x\<lparr>ko_status := published x\<rparr>) w = (q, v)" by fastforce
    have k: "key_of x = k" using store_key [OF assms(1)] .
    have "\<exists>z. store v k = Some z \<and> fin \<in> set (finalizers_of z)"
    proof (cases q)
      case (Inl e)
      with q status_err assms(1,2) show ?thesis by fastforce
    next
      case (Inr z)
      from status_stored [OF q [unfolded Inr], of x] assms(1,2) k show ?thesis by auto
    qed
    with 2(7) y q assms(1,2) run show ?thesis
      by (auto simp: publishResult_def split: if_splits sum.splits)
  qed
qed

end

end
