(* ===== verification/Json_Path.thy ===== *)
theory Json_Path
  imports Json
begin

text \<open>
  \<open>src/internal/controller/jsonpath.go\<close>: reading and writing a field of a decoded JSON
  object by a dotted path. The operations here work on values; they are exact where no two
  parts of the program share a map, as in the HTTPTask controller, which decodes every
  source output afresh. The laws are stated once, in the locale \<open>path_access\<close>, together
  with what a sequence of field mappings gives; it is interpreted on these operations.
\<close>

section \<open>The operations\<close>

fun getPath :: "json \<Rightarrow> string list \<Rightarrow> json option" where
  "getPath cur [] = Some cur"
| "getPath (JObj m) (p # ps) = (case kv_get m p of None \<Rightarrow> None | Some v \<Rightarrow> getPath v ps)"
| "getPath _ (p # ps) = None"

definition getJSONField :: "jobj \<Rightarrow> string \<Rightarrow> json option" where
  "getJSONField data path = getPath (JObj data) (split_on CHR ''.'' path)"

text \<open>
  The loop of \<open>setJSONField\<close>: at the last part the value is stored; before it, the walk goes
  on in the member \<open>next\<close>, and a missing or non-object member is replaced by an empty object.
\<close>

definition nextObj :: "jobj \<Rightarrow> string \<Rightarrow> jobj" where
  "nextObj cur p = (case kv_get cur p of Some (JObj nxt) \<Rightarrow> nxt | _ \<Rightarrow> [])"

fun setPath :: "jobj \<Rightarrow> string list \<Rightarrow> json \<Rightarrow> jobj" where
  "setPath cur [] val = cur"
| "setPath cur [p] val = kv_put p val cur"
| "setPath cur (p # q # ps) val = kv_put p (JObj (setPath (nextObj cur p) (q # ps) val)) cur"

definition setJSONField :: "jobj \<Rightarrow> string \<Rightarrow> json \<Rightarrow> jobj" where
  "setJSONField data path val = setPath data (split_on CHR ''.'' path) val"

section \<open>The interface: reading and writing by path\<close>

locale path_access =
  fixes get :: "'d \<Rightarrow> string list \<Rightarrow> 'v option" and set_at :: "'d \<Rightarrow> string list \<Rightarrow> 'v \<Rightarrow> 'd"
    and invar :: "'d \<Rightarrow> bool" and val_ok :: "'v \<Rightarrow> bool"
  assumes get_set_same: "invar d \<Longrightarrow> val_ok v \<Longrightarrow> ps \<noteq> [] \<Longrightarrow> get (set_at d ps v) ps = Some v"
    and get_set_parallel: "invar d \<Longrightarrow> val_ok v \<Longrightarrow> ps \<parallel> qs \<Longrightarrow> get (set_at d ps v) qs = get d qs"
    and invar_set: "invar d \<Longrightarrow> val_ok v \<Longrightarrow> invar (set_at d ps v)"
begin

text \<open>A sequence of writes at pairwise diverging paths: each one reads back.\<close>

lemma invar_writes: "invar d \<Longrightarrow> \<forall>(p, v) \<in> set ws. val_ok v \<Longrightarrow>
    invar (fold (\<lambda>(p, v) d. set_at d p v) ws d)"
  by (induction ws arbitrary: d) (auto simp: invar_set)

lemma get_writes_parallel: "invar d \<Longrightarrow> \<forall>(p, v) \<in> set ws. val_ok v \<and> p \<parallel> q \<Longrightarrow>
    get (fold (\<lambda>(p, v) d. set_at d p v) ws d) q = get d q"
  by (induction ws arbitrary: d) (auto simp: invar_set get_set_parallel)

lemma get_writes:
  assumes "invar d" and "\<forall>(p, v) \<in> set ws. p \<noteq> [] \<and> val_ok v"
    and "sorted_wrt (\<lambda>a b. fst b \<parallel> fst a) ws" and "(p, v) \<in> set ws"
  shows "get (fold (\<lambda>(p, v) d. set_at d p v) ws d) p = Some v"
  using assms
proof (induction ws arbitrary: d)
  case (Cons w ws)
  obtain p' v' where w: "w = (p', v')" by fastforce
  have inv: "invar (set_at d p' v')" using Cons.prems w by (simp add: invar_set)
  show ?case
  proof (cases "w = (p, v)")
    case True
    with Cons.prems w have "\<forall>(q, u) \<in> set ws. val_ok u \<and> q \<parallel> p" by auto
    with inv have "get (fold (\<lambda>(p, v) d. set_at d p v) ws (set_at d p' v')) p = get (set_at d p' v') p"
      by (rule get_writes_parallel)
    with True w Cons.prems show ?thesis by (simp add: get_set_same)
  next
    case False
    with Cons inv w show ?thesis by auto
  qed
qed simp

end

section \<open>The val operations satisfy it\<close>

lemma getPath_set_same: "ps \<noteq> [] \<Longrightarrow> getPath (JObj (setPath m ps v)) ps = Some v"
  by (induction m ps v rule: setPath.induct) auto

lemma getPath_empty [simp]: "ps \<noteq> [] \<Longrightarrow> getPath (JObj []) ps = None"
  by (cases ps) auto

lemma getPath_leaf: "(\<forall>m. v \<noteq> JObj m) \<Longrightarrow> ps \<noteq> [] \<Longrightarrow> getPath v ps = None"
  by (cases ps; cases v) auto

lemma getPath_nextObj: "ps \<noteq> [] \<Longrightarrow> getPath (JObj (nextObj m p)) ps = getPath (JObj m) (p # ps)"
  by (auto simp: nextObj_def getPath_leaf split: option.splits json.splits)

lemma getPath_set_parallel:
  "ps \<parallel> qs \<Longrightarrow> getPath (JObj (setPath m ps v)) qs = getPath (JObj m) qs"
proof (induction m ps v arbitrary: qs rule: setPath.induct)
  case (2 cur p val)
  then show ?case by (cases qs) auto
next
  case (3 cur p q ps val)
  then obtain r rs where qs: "qs = r # rs" by (cases qs) auto
  show ?case
  proof (cases "r = p")
    case True
    with "3.prems" qs have par: "q # ps \<parallel> rs" and "rs \<noteq> []" by auto
    then have "getPath (JObj (setPath (nextObj cur p) (q # ps) val)) rs = getPath (JObj cur) (p # rs)"
      using "3.IH" by (simp add: getPath_nextObj)
    with True qs show ?thesis by simp
  qed (simp add: qs)
qed auto

lemma wf_nextObj: "wf_obj m \<Longrightarrow> wf_obj (nextObj m p)"
  by (auto simp: nextObj_def simp del: wf_json.simps(2) dest: wf_obj_get split: option.splits json.splits)
    simp_all

lemma wf_setPath: "wf_obj m \<Longrightarrow> wf_json v \<Longrightarrow> wf_obj (setPath m ps v)"
  by (induction m ps v rule: setPath.induct) (auto simp: wf_nextObj simp del: wf_json.simps(2))

interpretation jpath: path_access "\<lambda>m ps. getPath (JObj m) ps" setPath wf_obj wf_json
  by unfold_locales (simp_all add: getPath_set_same getPath_set_parallel wf_setPath del: wf_json.simps)

text \<open>
  C26. A value written at a dotted path is read back at that path, whatever was on the way to it, and
  every path that diverges from it reads as before.
\<close>

theorem json_field_roundtrip:
  "getJSONField (setJSONField m p v) p = Some v
   \<and> (\<forall>q. split_on CHR ''.'' p \<parallel> split_on CHR ''.'' q \<longrightarrow> getJSONField (setJSONField m p v) q = getJSONField m q)"
  by (simp add: getJSONField_def setJSONField_def getPath_set_same getPath_set_parallel)

theorem json_field_roundtrip_witness:
  "getJSONField (setJSONField [(''a'', JBool True)] ''b.c'' JNull) ''b.c'' = Some JNull
   \<and> getJSONField (setJSONField [(''a'', JBool True)] ''b.c'' JNull) ''a'' = Some (JBool True)"
proof -
  have "split_on CHR ''.'' ''b.c'' \<parallel> split_on CHR ''.'' ''a''" by (simp add: parallel_def prefix_def)
  moreover have "getJSONField [(''a'', JBool True)] ''a'' = Some (JBool True)" by (simp add: getJSONField_def)
  ultimately show ?thesis
    using json_field_roundtrip [of "[(''a'', JBool True)]" "''b.c''" JNull] by simp
qed

end
