(* ===== verification/HTTPTask_Ctl.thy ===== *)
theory HTTPTask_Ctl
  imports Guarded Json_Path Sha256
begin

text \<open>
  \<open>src/internal/controller/httptask_controller.go\<close>: the reconciler of HTTPTask. It builds the
  request body from \<open>spec.input\<close> and the outputs of other tasks, skips the call when that body was
  already sent, calls the endpoint and records the response. The network, the validation that
  \<open>http.NewRequestWithContext\<close> does and the order in which Go ranges over a map are parameters.
\<close>

section \<open>HTTP\<close>

record HttpRequest =
  hq_method :: string
  hq_url :: string
  hq_headers :: "string kvs"
  hq_body :: string

text \<open>A response: its status code, and what reading its body to the end gives.\<close>

record HttpResponse =
  hr_status :: int64
  hr_body :: "goerr + string"

record 'w httpEnv =
  he_codec :: codec
  he_newRequest :: "string \<Rightarrow> string \<Rightarrow> goerr option"
  he_do :: "HttpRequest \<Rightarrow> 'w \<Rightarrow> (goerr + HttpResponse) \<times> 'w"
  he_range :: "string kvs \<Rightarrow> string kvs"

subsection \<open>\<open>http.Header.Set\<close>\<close>

definition is_upper :: "char \<Rightarrow> bool" where
  "is_upper c \<longleftrightarrow> 65 \<le> (of_char c :: nat) \<and> (of_char c :: nat) \<le> 90"

definition is_lower :: "char \<Rightarrow> bool" where
  "is_lower c \<longleftrightarrow> 97 \<le> (of_char c :: nat) \<and> (of_char c :: nat) \<le> 122"

definition is_num :: "char \<Rightarrow> bool" where
  "is_num c \<longleftrightarrow> 48 \<le> (of_char c :: nat) \<and> (of_char c :: nat) \<le> 57"

text \<open>The token characters of a header name.\<close>

definition validHeaderFieldByte :: "char \<Rightarrow> bool" where
  "validHeaderFieldByte c \<longleftrightarrow> is_upper c \<or> is_lower c \<or> is_num c
     \<or> List.member ''!#$%&*+-.^_`|~'' c \<or> c = CHR 0x27"

definition to_upper :: "char \<Rightarrow> char" where
  "to_upper c = (if is_lower c then char_of (of_char c - (32 :: nat)) else c)"

definition to_lower :: "char \<Rightarrow> char" where
  "to_lower c = (if is_upper c then char_of (of_char c + (32 :: nat)) else c)"

text \<open>\<open>CanonicalMIMEHeaderKey\<close>: upper case at the start and after a hyphen, lower case elsewhere; a
  name with other bytes is left alone.\<close>

fun canonicalFrom :: "bool \<Rightarrow> string \<Rightarrow> string" where
  "canonicalFrom up [] = []"
| "canonicalFrom up (c # s) = (if up then to_upper c else to_lower c) # canonicalFrom (c = CHR ''-'') s"

definition canonicalKey :: "string \<Rightarrow> string" where
  "canonicalKey s = (if list_all validHeaderFieldByte s then canonicalFrom True s else s)"

definition headerSet :: "string \<Rightarrow> string \<Rightarrow> string kvs \<Rightarrow> string kvs" where
  "headerSet k v hs = kv_put (canonicalKey k) v hs"

section \<open>The request body\<close>

text \<open>
  How building the body ends: the body (\<open>None\<close> is the nil map that \<open>json.Unmarshal\<close> of \<open>null\<close>
  leaves), a call of \<open>fail\<close> or of \<open>waiting\<close> with its reason and message, or a panic.
\<close>

datatype bodyResult =
    BodyOk "jobj option"
  | BodyFail string string
  | BodyWait string string
  | BodyPanic

text \<open>\<open>json.Unmarshal(task.Spec.Input.Raw, &body)\<close> when there is an input.\<close>

definition initialBody :: "codec \<Rightarrow> HTTPTask \<Rightarrow> bodyResult" where
  "initialBody c task =
     (if ht_input (ko_spec task) = [] then BodyOk (Some [])
      else (case unmarshal_map c (ht_input (ko_spec task)) of
              Inl e \<Rightarrow> BodyFail ''InvalidInput'' (''spec.input is not valid JSON: '' @ errText e)
            | Inr body \<Rightarrow> BodyOk body))"

text \<open>The loop over \<open>task.Spec.InputFrom\<close>. Writing into a nil map panics.\<close>

fun mergeInputFrom :: "codec \<Rightarrow> ('w, HTTPTask) kclient \<Rightarrow> string \<Rightarrow> ApiFieldMapping list \<Rightarrow> jobj option \<Rightarrow> 'w \<Rightarrow> bodyResult" where
  "mergeInputFrom c cl ns [] body w = BodyOk body"
| "mergeInputFrom c cl ns (m # ms) body w =
     (case kGet cl (ns, sr_name (am_sourceRef m)) w of
        Inl e \<Rightarrow> BodyFail ''SourceNotFound''
                  (''referenced task '' @ quoted (sr_name (am_sourceRef m)) @ '' not found'')
      | Inr source \<Rightarrow>
      if hs_output (ko_status source) = [] then
        BodyWait ''WaitingOnSource'' (''task '' @ quoted (sr_name (am_sourceRef m)) @ '' has no output yet'')
      else
     (case unmarshal_map c (hs_output (ko_status source)) of
        Inl e \<Rightarrow> BodyFail ''InvalidSourceOutput''
                  (''task '' @ quoted (sr_name (am_sourceRef m)) @ '' output is not a JSON object: '' @ errText e)
      | Inr sourceOutput \<Rightarrow>
     (case Option.bind sourceOutput (\<lambda>out. getJSONField out (am_sourceField m)) of
        None \<Rightarrow> BodyWait ''WaitingOnSource''
                  (''field '' @ quoted (am_sourceField m) @ '' not present yet in task ''
                   @ quoted (sr_name (am_sourceRef m)) @ '' output'')
      | Some val \<Rightarrow>
     (case body of
        None \<Rightarrow> BodyPanic
      | Some b \<Rightarrow> mergeInputFrom c cl ns ms (Some (setJSONField b (am_targetField m) val)) w))))"

definition buildBody :: "codec \<Rightarrow> ('w, HTTPTask) kclient \<Rightarrow> HTTPTask \<Rightarrow> 'w \<Rightarrow> bodyResult" where
  "buildBody c cl task w = (case initialBody c task of
     BodyOk body \<Rightarrow> mergeInputFrom c cl (ns_of task) (ht_inputFrom (ko_spec task)) body w
   | r \<Rightarrow> r)"

fun bodyJson :: "jobj option \<Rightarrow> json" where
  "bodyJson None = JNull"
| "bodyJson (Some m) = JObj m"

section \<open>Conditions, \<open>fail\<close> and \<open>waiting\<close>\<close>

definition taskCondition :: "HTTPTask \<Rightarrow> string \<Rightarrow> string \<Rightarrow> string \<Rightarrow> Condition" where
  "taskCondition task status reason msg =
     \<lparr>co_type = ''Ready'', co_status = status, co_reason = reason, co_message = msg,
      co_generation = om_generation (ko_meta task)\<rparr>"

definition setTaskCondition :: "kutil \<Rightarrow> Condition \<Rightarrow> HTTPTask \<Rightarrow> HTTPTask" where
  "setTaskCondition u c task = task\<lparr>ko_status := (ko_status task)\<lparr>hs_conditions :=
     SetStatusCondition u (hs_conditions (ko_status task)) c\<rparr>\<rparr>"

text \<open>\<open>fail\<close> drops the error of the status update, \<open>waiting\<close> returns it.\<close>

definition fail :: "kutil \<Rightarrow> ('w, HTTPTask) kclient \<Rightarrow> HTTPTask \<Rightarrow> string \<Rightarrow> string \<Rightarrow> 'w \<Rightarrow> outcome \<times> 'w" where
  "fail u cl task reason msg w =
     (Ret Done None, snd (kStatusUpdate cl (setTaskCondition u (taskCondition task ''False'' reason msg) task) w))"

definition waiting :: "kutil \<Rightarrow> ('w, HTTPTask) kclient \<Rightarrow> HTTPTask \<Rightarrow> string \<Rightarrow> string \<Rightarrow> 'w \<Rightarrow> outcome \<times> 'w" where
  "waiting u cl task reason msg w =
     (case kStatusUpdate cl (setTaskCondition u (taskCondition task ''False'' reason msg) task) w of
        (Inl e, w1) \<Rightarrow> (Ret Done (Some e), w1)
      | (Inr y, w1) \<Rightarrow> (Ret Done None, w1))"

section \<open>The call\<close>

definition taskMethod :: "HTTPTask \<Rightarrow> string" where
  "taskMethod task = (if ht_method (ko_spec task) = [] then ''POST'' else ht_method (ko_spec task))"

definition taskRequest :: "'w httpEnv \<Rightarrow> HTTPTask \<Rightarrow> string \<Rightarrow> HttpRequest" where
  "taskRequest he task bodyBytes =
     \<lparr>hq_method = taskMethod task, hq_url = ht_endpoint (ko_spec task),
      hq_headers = fold (\<lambda>(k, v). headerSet k v) (he_range he (ht_headers (ko_spec task)))
                     (headerSet ''Content-Type'' ''application/json'' []),
      hq_body = bodyBytes\<rparr>"

text \<open>The status with the response in it.\<close>

definition recordResponse :: "kutil \<Rightarrow> HTTPTask \<Rightarrow> string \<Rightarrow> int64 \<Rightarrow> string \<Rightarrow> HTTPTask" where
  "recordResponse u task hashHex code respBytes =
     setTaskCondition u
       (if sint code < 200 \<or> sint code \<ge> 300
        then taskCondition task ''False'' ''NonSuccessStatus'' (''endpoint returned HTTP '' @ dec_int (sint code))
        else taskCondition task ''True'' ''Computed''
               (''called '' @ ht_endpoint (ko_spec task) @ '', got HTTP '' @ dec_int (sint code)))
       (task\<lparr>ko_status := (ko_status task)\<lparr>hs_statusCode := Some (ucast code), hs_output := respBytes,
                                          hs_observedInputHash := hashHex\<rparr>\<rparr>)"

text \<open>From \<open>http.NewRequestWithContext\<close> to the end; \<open>task\<close> is already marked Running.\<close>

definition callEndpoint :: "kutil \<Rightarrow> 'w httpEnv \<Rightarrow> ('w, HTTPTask) kclient \<Rightarrow> HTTPTask \<Rightarrow> string \<Rightarrow> 'w \<Rightarrow> outcome \<times> 'w" where
  "callEndpoint u he cl task bodyBytes w =
     (case he_newRequest he (taskMethod task) (ht_endpoint (ko_spec task)) of
        Some e \<Rightarrow> fail u cl task ''InvalidRequest'' (''failed to build request: '' @ errText e) w
      | None \<Rightarrow>
     (case he_do he (taskRequest he task bodyBytes) w of
        (Inl e, w1) \<Rightarrow> fail u cl task ''RequestFailed''
            (''HTTP call to '' @ ht_endpoint (ko_spec task) @ '' failed: '' @ errText e) w1
      | (Inr resp, w1) \<Rightarrow>
     (case hr_body resp of
        Inl e \<Rightarrow> fail u cl task ''RequestFailed'' (''failed reading response body: '' @ errText e) w1
      | Inr respBytes \<Rightarrow>
     (case kStatusUpdate cl (recordResponse u task (sha256hex bodyBytes) (hr_status resp) respBytes) w1 of
        (Inl e, w2) \<Rightarrow> (Ret Done (Some e), w2)
      | (Inr y, w2) \<Rightarrow> (Ret Done None, w2)))))"

text \<open>From the hash on: skip, or mark the task Running and call.\<close>

definition sendBody :: "kutil \<Rightarrow> 'w httpEnv \<Rightarrow> ('w, HTTPTask) kclient \<Rightarrow> HTTPTask \<Rightarrow> string \<Rightarrow> 'w \<Rightarrow> outcome \<times> 'w" where
  "sendBody u he cl task bodyBytes w =
     (if hs_observedInputHash (ko_status task) = sha256hex bodyBytes \<and> hs_output (ko_status task) \<noteq> []
      then (Ret Done None, w)
      else (case kStatusUpdate cl (setTaskCondition u (taskCondition task ''False'' ''Running''
                   (''calling '' @ ht_endpoint (ko_spec task))) task) w of
              (Inl e, w1) \<Rightarrow> (Ret Done (Some e), w1)
            | (Inr running, w1) \<Rightarrow> callEndpoint u he cl running bodyBytes w1))"

text \<open>Everything after the deletion and finalizer blocks.\<close>

definition runTaskBody :: "kutil \<Rightarrow> 'w httpEnv \<Rightarrow> ('w, HTTPTask) kclient \<Rightarrow> HTTPTask \<Rightarrow> 'w \<Rightarrow> outcome \<times> 'w" where
  "runTaskBody u he cl task w =
     (case buildBody (he_codec he) cl task w of
        BodyFail reason msg \<Rightarrow> fail u cl task reason msg w
      | BodyWait reason msg \<Rightarrow> waiting u cl task reason msg w
      | BodyPanic \<Rightarrow> (Panic ''assignment to entry in nil map'', w)
      | BodyOk body \<Rightarrow>
     (case marshal (he_codec he) (bodyJson body) of
        Inl e \<Rightarrow> fail u cl task ''InvalidInput'' (''failed to marshal request body: '' @ errText e) w
      | Inr bodyBytes \<Rightarrow> sendBody u he cl task bodyBytes w))"

definition HTTPTaskReconcile :: "kutil \<Rightarrow> 'w httpEnv \<Rightarrow> ('w, HTTPTask) kclient \<Rightarrow> key \<Rightarrow> 'w \<Rightarrow> outcome \<times> 'w" where
  "HTTPTaskReconcile u he cl req w =
     (case kGet cl req w of
        Inl e \<Rightarrow> (Ret Done (IgnoreNotFound e), w)
      | Inr task \<Rightarrow>
          if deleting task then
            handleDeletion u cl taskInUseFinalizer
              (taskReferencedByOthers cl (ns_of task) ''math.example.com/v1alpha1'' ''HTTPTask'' (name_of task)) task w
          else
            (case ensureFinalizer u cl taskInUseFinalizer task w of
               (Inl e, w1) \<Rightarrow> (Ret Done (Some e), w1)
             | (Inr task1, w1) \<Rightarrow> runTaskBody u he cl task1 w1))"

section \<open>Events\<close>

text \<open>The tasks to reconcile when a task changes; none when listing fails.\<close>

definition findDependentTasks :: "('w, HTTPTask) kclient \<Rightarrow> HTTPTask \<Rightarrow> 'w \<Rightarrow> key list" where
  "findDependentTasks cl t w =
     (case kList cl (Some (ns_of t)) taskSourceRefIndexKey
             (sourceRefIndexValue ''math.example.com/v1alpha1'' ''HTTPTask'' (name_of t)) w of
        Inl e \<Rightarrow> []
      | Inr tasks \<Rightarrow> map key_of tasks)"

end
