(* ===== verification/Workflow_Ctl.thy ===== *)
theory Workflow_Ctl
  imports HTTPTask_Ctl
begin

text \<open>
  \<open>src/internal/controller/workflow_controller.go\<close>: the reconciler of Workflow. It keeps one HTTPTask
  child per step, gathers the children's states into the Workflow's status and posts that status
  to \<open>spec.notifyURL\<close> once per terminal phase. \<open>controllerutil.CreateOrUpdate\<close>,
  \<open>SetControllerReference\<close>, the encoding of a status (its outputs are raw bytes) and the network
  are parameters.
\<close>

section \<open>Parameters\<close>

text \<open>
  \<open>we_createOrUpdate\<close> gets the key of the child and the mutate function, and returns the child as
  it is after the call.
\<close>

record 'w wfEnv =
  we_dashboardBaseURL :: string
  we_createOrUpdate :: "key \<Rightarrow> (HTTPTask \<Rightarrow> goerr + HTTPTask) \<Rightarrow> 'w \<Rightarrow> (goerr + HTTPTask) \<times> 'w"
  we_setController :: "Workflow \<Rightarrow> HTTPTask \<Rightarrow> goerr + HTTPTask"
  we_marshalStatus :: "WorkflowStatus \<Rightarrow> goerr + string"
  we_newRequest :: "string \<Rightarrow> string \<Rightarrow> goerr option"
  we_do :: "HttpRequest \<Rightarrow> 'w \<Rightarrow> (goerr + HttpResponse) \<times> 'w"

section \<open>Children\<close>

definition childName :: "Workflow \<Rightarrow> string \<Rightarrow> string" where
  "childName flow step = name_of flow @ ''-'' @ step"

definition mappedInputFrom :: "Workflow \<Rightarrow> WorkflowTaskSpec \<Rightarrow> ApiFieldMapping list" where
  "mappedInputFrom flow step =
     map (\<lambda>m. \<lparr>am_sourceRef = \<lparr>sr_apiVersion = SchemeGroupVersion, sr_kind = ''HTTPTask'',
                               sr_name = childName flow (wm_sourceStep m)\<rparr>,
               am_sourceField = wm_sourceField m, am_targetField = wm_targetField m\<rparr>)
         (wt_inputFrom step)"

text \<open>The mutate function: the spec comes from the step, whatever the child had.\<close>

definition childSpec :: "Workflow \<Rightarrow> WorkflowTaskSpec \<Rightarrow> HTTPTaskSpec" where
  "childSpec flow step =
     \<lparr>ht_endpoint = wt_endpoint step, ht_method = wt_method step, ht_headers = wt_headers step,
      ht_input = wt_input step, ht_inputFrom = mappedInputFrom flow step\<rparr>"

definition mutateChild :: "'w wfEnv \<Rightarrow> Workflow \<Rightarrow> WorkflowTaskSpec \<Rightarrow> HTTPTask \<Rightarrow> goerr + HTTPTask" where
  "mutateChild env flow step child = we_setController env flow (child\<lparr>ko_spec := childSpec flow step\<rparr>)"

section \<open>The state of a step\<close>

fun findReadyCondition :: "Condition list \<Rightarrow> Condition option" where
  "findReadyCondition [] = None"
| "findReadyCondition (c # cs) = (if co_type c = ''Ready'' then Some c else findReadyCondition cs)"

text \<open>The switch: the phase and the error text.\<close>

definition childPhase :: "Condition option \<Rightarrow> string \<times> string" where
  "childPhase ready = (case ready of
     None \<Rightarrow> (''Pending'', [])
   | Some c \<Rightarrow>
       if co_status c = ''True'' then (''Succeeded'', [])
       else if co_reason c = ''WaitingOnSource'' then (''Pending'', [])
       else if co_reason c = ''Running'' then (''Running'', [])
       else (''Failed'', co_reason c @ '': '' @ co_message c))"

definition childStatus :: "WorkflowTaskSpec \<Rightarrow> HTTPTask \<Rightarrow> WorkflowTaskStatus" where
  "childStatus step child =
     \<lparr>wk_name = wt_name step,
      wk_phase = fst (childPhase (findReadyCondition (hs_conditions (ko_status child)))),
      wk_statusCode = hs_statusCode (ko_status child), wk_output = hs_output (ko_status child),
      wk_error = snd (childPhase (findReadyCondition (hs_conditions (ko_status child))))\<rparr>"

record StepAcc =
  sa_statuses :: "WorkflowTaskStatus list"
  sa_failed :: bool
  sa_pending :: bool

definition addStep :: "WorkflowTaskStatus \<Rightarrow> StepAcc \<Rightarrow> StepAcc" where
  "addStep ts acc =
     \<lparr>sa_statuses = sa_statuses acc @ [ts],
      sa_failed = (sa_failed acc \<or> wk_phase ts = ''Failed''),
      sa_pending = (sa_pending acc \<or> wk_phase ts = ''Pending'' \<or> wk_phase ts = ''Running'')\<rparr>"

fun reconcileSteps :: "'w wfEnv \<Rightarrow> Workflow \<Rightarrow> WorkflowTaskSpec list \<Rightarrow> StepAcc \<Rightarrow> 'w \<Rightarrow> (goerr + StepAcc) \<times> 'w" where
  "reconcileSteps env flow [] acc w = (Inr acc, w)"
| "reconcileSteps env flow (step # steps) acc w =
     (case we_createOrUpdate env (ns_of flow, childName flow (wt_name step)) (mutateChild env flow step) w of
        (Inl e, w1) \<Rightarrow> (Inl e, w1)
      | (Inr child, w1) \<Rightarrow> reconcileSteps env flow steps (addStep (childStatus step child) acc) w1)"

definition wfPhase :: "StepAcc \<Rightarrow> string" where
  "wfPhase acc = (if sa_failed acc then ''Failed'' else if sa_pending acc then ''Running'' else ''Succeeded'')"

section \<open>Notification\<close>

definition isTerminal :: "string \<Rightarrow> bool" where
  "isTerminal phase \<longleftrightarrow> phase = ''Succeeded'' \<or> phase = ''Failed''"

definition notifyRequest :: "Workflow \<Rightarrow> string \<Rightarrow> HttpRequest" where
  "notifyRequest flow body =
     \<lparr>hq_method = ''POST'', hq_url = wf_notifyURL (ko_spec flow),
      hq_headers = headerSet ''Content-Type'' ''application/json'' [], hq_body = body\<rparr>"

definition notify :: "'w wfEnv \<Rightarrow> Workflow \<Rightarrow> 'w \<Rightarrow> goerr option \<times> 'w" where
  "notify env flow w =
     (case we_marshalStatus env (ko_status flow) of
        Inl e \<Rightarrow> (Some e, w)
      | Inr body \<Rightarrow>
     (case we_newRequest env ''POST'' (wf_notifyURL (ko_spec flow)) of
        Some e \<Rightarrow> (Some e, w)
      | None \<Rightarrow>
     (case we_do env (notifyRequest flow body) w of
        (Inl e, w1) \<Rightarrow> (Some e, w1)
      | (Inr resp, w1) \<Rightarrow>
          if sint (hr_status resp) \<ge> 300
          then (Some (GoErr (''notify endpoint returned HTTP '' @ dec_int (sint (hr_status resp)))), w1)
          else (None, w1))))"

section \<open>The reconciler\<close>

text \<open>The identity part of the status, set before the steps.\<close>

definition withIdentity :: "'w wfEnv \<Rightarrow> Workflow \<Rightarrow> Workflow" where
  "withIdentity env flow = flow\<lparr>ko_status := (ko_status flow)
     \<lparr>ws_transactionID := (if ws_transactionID (ko_status flow) = [] then om_uid (ko_meta flow)
                          else ws_transactionID (ko_status flow)),
      ws_dashboardURL := we_dashboardBaseURL env @ ''/workflows/'' @
        (if ws_transactionID (ko_status flow) = [] then om_uid (ko_meta flow)
         else ws_transactionID (ko_status flow))\<rparr>\<rparr>"

definition withSteps :: "StepAcc \<Rightarrow> Workflow \<Rightarrow> Workflow" where
  "withSteps acc flow = flow\<lparr>ko_status := (ko_status flow)\<lparr>ws_tasks := sa_statuses acc, ws_phase := wfPhase acc\<rparr>\<rparr>"

definition markNotified :: "Workflow \<Rightarrow> string \<Rightarrow> Workflow" where
  "markNotified flow phase = flow\<lparr>ko_status := (ko_status flow)\<lparr>ws_notifiedPhase := phase\<rparr>\<rparr>"

text \<open>The end of the reconcile, from the notification check on.\<close>

definition notifyIfDue :: "'w wfEnv \<Rightarrow> ('w, Workflow) kclient \<Rightarrow> string \<Rightarrow> Workflow \<Rightarrow> 'w \<Rightarrow> outcome \<times> 'w" where
  "notifyIfDue env cl phase flow w =
     (if isTerminal phase \<and> wf_notifyURL (ko_spec flow) \<noteq> [] \<and> ws_notifiedPhase (ko_status flow) \<noteq> phase
      then (case notify env flow w of
              (Some e, w1) \<Rightarrow> (Ret (RequeueAfter 10) None, w1)
            | (None, w1) \<Rightarrow>
                (case kStatusUpdate cl (markNotified flow phase) w1 of
                   (Inl e, w2) \<Rightarrow> (Ret Done (Some e), w2)
                 | (Inr y, w2) \<Rightarrow> (Ret Done None, w2)))
      else (Ret Done None, w))"

definition WorkflowReconcile :: "'w wfEnv \<Rightarrow> ('w, Workflow) kclient \<Rightarrow> key \<Rightarrow> 'w \<Rightarrow> outcome \<times> 'w" where
  "WorkflowReconcile env cl req w =
     (case kGet cl req w of
        Inl e \<Rightarrow> (Ret Done (IgnoreNotFound e), w)
      | Inr flow \<Rightarrow>
     (case reconcileSteps env (withIdentity env flow) (wf_tasks (ko_spec flow))
             \<lparr>sa_statuses = [], sa_failed = False, sa_pending = False\<rparr> w of
        (Inl e, w1) \<Rightarrow> (Ret Done (Some e), w1)
      | (Inr acc, w1) \<Rightarrow>
     (case kStatusUpdate cl (withSteps acc (withIdentity env flow)) w1 of
        (Inl e, w2) \<Rightarrow> (Ret Done (Some e), w2)
      | (Inr flow1, w2) \<Rightarrow> notifyIfDue env cl (wfPhase acc) flow1 w2)))"

text \<open>The index under \<open>TransactionIndexKey\<close> that the dashboard looks workflows up by.\<close>

definition TransactionIndexKey :: string where
  "TransactionIndexKey = ''.status.transactionID''"

definition workflowIndex :: "Workflow \<Rightarrow> string list" where
  "workflowIndex flow = (if ws_transactionID (ko_status flow) = [] then [] else [ws_transactionID (ko_status flow)])"

section \<open>Gathering the steps\<close>

lemma addStep_fields [simp]:
  "sa_statuses (addStep ts acc) = sa_statuses acc @ [ts]"
  "sa_failed (addStep ts acc) \<longleftrightarrow> sa_failed acc \<or> wk_phase ts = ''Failed''"
  "sa_pending (addStep ts acc) \<longleftrightarrow> sa_pending acc \<or> wk_phase ts = ''Pending'' \<or> wk_phase ts = ''Running''"
  by (simp_all add: addStep_def)

lemma childPhase_range: "fst (childPhase r) \<in> {''Pending'', ''Running'', ''Succeeded'', ''Failed''}"
  by (simp add: childPhase_def split: option.splits)

definition acc_ok :: "StepAcc \<Rightarrow> bool" where
  "acc_ok acc \<longleftrightarrow> (sa_failed acc \<longleftrightarrow> (\<exists>ts \<in> set (sa_statuses acc). wk_phase ts = ''Failed''))
     \<and> (sa_pending acc \<longleftrightarrow> (\<exists>ts \<in> set (sa_statuses acc). wk_phase ts = ''Pending'' \<or> wk_phase ts = ''Running''))
     \<and> (\<forall>ts \<in> set (sa_statuses acc). wk_phase ts = ''Pending'' \<or> wk_phase ts = ''Running''
          \<or> wk_phase ts = ''Succeeded'' \<or> wk_phase ts = ''Failed'')"

lemma acc_ok_add:
  assumes "acc_ok acc"
    and "wk_phase ts = ''Pending'' \<or> wk_phase ts = ''Running'' \<or> wk_phase ts = ''Succeeded'' \<or> wk_phase ts = ''Failed''"
  shows "acc_ok (addStep ts acc)"
  unfolding acc_ok_def
proof (intro conjI)
  show "sa_failed (addStep ts acc) \<longleftrightarrow> (\<exists>t \<in> set (sa_statuses (addStep ts acc)). wk_phase t = ''Failed'')"
    using assms(1) unfolding acc_ok_def addStep_fields set_append bex_Un by simp
  show "sa_pending (addStep ts acc) \<longleftrightarrow>
      (\<exists>t \<in> set (sa_statuses (addStep ts acc)). wk_phase t = ''Pending'' \<or> wk_phase t = ''Running'')"
    using assms(1) unfolding acc_ok_def addStep_fields set_append bex_Un by simp
  show "\<forall>t \<in> set (sa_statuses (addStep ts acc)). wk_phase t = ''Pending'' \<or> wk_phase t = ''Running''
      \<or> wk_phase t = ''Succeeded'' \<or> wk_phase t = ''Failed''"
    using assms unfolding acc_ok_def addStep_fields set_append ball_Un by simp
qed

lemma acc_ok_step: "acc_ok acc \<Longrightarrow> acc_ok (addStep (childStatus step child) acc)"
  using childPhase_range [of "findReadyCondition (hs_conditions (ko_status child))"]
  by (intro acc_ok_add) (simp_all add: childStatus_def)

lemma reconcileSteps_acc:
  assumes "reconcileSteps env flow steps acc w = (Inr acc', w')" and "acc_ok acc"
  shows "acc_ok acc' \<and> map wk_name (sa_statuses acc') = map wk_name (sa_statuses acc) @ map wt_name steps"
  using assms
proof (induction steps arbitrary: acc w)
  case (Cons step steps)
  then obtain child w1 where "reconcileSteps env flow steps (addStep (childStatus step child) acc) w1 = (Inr acc', w')"
    by (auto split: prod.splits sum.splits)
  from Cons.IH [OF this acc_ok_step [OF Cons.prems(2)]] show ?case by (simp add: childStatus_def)
qed simp

text \<open>The phase of a workflow as a function of the phases of its steps.\<close>

definition aggregate :: "WorkflowTaskStatus list \<Rightarrow> string" where
  "aggregate tss =
     (if \<exists>ts \<in> set tss. wk_phase ts = ''Failed'' then ''Failed''
      else if \<forall>ts \<in> set tss. wk_phase ts = ''Succeeded'' then ''Succeeded'' else ''Running'')"

lemma wfPhase_acc: "acc_ok acc \<Longrightarrow> wfPhase acc = aggregate (sa_statuses acc)"
proof -
  assume ok: "acc_ok acc"
  then have f: "sa_failed acc \<longleftrightarrow> (\<exists>ts \<in> set (sa_statuses acc). wk_phase ts = ''Failed'')"
    and p: "sa_pending acc \<longleftrightarrow> (\<exists>ts \<in> set (sa_statuses acc). wk_phase ts = ''Pending'' \<or> wk_phase ts = ''Running'')"
    and r: "\<forall>ts \<in> set (sa_statuses acc). wk_phase ts = ''Pending'' \<or> wk_phase ts = ''Running''
          \<or> wk_phase ts = ''Succeeded'' \<or> wk_phase ts = ''Failed''"
    unfolding acc_ok_def by blast+
  have "\<not> sa_failed acc \<Longrightarrow> sa_pending acc \<longleftrightarrow> \<not> (\<forall>ts \<in> set (sa_statuses acc). wk_phase ts = ''Succeeded'')"
    unfolding f p using r by fastforce
  then show ?thesis unfolding wfPhase_def aggregate_def f [symmetric] by simp
qed

abbreviation noSteps :: StepAcc where
  "noSteps \<equiv> \<lparr>sa_statuses = [], sa_failed = False, sa_pending = False\<rparr>"

lemma noSteps_ok [simp]: "acc_ok noSteps"
  by (simp add: acc_ok_def)

end
