(* ===== verification/Status_Server.thy ===== *)
theory Status_Server
  imports Workflow_Ctl
begin

text \<open>
  \<open>src/internal/statusserver/server.go\<close>: the dashboard server. Looking a Workflow up by its transaction
  id, the JSON snapshot, the event stream and the page. The encoding of a status and the page
  template are parameters; the stream runs on a sequence of ticks, each with the world at that
  moment, that the request's end may cut.
\<close>

section \<open>Parameters\<close>

record serverEnv =
  sv_marshalStatus :: "WorkflowStatus \<Rightarrow> goerr + string"
  sv_render :: "string \<Rightarrow> string"

section \<open>Responses\<close>

record Response =
  rp_status :: nat
  rp_contentType :: string
  rp_body :: string

text \<open>\<open>http.Error\<close>.\<close>

definition httpError :: "string \<Rightarrow> nat \<Rightarrow> Response" where
  "httpError msg code = \<lparr>rp_status = code, rp_contentType = ''text/plain; charset=utf-8'', rp_body = msg @ [CHR 0x0A]\<rparr>"

section \<open>Handlers\<close>

definition lookupWorkflow :: "('w, Workflow) kclient \<Rightarrow> string \<Rightarrow> 'w \<Rightarrow> goerr + Workflow" where
  "lookupWorkflow cl txID w =
     (case kList cl None TransactionIndexKey txID w of
        Inl e \<Rightarrow> Inl e
      | Inr [] \<Rightarrow> Inl (GoErr ''not found'')
      | Inr (flow # items) \<Rightarrow> Inr flow)"

text \<open>An encoding error leaves an empty 200 response: the handler drops it.\<close>

definition handleWorkflowJSON :: "serverEnv \<Rightarrow> ('w, Workflow) kclient \<Rightarrow> string \<Rightarrow> 'w \<Rightarrow> Response" where
  "handleWorkflowJSON env cl path w =
     (case lookupWorkflow cl (trim_prefix ''/api/workflows/'' path) w of
        Inl e \<Rightarrow> httpError ''no workflow found with that transaction id'' 404
      | Inr flow \<Rightarrow> \<lparr>rp_status = 200, rp_contentType = ''application/json'',
          rp_body = (case sv_marshalStatus env (ko_status flow) of Inl e \<Rightarrow> [] | Inr s \<Rightarrow> s @ [CHR 0x0A])\<rparr>)"

definition handlePage :: "serverEnv \<Rightarrow> string \<Rightarrow> Response" where
  "handlePage env path =
     (if trim_prefix ''/workflows/'' path = []
      then httpError ''usage: /workflows/{transactionID}'' 400
      else \<lparr>rp_status = 200, rp_contentType = ''text/html'',
            rp_body = sv_render env (trim_prefix ''/workflows/'' path)\<rparr>)"

subsection \<open>The stream\<close>

datatype 'w streamEvent = CtxDone | Tick 'w

definition chunk :: "string \<Rightarrow> string" where
  "chunk payload = ''data: '' @ payload @ [CHR 0x0A, CHR 0x0A]"

definition payloadOf :: "serverEnv \<Rightarrow> Workflow \<Rightarrow> string" where
  "payloadOf env flow = (case sv_marshalStatus env (ko_status flow) of Inl e \<Rightarrow> [] | Inr s \<Rightarrow> s)"

definition terminalFlow :: "Workflow \<Rightarrow> bool" where
  "terminalFlow flow \<longleftrightarrow> ws_phase (ko_status flow) = ''Succeeded'' \<or> ws_phase (ko_status flow) = ''Failed''"

text \<open>The loop: what it writes, and whether the handler has returned.\<close>

fun streamLoop :: "serverEnv \<Rightarrow> ('w, Workflow) kclient \<Rightarrow> string \<Rightarrow> string \<Rightarrow> 'w streamEvent list \<Rightarrow> string list \<times> bool" where
  "streamLoop env cl txID lastPayload [] = ([], False)"
| "streamLoop env cl txID lastPayload (CtxDone # evs) = ([], True)"
| "streamLoop env cl txID lastPayload (Tick w # evs) =
     (case lookupWorkflow cl txID w of
        Inl e \<Rightarrow> streamLoop env cl txID lastPayload evs
      | Inr flow \<Rightarrow>
          (case (if terminalFlow flow then ([], True)
                 else streamLoop env cl txID (payloadOf env flow) evs) of
             (out, fin) \<Rightarrow>
               ((if payloadOf env flow \<noteq> lastPayload then [chunk (payloadOf env flow)] else []) @ out, fin)))"

text \<open>The handler: \<open>flusher\<close> says whether the response writer can flush.\<close>

definition handleStream :: "serverEnv \<Rightarrow> ('w, Workflow) kclient \<Rightarrow> bool \<Rightarrow> string \<Rightarrow> 'w streamEvent list
    \<Rightarrow> Response + (string list \<times> bool)" where
  "handleStream env cl flusher path evs =
     (if \<not> flusher then Inl (httpError ''streaming unsupported'' 500)
      else Inr (streamLoop env cl (trim_prefix ''/api/workflows/stream/'' path) [] evs))"

section \<open>Routes\<close>

text \<open>The patterns \<open>Start\<close> registers; a \<open>ServeMux\<close> takes the longest one that is a prefix of the path.\<close>

datatype route = Page | Stream | Snapshot

definition routes :: "(string \<times> route) list" where
  "routes = [(''/workflows/'', Page), (''/api/workflows/stream/'', Stream), (''/api/workflows/'', Snapshot)]"

fun bestRoute :: "(string \<times> 'h) list \<Rightarrow> string \<Rightarrow> (string \<times> 'h) option" where
  "bestRoute [] path = None"
| "bestRoute ((p, h) # rs) path = (case bestRoute rs path of
     None \<Rightarrow> if prefix p path then Some (p, h) else None
   | Some (q, g) \<Rightarrow> if prefix p path \<and> length q < length p then Some (p, h) else Some (q, g))"

definition handlerFor :: "string \<Rightarrow> route option" where
  "handlerFor path = map_option snd (bestRoute routes path)"

lemma handlerFor_page: "handlerFor (''/workflows/'' @ tx) = Some Page"
  by (simp add: handlerFor_def routes_def)

lemma handlerFor_stream: "handlerFor (''/api/workflows/stream/'' @ tx) = Some Stream"
  by (simp add: handlerFor_def routes_def)

lemma handlerFor_snapshot: "\<not> prefix ''stream/'' tx \<Longrightarrow> handlerFor (''/api/workflows/'' @ tx) = Some Snapshot"
  by (simp add: handlerFor_def routes_def)

text \<open>
  \<open>Start\<close> serves until the case its \<open>select\<close> takes: the end of the context, after which it returns what shutting
  down returns, or the error that listening ended with (\<open>ListenAndServe\<close> always returns one).
\<close>

datatype startCase = StartDone | Listened goerr

definition Start :: "goerr option \<Rightarrow> startCase \<Rightarrow> goerr option" where
  "Start shutdown sel = (case sel of StartDone \<Rightarrow> shutdown | Listened e \<Rightarrow> Some e)"

section \<open>The stream against its specification\<close>

text \<open>
  The specification: the statuses seen, in order, up to the first terminal one or the end of the
  request; the stream is that sequence with repetitions dropped.
\<close>

fun seenFlows :: "('w, Workflow) kclient \<Rightarrow> string \<Rightarrow> 'w streamEvent list \<Rightarrow> Workflow list" where
  "seenFlows cl txID [] = []"
| "seenFlows cl txID (CtxDone # evs) = []"
| "seenFlows cl txID (Tick w # evs) = (case lookupWorkflow cl txID w of
     Inl e \<Rightarrow> seenFlows cl txID evs
   | Inr flow \<Rightarrow> flow # (if terminalFlow flow then [] else seenFlows cl txID evs))"

lemma next_change:
  "(if p \<noteq> l then [f p] else []) @ map f (tl (remdups_adj (p # r))) = map f (tl (remdups_adj (l # p # r)))"
proof (cases "p = l")
  case False
  have "f p # map f (tl (remdups_adj (p # r))) = map f (remdups_adj (p # r))"
    by (metis list.simps(9) remdups_adj_Cons_alt)
  with False show ?thesis by simp
qed simp

lemma streamLoop_spec:
  "fst (streamLoop env cl txID l evs) = map chunk (tl (remdups_adj (l # map (payloadOf env) (seenFlows cl txID evs))))"
proof (induction env cl txID l evs rule: streamLoop.induct)
  case (3 env cl txID l w evs)
  show ?case
  proof (cases "lookupWorkflow cl txID w")
    case (Inl e)
    with "3.IH"(1) show ?thesis by simp
  next
    case (Inr flow)
    let ?p = "payloadOf env flow"
    let ?rest = "if terminalFlow flow then [] else map (payloadOf env) (seenFlows cl txID evs)"
    have rest: "fst (if terminalFlow flow then ([], True) else streamLoop env cl txID ?p evs)
        = map chunk (tl (remdups_adj (?p # ?rest)))"
      using "3.IH"(2) [OF Inr] by simp
    have "fst (streamLoop env cl txID l (Tick w # evs)) =
        (if ?p \<noteq> l then [chunk ?p] else []) @ map chunk (tl (remdups_adj (?p # ?rest)))"
      unfolding rest [symmetric] by (simp add: Inr split: prod.splits)
    also have "\<dots> = map chunk (tl (remdups_adj (l # ?p # ?rest)))" by (rule next_change)
    also have "?p # ?rest = map (payloadOf env) (seenFlows cl txID (Tick w # evs))" by (simp add: Inr)
    finally show ?thesis .
  qed
qed simp_all

text \<open>
  C20. The event stream sends exactly the sequence of statuses it has seen with repetitions dropped: every
  change of the status is sent once, nothing is sent for an unchanged one, and the last one is the
  terminal status when there is one.
\<close>

theorem stream_sends_changes:
  "fst (streamLoop env cl txID [] evs) =
     map chunk (tl (remdups_adj ([] # map (payloadOf env) (seenFlows cl txID evs))))"
  by (rule streamLoop_spec)

text \<open>
  C36. The stream ends exactly when the request is over or a tick has shown a terminal phase.
\<close>

theorem stream_ends_iff:
  "snd (streamLoop env cl txID l evs) \<longleftrightarrow>
     CtxDone \<in> set evs \<or> (\<exists>flow \<in> set (seenFlows cl txID evs). terminalFlow flow)"
proof (induction env cl txID l evs rule: streamLoop.induct)
  case (3 env cl txID l w evs)
  then show ?case by (auto split: sum.splits prod.splits)
qed simp_all

section \<open>Lookup\<close>

lemma lookup_transaction:
  assumes "kube_api cl store idx" and "idx TransactionIndexKey = workflowIndex"
    and "kList cl None TransactionIndexKey txID w = Inr items"
  shows "case lookupWorkflow cl txID w of
     Inr flow \<Rightarrow> store w (key_of flow) = Some flow \<and> ws_transactionID (ko_status flow) = txID \<and> txID \<noteq> []
   | Inl e \<Rightarrow> txID = [] \<or> (\<forall>k flow. store w k = Some flow \<longrightarrow> ws_transactionID (ko_status flow) \<noteq> txID)"
proof -
  have mem: "flow \<in> set items \<longleftrightarrow> store w (key_of flow) = Some flow \<and> txID \<in> set (workflowIndex flow)" for flow
    using kube_api.list_current [OF assms(1,3)] assms(2) by simp
  show ?thesis
  proof (cases items)
    case Nil
    have "ws_transactionID (ko_status flow) \<noteq> txID \<or> txID = []" if "store w k = Some flow" for k flow
      using mem [of flow] Nil kube_api.store_key [OF assms(1) that] that by (auto simp: workflowIndex_def split: if_splits)
    with Nil assms(3) show ?thesis by (auto simp: lookupWorkflow_def)
  next
    case (Cons flow rest)
    with mem [of flow] assms(3) show ?thesis
      by (auto simp: lookupWorkflow_def workflowIndex_def split: if_splits)
  qed
qed

text \<open>
  Looking up a transaction id gives a stored Workflow with that id, and fails exactly when there is
  none (or when listing fails); an empty id is never found.
\<close>

theorem lookup_by_transaction:
  assumes "kube_api cl store idx" and "idx TransactionIndexKey = workflowIndex"
    and "kList cl None TransactionIndexKey txID w = Inr items"
  shows "case lookupWorkflow cl txID w of
     Inr flow \<Rightarrow> store w (key_of flow) = Some flow \<and> ws_transactionID (ko_status flow) = txID \<and> txID \<noteq> []
   | Inl e \<Rightarrow> txID = [] \<or> (\<forall>k flow. store w k = Some flow \<longrightarrow> ws_transactionID (ko_status flow) \<noteq> txID)"
  by (rule lookup_transaction [OF assms])

end
