(* ===== verification/Task_Transfer.thy ===== *)
theory Task_Transfer
  imports Guarded
begin

text \<open>
  \<open>src/internal/controller/task_transfer.go\<close>: reading \<open>status.result\<close> of an object known only by
  its apiVersion, kind and name, and the watcher that starts watching a kind the first time it is
  asked for. The apimachinery functions on group/versions and unstructured content, the
  dynamic read and the manager are parameters.
\<close>

section \<open>Parameters\<close>

record GroupVersionKind =
  gvk_group :: string
  gvk_version :: string
  gvk_kind :: string

record schemaLib =
  ParseGroupVersion :: "string \<Rightarrow> goerr + string \<times> string"
  gvString :: "string \<times> string \<Rightarrow> string"
  gvkString :: "GroupVersionKind \<Rightarrow> string"
  NestedInt64 :: "json \<Rightarrow> string list \<Rightarrow> goerr + int64 option"

definition WithKind :: "string \<times> string \<Rightarrow> string \<Rightarrow> GroupVersionKind" where
  "WithKind gv kind = \<lparr>gvk_group = fst gv, gvk_version = snd gv, gvk_kind = kind\<rparr>"

text \<open>\<open>Get\<close> of an unstructured object: its content.\<close>

type_synonym 'w dynGet = "GroupVersionKind \<Rightarrow> key \<Rightarrow> 'w \<Rightarrow> goerr + json"

record 'w manager =
  RESTMapping :: "GroupVersionKind \<Rightarrow> 'w \<Rightarrow> goerr option"
  ctlWatch :: "GroupVersionKind \<Rightarrow> 'w \<Rightarrow> goerr option \<times> 'w"

section \<open>\<open>FetchTaskResult\<close>\<close>

text \<open>\<open>(value, found, error)\<close>: an error, or the value if it was found.\<close>

definition FetchTaskResult :: "schemaLib \<Rightarrow> 'w dynGet \<Rightarrow> string \<Rightarrow> string \<Rightarrow> string \<Rightarrow> string \<Rightarrow> 'w
    \<Rightarrow> goerr + int64 option" where
  "FetchTaskResult lib get namespace apiVersion kind name w =
     (case ParseGroupVersion lib apiVersion of
        Inl e \<Rightarrow> Inl (wrapErr (''invalid apiVersion '' @ quoted apiVersion) e)
      | Inr gv \<Rightarrow>
     (case get (WithKind gv kind) (namespace, name) w of
        Inl e \<Rightarrow> Inl e
      | Inr src \<Rightarrow>
     (case NestedInt64 lib src [''status'', ''result''] of
        Inl e \<Rightarrow> Inl (wrapErr (''status.result on '' @ kind @ ''/'' @ name @ '' is not an integer'') e)
      | Inr result \<Rightarrow> Inr result)))"

section \<open>\<open>DynamicWatcher\<close>\<close>

record DynamicWatcher =
  dw_seen :: "GroupVersionKind \<Rightarrow> bool"

definition NewDynamicWatcher :: DynamicWatcher where
  "NewDynamicWatcher = \<lparr>dw_seen = (\<lambda>_. False)\<rparr>"

definition Ensure :: "'w manager \<Rightarrow> GroupVersionKind \<Rightarrow> DynamicWatcher \<Rightarrow> 'w
    \<Rightarrow> goerr option \<times> DynamicWatcher \<times> 'w" where
  "Ensure mgr gvk dw w =
     (if dw_seen dw gvk then (None, dw, w)
      else (case RESTMapping mgr gvk w of
        Some e \<Rightarrow> (Some (wrapErr ''kind not found on cluster'' e), dw, w)
      | None \<Rightarrow>
      (case ctlWatch mgr gvk w of
        (Some e, w1) \<Rightarrow> (Some e, dw, w1)
      | (None, w1) \<Rightarrow> (None, dw\<lparr>dw_seen := (dw_seen dw)(gvk := True)\<rparr>, w1))))"

text \<open>Requests for watches arrive one after the other (\<open>Ensure\<close> holds the mutex throughout).\<close>

fun EnsureAll :: "'w manager \<Rightarrow> GroupVersionKind list \<Rightarrow> DynamicWatcher \<Rightarrow> 'w
    \<Rightarrow> goerr option list \<times> DynamicWatcher \<times> 'w" where
  "EnsureAll mgr [] dw w = ([], dw, w)"
| "EnsureAll mgr (g # gs) dw w = (case Ensure mgr g dw w of (e, dw1, w1) \<Rightarrow>
     (case EnsureAll mgr gs dw1 w1 of (es, dw2, w2) \<Rightarrow> (e # es, dw2, w2)))"

section \<open>A kind is watched once\<close>

lemma Ensure_mono: "Ensure mgr g dw w = (e, dw1, w1) \<Longrightarrow> dw_seen dw h \<Longrightarrow> dw_seen dw1 h"
  by (auto simp: Ensure_def split: if_splits option.splits prod.splits)

lemma Ensure_seen: "Ensure mgr g dw w = (None, dw1, w1) \<Longrightarrow> dw_seen dw1 g"
  by (auto simp: Ensure_def split: if_splits option.splits prod.splits)

lemma Ensure_noop: "dw_seen dw g \<Longrightarrow> Ensure mgr g dw w = (None, dw, w)"
  by (simp add: Ensure_def)

lemma Ensure_frame: "Ensure mgr g dw w = (e, dw1, w1) \<Longrightarrow> h \<noteq> g \<Longrightarrow> dw_seen dw1 h = dw_seen dw h"
  by (auto simp: Ensure_def split: if_splits option.splits prod.splits)

lemma EnsureAll_mono: "EnsureAll mgr gs dw w = (es, dw1, w1) \<Longrightarrow> dw_seen dw h \<Longrightarrow> dw_seen dw1 h"
  by (induction gs arbitrary: dw w es dw1 w1) (auto dest: Ensure_mono split: prod.splits)

text \<open>
  A kind is watched at most once: after an \<open>Ensure\<close> of a kind has succeeded, and whatever other
  kinds were asked for since, a further \<open>Ensure\<close> of it succeeds without touching the manager or the
  watcher; and a kind that was never asked for is not marked.
\<close>

theorem Ensure_once:
  assumes "Ensure mgr g dw w = (None, dw1, w1)" and "EnsureAll mgr gs dw1 w1 = (es, dw2, w2)"
  shows "Ensure mgr g dw2 w2 = (None, dw2, w2)
     \<and> (\<forall>h. dw_seen dw2 h \<longrightarrow> dw_seen dw h \<or> h = g \<or> h \<in> set gs)"
proof
  show "Ensure mgr g dw2 w2 = (None, dw2, w2)"
    using Ensure_seen [OF assms(1)] EnsureAll_mono [OF assms(2)] by (simp add: Ensure_noop)
  have "dw_seen dw2 h \<Longrightarrow> dw_seen dw1 h \<or> h \<in> set gs" for h
    using assms(2)
  proof (induction gs arbitrary: dw1 w1 es)
    case (Cons x xs)
    obtain e dw' w' where e: "Ensure mgr x dw1 w1 = (e, dw', w')" by (metis prod_cases3)
    obtain es' where es: "EnsureAll mgr xs dw' w' = (es', dw2, w2)"
      using Cons.prems(2) e by (auto split: prod.splits)
    show ?case using Cons.IH [OF Cons.prems(1) es] Ensure_frame [OF e, of h] by auto
  qed simp
  then show "\<forall>h. dw_seen dw2 h \<longrightarrow> dw_seen dw h \<or> h = g \<or> h \<in> set gs"
    using Ensure_frame [OF assms(1)] by metis
qed

end
