(* ===== verification/Square_Ctl.thy ===== *)
theory Square_Ctl
  imports Task_Transfer
begin

text \<open>
  \<open>src/internal/controller/square_controller.go\<close>: the reconciler of Square, which squares the
  result of any object that publishes \<open>status.result\<close>, and the mapping from events of a source
  to the Squares that refer to it.
\<close>

section \<open>The reconciler\<close>

definition squareCondition :: "Square \<Rightarrow> string \<Rightarrow> string \<Rightarrow> string \<Rightarrow> Condition" where
  "squareCondition square status reason msg =
     \<lparr>co_type = ''Ready'', co_status = status, co_reason = reason, co_message = msg,
      co_generation = om_generation (ko_meta square)\<rparr>"

definition withCondition :: "kutil \<Rightarrow> Condition \<Rightarrow> Square \<Rightarrow> Square" where
  "withCondition u c square = square\<lparr>ko_status := (ko_status square)\<lparr>sq_conditions :=
     SetStatusCondition u (sq_conditions (ko_status square)) c\<rparr>\<rparr>"

text \<open>\<open>return ctrl.Result{}, r.Status().Update(ctx, &square)\<close>\<close>

definition returnUpdate :: "('w, Square) kclient \<Rightarrow> Square \<Rightarrow> 'w \<Rightarrow> outcome \<times> 'w" where
  "returnUpdate cl square w = (case kStatusUpdate cl square w of
     (Inl e, w1) \<Rightarrow> (Ret Done (Some e), w1)
   | (Inr y, w1) \<Rightarrow> (Ret Done None, w1))"

text \<open>\<open>int32(sum * sum)\<close>: the product wraps at 64 bits and is then cut to 32.\<close>

definition squareResult :: "int64 \<Rightarrow> int32" where
  "squareResult srcVal = ucast (srcVal * srcVal)"

definition squarePublish :: "kutil \<Rightarrow> ('w, Square) kclient \<Rightarrow> Square \<Rightarrow> int64 \<Rightarrow> 'w \<Rightarrow> outcome \<times> 'w" where
  "squarePublish u cl square srcVal w =
     (if sq_result (ko_status square) = None \<or> the (sq_result (ko_status square)) \<noteq> squareResult srcVal
      then returnUpdate cl
             (withCondition u (squareCondition square ''True'' ''Computed''
                 (dec_int (sint srcVal) @ ''^2 = '' @ dec_int (sint (squareResult srcVal))))
               (square\<lparr>ko_status := (ko_status square)\<lparr>sq_result := Some (squareResult srcVal)\<rparr>\<rparr>)) w
      else (Ret Done None, w))"

text \<open>The transfer: everything after the watch is in place.\<close>

definition squareTransfer :: "kutil \<Rightarrow> schemaLib \<Rightarrow> 'w dynGet \<Rightarrow> ('w, Square) kclient \<Rightarrow> Square \<Rightarrow> 'w \<Rightarrow> outcome \<times> 'w" where
  "squareTransfer u lib get cl square w =
     (case FetchTaskResult lib get (ns_of square) (sr_apiVersion (sq_sourceRef (ko_spec square)))
             (sr_kind (sq_sourceRef (ko_spec square))) (sr_name (sq_sourceRef (ko_spec square))) w of
        Inl e \<Rightarrow>
          (Ret Done (IgnoreNotFound e),
           snd (kStatusUpdate cl
             (withCondition u (squareCondition square ''False'' ''SourceNotFound''
               (''referenced '' @ sr_kind (sq_sourceRef (ko_spec square)) @ '' '' @
                quoted (sr_name (sq_sourceRef (ko_spec square))) @ '' not found: '' @ errText e)) square) w))
      | Inr None \<Rightarrow>
          returnUpdate cl
            (withCondition u (squareCondition square ''False'' ''WaitingOnSource''
              (sr_kind (sq_sourceRef (ko_spec square)) @ '' '' @
               quoted (sr_name (sq_sourceRef (ko_spec square))) @ '' has not produced status.result yet'')) square) w
      | Inr (Some srcVal) \<Rightarrow> squarePublish u cl square srcVal w)"

definition SquareReconcile :: "kutil \<Rightarrow> schemaLib \<Rightarrow> 'w dynGet \<Rightarrow> 'w manager \<Rightarrow> ('w, Square) kclient \<Rightarrow> key
    \<Rightarrow> DynamicWatcher \<Rightarrow> 'w \<Rightarrow> outcome \<times> DynamicWatcher \<times> 'w" where
  "SquareReconcile u lib get mgr cl req dw w =
     (case kGet cl req w of
        Inl e \<Rightarrow> (Ret Done (IgnoreNotFound e), dw, w)
      | Inr square \<Rightarrow>
     (case ParseGroupVersion lib (sr_apiVersion (sq_sourceRef (ko_spec square))) of
        Inl e \<Rightarrow>
          (case returnUpdate cl (withCondition u (squareCondition square ''False'' ''InvalidSourceRef''
                  (''invalid apiVersion '' @ quoted (sr_apiVersion (sq_sourceRef (ko_spec square)))
                   @ '': '' @ errText e)) square) w of
             (r, w1) \<Rightarrow> (r, dw, w1))
      | Inr gv \<Rightarrow>
     (case Ensure mgr (WithKind gv (sr_kind (sq_sourceRef (ko_spec square)))) dw w of
        (Some e, dw1, w1) \<Rightarrow>
          (case returnUpdate cl (withCondition u (squareCondition square ''False'' ''SourceKindUnavailable''
                  (''cannot watch '' @ gvkString lib (WithKind gv (sr_kind (sq_sourceRef (ko_spec square))))
                   @ '': '' @ errText e)) square) w1 of
             (r, w2) \<Rightarrow> (r, dw1, w2))
      | (None, dw1, w1) \<Rightarrow>
          (case squareTransfer u lib get cl square w1 of (r, w2) \<Rightarrow> (r, dw1, w2)))))"

section \<open>Events of a source\<close>

text \<open>The requests for an event of the object \<open>gvk\<close>, namespace, name; none when listing fails.\<close>

definition findSquaresForSource :: "schemaLib \<Rightarrow> ('w, Square) kclient \<Rightarrow> GroupVersionKind \<Rightarrow> string \<Rightarrow> string \<Rightarrow> 'w \<Rightarrow> key list" where
  "findSquaresForSource lib cl gvk namespace name w =
     (case kList cl (Some namespace) sourceRefIndexKey
             (sourceRefIndexValue (gvString lib (gvk_group gvk, gvk_version gvk)) (gvk_kind gvk) name) w of
        Inl e \<Rightarrow> []
      | Inr squares \<Rightarrow> map key_of squares)"

section \<open>Guarantees\<close>

lemma returnUpdate_done:
  assumes "kube_api cl store idx" and "store w (key_of x) = Some z" and "returnUpdate cl x w = (Ret Done None, w')"
  obtains y where "store w' (key_of x) = Some y" "ko_status y = ko_status x" "ko_spec y = ko_spec z"
proof (cases "kStatusUpdate cl x w")
  case (Pair r w1)
  with assms(3) obtain y where "kStatusUpdate cl x w = (Inr y, w')"
    by (cases r) (simp_all add: returnUpdate_def)
  from kube_api.status_stored [OF assms(1) this assms(2)] show ?thesis by (intro that [of y])
qed

text \<open>The path of a reconcile up to the transfer.\<close>

lemma SquareReconcile_transfer:
  assumes "kube_api cl store idx" and "store w k = Some square"
    and "ParseGroupVersion lib (sr_apiVersion (sq_sourceRef (ko_spec square))) = Inr gv"
    and "Ensure mgr (WithKind gv (sr_kind (sq_sourceRef (ko_spec square)))) dw w = (None, dw1, w1)"
    and "SquareReconcile u lib get mgr cl k dw w = (Ret Done None, dw2, w2)"
  shows "squareTransfer u lib get cl square w1 = (Ret Done None, w2)"
proof (cases "kGet cl k w")
  case (Inl e)
  with assms(2,5) kube_api.get_err [OF assms(1) Inl] show ?thesis by (auto simp: SquareReconcile_def)
next
  case (Inr x)
  then have "x = square" using kube_api.get_current [OF assms(1)] assms(2) by fastforce
  with Inr assms(3-5) show ?thesis
    by (auto simp: SquareReconcile_def split: prod.splits)
qed

lemma square_published:
  assumes "kube_api cl store idx" and "store w k = Some square"
    and "ParseGroupVersion lib (sr_apiVersion (sq_sourceRef (ko_spec square))) = Inr gv"
    and "Ensure mgr (WithKind gv (sr_kind (sq_sourceRef (ko_spec square)))) dw w = (None, dw1, w1)"
    and "store w1 = store w"
    and "FetchTaskResult lib get (fst k) (sr_apiVersion (sq_sourceRef (ko_spec square)))
           (sr_kind (sq_sourceRef (ko_spec square))) (sr_name (sq_sourceRef (ko_spec square))) w1 = Inr (Some srcVal)"
    and "SquareReconcile u lib get mgr cl k dw w = (Ret Done None, dw2, w2)"
  shows "\<exists>y. store w2 k = Some y \<and> ko_spec y = ko_spec square \<and> sq_result (ko_status y) = Some (squareResult srcVal)"
proof -
  have k: "key_of square = k" using kube_api.store_key [OF assms(1,2)] .
  then have "fst k = ns_of square" by auto
  with SquareReconcile_transfer [OF assms(1-4,7)] assms(6)
  have pub: "squarePublish u cl square srcVal w1 = (Ret Done None, w2)" by (simp add: squareTransfer_def)
  show ?thesis
  proof (cases "sq_result (ko_status square) = Some (squareResult srcVal)")
    case True
    with pub assms(2,5) show ?thesis by (simp add: squarePublish_def)
  next
    case False
    let ?x = "withCondition u (squareCondition square ''True'' ''Computed''
                 (dec_int (sint srcVal) @ ''^2 = '' @ dec_int (sint (squareResult srcVal))))
               (square\<lparr>ko_status := (ko_status square)\<lparr>sq_result := Some (squareResult srcVal)\<rparr>\<rparr>)"
    have x: "key_of ?x = k" "sq_result (ko_status ?x) = Some (squareResult srcVal)"
      using k by (simp_all add: withCondition_def)
    have "returnUpdate cl ?x w1 = (Ret Done None, w2)"
      using pub False by (auto simp: squarePublish_def split: if_splits)
    moreover have "store w1 (key_of ?x) = Some square" unfolding x(1) assms(5) by (rule assms(2))
    ultimately obtain y where "store w2 (key_of ?x) = Some y" "ko_status y = ko_status ?x" "ko_spec y = ko_spec square"
      using returnUpdate_done [OF assms(1)] by blast
    then show ?thesis using x by (intro exI [of _ y]) simp
  qed
qed

text \<open>
  C15. When the source has published \<open>srcVal\<close> and a reconcile of the Square reports success, the stored
  Square holds \<open>int32(sum * sum)\<close> and an unchanged spec.
\<close>

theorem square_reconciled:
  assumes "kube_api cl store idx" and "store w k = Some square"
    and "ParseGroupVersion lib (sr_apiVersion (sq_sourceRef (ko_spec square))) = Inr gv"
    and "Ensure mgr (WithKind gv (sr_kind (sq_sourceRef (ko_spec square)))) dw w = (None, dw1, w1)"
    and "store w1 = store w"
    and "FetchTaskResult lib get (fst k) (sr_apiVersion (sq_sourceRef (ko_spec square)))
           (sr_kind (sq_sourceRef (ko_spec square))) (sr_name (sq_sourceRef (ko_spec square))) w1 = Inr (Some srcVal)"
    and "SquareReconcile u lib get mgr cl k dw w = (Ret Done None, dw2, w2)"
  shows "\<exists>y. store w2 k = Some y \<and> ko_spec y = ko_spec square \<and> sq_result (ko_status y) = Some (squareResult srcVal)"
  by (rule square_published [OF assms])

text \<open>On the result of an \<open>int32\<close> operation it is the \<open>int32\<close> product.\<close>

lemma squareResult_scast: "squareResult (scast r) = (r * r :: int32)"
proof -
  have "squareResult (scast r) = ucast (word_of_int (sint r * sint r) :: int64)"
    unfolding squareResult_def scast_eq [of r] wi_hom_mult by (rule refl)
  also have "\<dots> = (word_of_int (sint r * sint r) :: int32)"
    by (rule ucast_of_int)
  also have "\<dots> = word_of_int (sint r) * word_of_int (sint r)" by (simp only: wi_hom_mult)
  also have "\<dots> = r * r" by simp
  finally show ?thesis .
qed

lemma square_no_overflow: "sint ((scast r :: int64) * scast r) = (sint (r :: int32))\<^sup>2"
proof -
  have a: "\<bar>sint r\<bar> \<le> 2 ^ 31" using sint_int32_range [of r] by simp
  have "\<bar>sint r\<bar> * \<bar>sint r\<bar> \<le> 2 ^ 31 * 2 ^ 31" by (intro mult_mono a) auto
  then have "sint r * sint r < 2 ^ 63" by simp
  moreover have "- (2 ^ 63) \<le> sint r * sint r" by (rule order_trans [of _ 0]) simp_all
  ultimately have "signed_take_bit 63 (sint r * sint r) = sint r * sint r"
    by (intro signed_in_range)
  then show ?thesis
    by (simp add: sint_word_ariths(3) sint_scast64 power2_eq_square)
qed

lemma square_bound_iff: "(i :: int)\<^sup>2 < 2 ^ 31 \<longleftrightarrow> \<bar>i\<bar> \<le> 46340"
proof
  assume "\<bar>i\<bar> \<le> 46340"
  then have "\<bar>i\<bar>\<^sup>2 \<le> 46340\<^sup>2" by (intro power_mono) auto
  then show "i\<^sup>2 < 2 ^ 31" by simp
next
  assume "i\<^sup>2 < 2 ^ 31"
  then have "\<bar>i\<bar>\<^sup>2 < 46341\<^sup>2" by simp
  then show "\<bar>i\<bar> \<le> 46340" using power2_less_imp_less [of "\<bar>i\<bar>" 46341] by simp
qed

text \<open>
  C34. Squaring an \<open>int32\<close> result (which is what Add and Subtract publish) is exact exactly for
  operands up to 46340 in absolute value; beyond, the published result has wrapped.
\<close>

theorem square_exact_iff:
  "sint (squareResult (scast r)) = (sint r)\<^sup>2 \<longleftrightarrow> \<bar>sint (r :: int32)\<bar> \<le> 46340"
proof -
  have "sint (squareResult (scast r)) = signed_take_bit 31 ((sint r)\<^sup>2)"
    by (simp add: squareResult_def sint_ucast32 square_no_overflow)
  moreover have "signed_take_bit 31 ((sint r)\<^sup>2) = (sint r)\<^sup>2 \<longleftrightarrow> (sint r)\<^sup>2 < 2 ^ 31"
    by (auto simp: signed_take_bit_int_eq_self_iff intro: order_trans [of _ 0])
  ultimately show ?thesis by (simp only: square_bound_iff)
qed

text \<open>
  C37. A reconcile that finds the result already published leaves the stored Square as it is, its
  conditions included: a Ready condition that an earlier reconcile set to False, while the source
  was missing or waiting, is not repaired when the source is back with the same result.
\<close>

theorem square_condition_not_repaired:
  assumes "kube_api cl store idx" and "store w k = Some square"
    and "ParseGroupVersion lib (sr_apiVersion (sq_sourceRef (ko_spec square))) = Inr gv"
    and "Ensure mgr (WithKind gv (sr_kind (sq_sourceRef (ko_spec square)))) dw w = (None, dw1, w1)"
    and "store w1 = store w"
    and "FetchTaskResult lib get (fst k) (sr_apiVersion (sq_sourceRef (ko_spec square)))
           (sr_kind (sq_sourceRef (ko_spec square))) (sr_name (sq_sourceRef (ko_spec square))) w1 = Inr (Some srcVal)"
    and "sq_result (ko_status square) = Some (squareResult srcVal)"
    and "SquareReconcile u lib get mgr cl k dw w = (Ret Done None, dw2, w2)"
  shows "w2 = w1 \<and> store w2 k = Some square"
proof -
  have "fst k = ns_of square" using kube_api.store_key [OF assms(1,2)] by auto
  with SquareReconcile_transfer [OF assms(1-4,8)] assms(2,5-7) show ?thesis
    by (simp add: squareTransfer_def squarePublish_def)
qed

text \<open>
  An event of a source object enqueues exactly the Squares of its namespace whose reference has
  its apiVersion, kind and name.
\<close>

theorem square_events_exact:
  assumes "kube_api cl store idx" and "idx sourceRefIndexKey = squareIndex"
    and "kList cl (Some ns) sourceRefIndexKey
           (sourceRefIndexValue (gvString lib (gvk_group gvk, gvk_version gvk)) (gvk_kind gvk) n) w = Inr items"
    and "n \<noteq> []" and "CHR ''/'' \<notin> set n" and "CHR ''/'' \<notin> set (gvk_kind gvk)"
    and "\<And>k sq. store w k = Some sq \<Longrightarrow> CHR ''/'' \<notin> set (sr_kind (sq_sourceRef (ko_spec sq)))
           \<and> CHR ''/'' \<notin> set (sr_name (sq_sourceRef (ko_spec sq)))"
  shows "(ns', q) \<in> set (findSquaresForSource lib cl gvk ns n w) \<longleftrightarrow>
    ns' = ns \<and> (\<exists>sq. store w (ns, q) = Some sq \<and>
      sourceRefIs (sq_sourceRef (ko_spec sq)) (gvString lib (gvk_group gvk, gvk_version gvk)) (gvk_kind gvk) n)"
proof -
  let ?av = "gvString lib (gvk_group gvk, gvk_version gvk)"
  have idx: "sourceRefIndexValue ?av (gvk_kind gvk) n \<in> set (squareIndex sq) \<longleftrightarrow>
      sourceRefIs (sq_sourceRef (ko_spec sq)) ?av (gvk_kind gvk) n" if "store w k = Some sq" for k sq
    using assms(4-7) that by (auto simp: squareIndex_def sourceRefIs_def sourceRefIndexValue_inj)
  have "(ns', q) \<in> set (findSquaresForSource lib cl gvk ns n w) \<longleftrightarrow> (\<exists>sq \<in> set items. key_of sq = (ns', q))"
    by (auto simp: findSquaresForSource_def assms(3))
  also have "\<dots> \<longleftrightarrow> ns' = ns \<and> (\<exists>sq. store w (ns, q) = Some sq \<and>
      sourceRefIndexValue ?av (gvk_kind gvk) n \<in> set (squareIndex sq))"
    using kube_api.list_current [OF assms(1,3)] kube_api.store_key [OF assms(1)] assms(2) by fastforce
  finally show ?thesis using idx by blast
qed

end
