(* ===== verification/Add_Ctl.thy ===== *)
theory Add_Ctl
  imports Guarded
begin

text \<open>
  \<open>src/internal/controller/add_controller.go\<close>: the reconciler of Add, its result on \<open>int32\<close> and its
  deletion protection. It is an instance of \<open>calc_kind\<close>.
\<close>

section \<open>The reconciler\<close>

definition addCondition :: "Add \<Rightarrow> int32 \<Rightarrow> Condition" where
  "addCondition add result =
     \<lparr>co_type = ''Ready'', co_status = ''True'', co_reason = ''Computed'',
      co_message = dec_int (sint (ad_x (ko_spec add))) @ '' + '' @ dec_int (sint (ad_y (ko_spec add)))
        @ '' = '' @ dec_int (sint result),
      co_generation = om_generation (ko_meta add)\<rparr>"

definition addPublished :: "kutil \<Rightarrow> Add \<Rightarrow> int32 \<Rightarrow> AddStatus" where
  "addPublished u add result = (ko_status add)\<lparr>ad_result := Some result,
     ad_conditions := SetStatusCondition u (ad_conditions (ko_status add)) (addCondition add result)\<rparr>"

text \<open>The normal computation, after the deletion and finalizer blocks.\<close>

definition addCompute :: "kutil \<Rightarrow> ('w, Add) kclient \<Rightarrow> Add \<Rightarrow> 'w \<Rightarrow> outcome \<times> 'w" where
  "addCompute u cAdd add w =
     (let result = ad_x (ko_spec add) + ad_y (ko_spec add) in
      if ad_result (ko_status add) = None \<or> the (ad_result (ko_status add)) \<noteq> result
      then (case kStatusUpdate cAdd (add\<lparr>ko_status := addPublished u add result\<rparr>) w of
              (Inl e, w1) \<Rightarrow> (Ret Done (Some e), w1)
            | (Inr add1, w1) \<Rightarrow> (Ret Done None, w1))
      else (Ret Done None, w))"

definition AddReconcile :: "kutil \<Rightarrow> ('w, Add) kclient \<Rightarrow> ('w, Square) kclient \<Rightarrow> key \<Rightarrow> 'w \<Rightarrow> outcome \<times> 'w" where
  "AddReconcile u cAdd cSquare req w =
     (case kGet cAdd req w of
        Inl e \<Rightarrow> (Ret Done (IgnoreNotFound e), w)
      | Inr add \<Rightarrow>
          if deleting add then
            handleDeletion u cAdd inUseFinalizer
              (referencedBySquare cSquare (ns_of add) SchemeGroupVersion ''Add'' (name_of add)) add w
          else
            (case ensureFinalizer u cAdd inUseFinalizer add w of
               (Inl e, w1) \<Rightarrow> (Ret Done (Some e), w1)
             | (Inr add1, w1) \<Rightarrow> addCompute u cAdd add1 w1))"

section \<open>It is a protected kind with a computed result\<close>

abbreviation addInUse :: "('w, Square) kclient \<Rightarrow> Add \<Rightarrow> 'w \<Rightarrow> goerr + bool" where
  "addInUse cSquare add \<equiv> referencedBySquare cSquare (ns_of add) SchemeGroupVersion ''Add'' (name_of add)"

abbreviation addValue :: "AddSpec \<Rightarrow> int32" where
  "addValue sp \<equiv> ad_x sp + ad_y sp"

abbreviation addStatus :: "kutil \<Rightarrow> Add \<Rightarrow> AddStatus" where
  "addStatus u add \<equiv> addPublished u add (addValue (ko_spec add))"

lemma addCompute_publish: "addCompute u c = publishResult c addValue ad_result (addStatus u)"
  by (auto simp: fun_eq_iff addCompute_def publishResult_def Let_def split: option.splits)

lemma AddReconcile_guarded:
  "AddReconcile u cAdd cSquare =
     guarded u cAdd inUseFinalizer (addInUse cSquare) (publishResult cAdd addValue ad_result (addStatus u))"
  unfolding AddReconcile_def guarded_def addCompute_publish by (rule ext)+ (rule refl)

lemma add_calc_kind:
  "kube_util u \<Longrightarrow> kube_api cAdd store idx \<Longrightarrow>
   calc_kind u cAdd store idx addValue ad_result (addStatus u)"
  by (simp add: calc_kind_def calc_kind_axioms_def protected_kind_def addPublished_def)

section \<open>Guarantees\<close>

text \<open>
  C14. After a reconcile of a live Add that reports success the stored object has its spec
  unchanged, carries the finalizer and holds the sum of its operands, modulo \<open>2 ^ 32\<close>; reconciling
  again from there writes nothing.
\<close>

theorem add_reconciled:
  assumes "kube_util u" and "kube_api cAdd store idx" and "store w k = Some add" and "\<not> deleting add"
    and "AddReconcile u cAdd cSquare k w = (Ret Done None, w')"
  shows "\<exists>y. store w' k = Some y \<and> ko_spec y = ko_spec add \<and> inUseFinalizer \<in> set (finalizers_of y)
    \<and> ad_result (ko_status y) = Some (ad_x (ko_spec add) + ad_y (ko_spec add))
    \<and> snd (AddReconcile u cAdd cSquare k w') = w'"
  using calc_kind.reconciled_stable [OF add_calc_kind [OF assms(1,2)] assms(3,4)] assms(5)
  unfolding AddReconcile_guarded by blast

text \<open>
  While some Square of the namespace refers to an Add that is being deleted, reconciling it
  changes nothing: the finalizer stays, and so does the object.
\<close>

theorem add_deletion_blocked:
  assumes "kube_util u" and "kube_api cAdd store idx"
    and "kube_api cSquare storeS idxS" and "idxS sourceRefIndexKey = squareIndex"
    and "store w (ns, n) = Some add" and "n \<noteq> []" and "deleting add" and "inUseFinalizer \<in> set (finalizers_of add)"
    and "storeS w (ns, q) = Some sq" and "sourceRefIs (sq_sourceRef (ko_spec sq)) SchemeGroupVersion ''Add'' n"
  shows "snd (AddReconcile u cAdd cSquare (ns, n) w) = w"
proof -
  have k: "key_of add = (ns, n)" using kube_api.store_key [OF assms(2,5)] .
  have "addInUse cSquare add w \<noteq> Inr False"
    using used_by_square [OF assms(3,4,9) square_refers [OF assms(10,6)]] k by simp
  with protected_kind.deletion_blocked [OF protected_kind.intro [OF assms(1,2)] assms(5,7,8),
      where inUse = "addInUse cSquare"]
  show ?thesis unfolding AddReconcile_guarded by blast
qed

text \<open>
  When no Square of the namespace refers to it, a successful reconcile of an Add that is being
  deleted takes the finalizer off (the object is gone with its last one).
\<close>

theorem add_deletion_released:
  assumes "kube_util u" and "kube_api cAdd store idx"
    and "kube_api cSquare storeS idxS" and "idxS sourceRefIndexKey = squareIndex"
    and "store w (ns, n) = Some add" and "deleting add"
    and "\<And>q sq. storeS w (ns, q) = Some sq \<Longrightarrow> sourceRefIndexValue SchemeGroupVersion ''Add'' n \<notin> set (squareIndex sq)"
    and "AddReconcile u cAdd cSquare (ns, n) w = (Ret Done None, w')"
  shows "case store w' (ns, n) of None \<Rightarrow> True | Some y \<Rightarrow> inUseFinalizer \<notin> set (finalizers_of y)"
proof -
  have k: "key_of add = (ns, n)" using kube_api.store_key [OF assms(2,5)] .
  have "addInUse cSquare add w \<noteq> Inr True"
    using unused_by_square [OF assms(3,4,7)] k by simp
  with protected_kind.deletion_released [OF protected_kind.intro [OF assms(1,2)] assms(5,6),
      where inUse = "addInUse cSquare"] assms(8)
  show ?thesis unfolding AddReconcile_guarded by blast
qed

end
