(* ===== verification/Subtract_Ctl.thy ===== *)
theory Subtract_Ctl
  imports Guarded
begin

text \<open>
  \<open>src/internal/controller/subtract_controller.go\<close>: the reconciler of Subtract, its result on \<open>int32\<close> and its
  deletion protection. It is an instance of \<open>calc_kind\<close>.
\<close>

section \<open>The reconciler\<close>

definition subtractCondition :: "Subtract \<Rightarrow> int32 \<Rightarrow> Condition" where
  "subtractCondition sub result =
     \<lparr>co_type = ''Ready'', co_status = ''True'', co_reason = ''Computed'',
      co_message = dec_int (sint (sb_x (ko_spec sub))) @ '' - '' @ dec_int (sint (sb_y (ko_spec sub)))
        @ '' = '' @ dec_int (sint result),
      co_generation = om_generation (ko_meta sub)\<rparr>"

definition subtractPublished :: "kutil \<Rightarrow> Subtract \<Rightarrow> int32 \<Rightarrow> SubtractStatus" where
  "subtractPublished u sub result = (ko_status sub)\<lparr>sb_result := Some result,
     sb_conditions := SetStatusCondition u (sb_conditions (ko_status sub)) (subtractCondition sub result)\<rparr>"

text \<open>The normal computation, after the deletion and finalizer blocks.\<close>

definition subtractCompute :: "kutil \<Rightarrow> ('w, Subtract) kclient \<Rightarrow> Subtract \<Rightarrow> 'w \<Rightarrow> outcome \<times> 'w" where
  "subtractCompute u cSubtract sub w =
     (let result = sb_x (ko_spec sub) - sb_y (ko_spec sub) in
      if sb_result (ko_status sub) = None \<or> the (sb_result (ko_status sub)) \<noteq> result
      then (case kStatusUpdate cSubtract (sub\<lparr>ko_status := subtractPublished u sub result\<rparr>) w of
              (Inl e, w1) \<Rightarrow> (Ret Done (Some e), w1)
            | (Inr sub1, w1) \<Rightarrow> (Ret Done None, w1))
      else (Ret Done None, w))"

definition SubtractReconcile :: "kutil \<Rightarrow> ('w, Subtract) kclient \<Rightarrow> ('w, Square) kclient \<Rightarrow> key \<Rightarrow> 'w \<Rightarrow> outcome \<times> 'w" where
  "SubtractReconcile u cSubtract cSquare req w =
     (case kGet cSubtract req w of
        Inl e \<Rightarrow> (Ret Done (IgnoreNotFound e), w)
      | Inr sub \<Rightarrow>
          if deleting sub then
            handleDeletion u cSubtract inUseFinalizer
              (referencedBySquare cSquare (ns_of sub) SchemeGroupVersion ''Subtract'' (name_of sub)) sub w
          else
            (case ensureFinalizer u cSubtract inUseFinalizer sub w of
               (Inl e, w1) \<Rightarrow> (Ret Done (Some e), w1)
             | (Inr sub1, w1) \<Rightarrow> subtractCompute u cSubtract sub1 w1))"

section \<open>It is a protected kind with a computed result\<close>

abbreviation subtractInUse :: "('w, Square) kclient \<Rightarrow> Subtract \<Rightarrow> 'w \<Rightarrow> goerr + bool" where
  "subtractInUse cSquare sub \<equiv> referencedBySquare cSquare (ns_of sub) SchemeGroupVersion ''Subtract'' (name_of sub)"

abbreviation subtractValue :: "SubtractSpec \<Rightarrow> int32" where
  "subtractValue sp \<equiv> sb_x sp - sb_y sp"

abbreviation subtractStatus :: "kutil \<Rightarrow> Subtract \<Rightarrow> SubtractStatus" where
  "subtractStatus u sub \<equiv> subtractPublished u sub (subtractValue (ko_spec sub))"

lemma subtractCompute_publish: "subtractCompute u c = publishResult c subtractValue sb_result (subtractStatus u)"
  by (auto simp: fun_eq_iff subtractCompute_def publishResult_def Let_def split: option.splits)

lemma SubtractReconcile_guarded:
  "SubtractReconcile u cSubtract cSquare =
     guarded u cSubtract inUseFinalizer (subtractInUse cSquare) (publishResult cSubtract subtractValue sb_result (subtractStatus u))"
  unfolding SubtractReconcile_def guarded_def subtractCompute_publish by (rule ext)+ (rule refl)

lemma subtract_calc_kind:
  "kube_util u \<Longrightarrow> kube_api cSubtract store idx \<Longrightarrow>
   calc_kind u cSubtract store idx subtractValue sb_result (subtractStatus u)"
  by (simp add: calc_kind_def calc_kind_axioms_def protected_kind_def subtractPublished_def)

section \<open>Guarantees\<close>

text \<open>
  After a reconcile of a live Subtract that reports success the stored object has its spec
  unchanged, carries the finalizer and holds the difference of its operands, modulo \<open>2 ^ 32\<close>; reconciling
  again from there writes nothing.
\<close>

theorem subtract_reconciled:
  assumes "kube_util u" and "kube_api cSubtract store idx" and "store w k = Some sub" and "\<not> deleting sub"
    and "SubtractReconcile u cSubtract cSquare k w = (Ret Done None, w')"
  shows "\<exists>y. store w' k = Some y \<and> ko_spec y = ko_spec sub \<and> inUseFinalizer \<in> set (finalizers_of y)
    \<and> sb_result (ko_status y) = Some (sb_x (ko_spec sub) - sb_y (ko_spec sub))
    \<and> snd (SubtractReconcile u cSubtract cSquare k w') = w'"
  using calc_kind.reconciled_stable [OF subtract_calc_kind [OF assms(1,2)] assms(3,4)] assms(5)
  unfolding SubtractReconcile_guarded by blast

text \<open>
  While some Square of the namespace refers to a Subtract that is being deleted, reconciling it
  changes nothing: the finalizer stays, and so does the object.
\<close>

theorem subtract_deletion_blocked:
  assumes "kube_util u" and "kube_api cSubtract store idx"
    and "kube_api cSquare storeS idxS" and "idxS sourceRefIndexKey = squareIndex"
    and "store w (ns, n) = Some sub" and "n \<noteq> []" and "deleting sub" and "inUseFinalizer \<in> set (finalizers_of sub)"
    and "storeS w (ns, q) = Some sq" and "sourceRefIs (sq_sourceRef (ko_spec sq)) SchemeGroupVersion ''Subtract'' n"
  shows "snd (SubtractReconcile u cSubtract cSquare (ns, n) w) = w"
proof -
  have k: "key_of sub = (ns, n)" using kube_api.store_key [OF assms(2,5)] .
  have "subtractInUse cSquare sub w \<noteq> Inr False"
    using used_by_square [OF assms(3,4,9) square_refers [OF assms(10,6)]] k by simp
  with protected_kind.deletion_blocked [OF protected_kind.intro [OF assms(1,2)] assms(5,7,8),
      where inUse = "subtractInUse cSquare"]
  show ?thesis unfolding SubtractReconcile_guarded by blast
qed

text \<open>
  When no Square of the namespace refers to it, a successful reconcile of a Subtract that is being
  deleted takes the finalizer off (the object is gone with its last one).
\<close>

theorem subtract_deletion_released:
  assumes "kube_util u" and "kube_api cSubtract store idx"
    and "kube_api cSquare storeS idxS" and "idxS sourceRefIndexKey = squareIndex"
    and "store w (ns, n) = Some sub" and "deleting sub"
    and "\<And>q sq. storeS w (ns, q) = Some sq \<Longrightarrow> sourceRefIndexValue SchemeGroupVersion ''Subtract'' n \<notin> set (squareIndex sq)"
    and "SubtractReconcile u cSubtract cSquare (ns, n) w = (Ret Done None, w')"
  shows "case store w' (ns, n) of None \<Rightarrow> True | Some y \<Rightarrow> inUseFinalizer \<notin> set (finalizers_of y)"
proof -
  have k: "key_of sub = (ns, n)" using kube_api.store_key [OF assms(2,5)] .
  have "subtractInUse cSquare sub w \<noteq> Inr True"
    using unused_by_square [OF assms(3,4,7)] k by simp
  with protected_kind.deletion_released [OF protected_kind.intro [OF assms(1,2)] assms(5,6),
      where inUse = "subtractInUse cSquare"] assms(8)
  show ?thesis unfolding SubtractReconcile_guarded by blast
qed

end
