(* ===== verification/Manager.thy ===== *)
theory Manager
  imports Status_Server Square_Ctl Add_Ctl Subtract_Ctl
begin

text \<open>
  The manager process: the options \<open>src/cmd/main.go\<close> makes from its flags, the \<open>SetupWithManager\<close> of every
  controller, and the order in which \<open>main\<close> wires them up. What a registration leaves in the manager of
  controller-runtime is its state here; whether a call of the library fails is a parameter.
\<close>

section \<open>Options\<close>

record Flags =
  fl_metricsAddr :: string
  fl_probeAddr :: string
  fl_enableLeaderElection :: bool
  fl_secureMetrics :: bool
  fl_webhookCertPath :: string
  fl_webhookCertName :: string
  fl_webhookCertKey :: string
  fl_metricsCertPath :: string
  fl_metricsCertName :: string
  fl_metricsCertKey :: string
  fl_enableHTTP2 :: bool

definition defaultFlags :: Flags where
  "defaultFlags = \<lparr>fl_metricsAddr = ''0'', fl_probeAddr = '':8081'', fl_enableLeaderElection = False,
     fl_secureMetrics = True, fl_webhookCertPath = [], fl_webhookCertName = ''tls.crt'', fl_webhookCertKey = ''tls.key'',
     fl_metricsCertPath = [], fl_metricsCertName = ''tls.crt'', fl_metricsCertKey = ''tls.key'', fl_enableHTTP2 = False\<rparr>"

text \<open>The part of \<open>tls.Config\<close> that is set, and the options, which change it in order.\<close>

record tlsConfig =
  NextProtos :: "string list"

definition disableHTTP2 :: "tlsConfig \<Rightarrow> tlsConfig" where
  "disableHTTP2 c = c\<lparr>NextProtos := [''http/1.1'']\<rparr>"

definition tlsOpts :: "Flags \<Rightarrow> (tlsConfig \<Rightarrow> tlsConfig) list" where
  "tlsOpts fl = (if \<not> fl_enableHTTP2 fl then [disableHTTP2] else [])"

record webhookOptions =
  wo_TLSOpts :: "(tlsConfig \<Rightarrow> tlsConfig) list"
  wo_CertDir :: string
  wo_CertName :: string
  wo_KeyName :: string

definition webhookServerOptions :: "Flags \<Rightarrow> webhookOptions" where
  "webhookServerOptions fl =
     (if length (fl_webhookCertPath fl) > 0
      then \<lparr>wo_TLSOpts = tlsOpts fl, wo_CertDir = fl_webhookCertPath fl, wo_CertName = fl_webhookCertName fl,
            wo_KeyName = fl_webhookCertKey fl\<rparr>
      else \<lparr>wo_TLSOpts = tlsOpts fl, wo_CertDir = [], wo_CertName = [], wo_KeyName = []\<rparr>)"

datatype filterProvider = WithAuthenticationAndAuthorization

record metricsOptions =
  mo_BindAddress :: string
  mo_SecureServing :: bool
  mo_TLSOpts :: "(tlsConfig \<Rightarrow> tlsConfig) list"
  mo_FilterProvider :: "filterProvider option"
  mo_CertDir :: string
  mo_CertName :: string
  mo_KeyName :: string

definition metricsServerOptions :: "Flags \<Rightarrow> metricsOptions" where
  "metricsServerOptions fl =
     (let opts = \<lparr>mo_BindAddress = fl_metricsAddr fl, mo_SecureServing = fl_secureMetrics fl, mo_TLSOpts = tlsOpts fl,
                  mo_FilterProvider = None, mo_CertDir = [], mo_CertName = [], mo_KeyName = []\<rparr>;
          opts1 = (if fl_secureMetrics fl then opts\<lparr>mo_FilterProvider := Some WithAuthenticationAndAuthorization\<rparr> else opts)
      in if length (fl_metricsCertPath fl) > 0
         then opts1\<lparr>mo_CertDir := fl_metricsCertPath fl, mo_CertName := fl_metricsCertName fl, mo_KeyName := fl_metricsCertKey fl\<rparr>
         else opts1)"

record managerOptions =
  mg_Metrics :: metricsOptions
  mg_Webhook :: webhookOptions
  mg_HealthProbeBindAddress :: string
  mg_LeaderElection :: bool
  mg_LeaderElectionID :: string

definition managerOptionsOf :: "Flags \<Rightarrow> managerOptions" where
  "managerOptionsOf fl = \<lparr>mg_Metrics = metricsServerOptions fl, mg_Webhook = webhookServerOptions fl,
     mg_HealthProbeBindAddress = fl_probeAddr fl, mg_LeaderElection = fl_enableLeaderElection fl,
     mg_LeaderElectionID = ''1f30eed5.example.com''\<rparr>"

section \<open>The manager\<close>

datatype apiKind = KAdd | KSubtract | KSquare | KHTTPTask | KWorkflow

text \<open>A reconciler with the fields its setup fills in: a client timeout in seconds, a base URL.\<close>

datatype reconciler =
    AddReconciler
  | SubtractReconciler
  | SquareReconciler
  | HTTPTaskReconciler nat
  | WorkflowReconciler string

record controllerReg =
  cr_name :: string
  cr_for :: apiKind
  cr_owns :: "apiKind list"
  cr_watches :: "apiKind list"
  cr_reconciler :: reconciler

record mgrState =
  ms_squareIndex :: "string \<rightharpoonup> (Square \<Rightarrow> string list)"
  ms_taskIndex :: "string \<rightharpoonup> (HTTPTask \<Rightarrow> string list)"
  ms_flowIndex :: "string \<rightharpoonup> (Workflow \<Rightarrow> string list)"
  ms_controllers :: "controllerReg list"
  ms_squareWatcher :: "DynamicWatcher option"
  ms_servers :: "string list"
  ms_healthz :: "string list"
  ms_readyz :: "string list"

definition newMgr :: mgrState where
  "newMgr = \<lparr>ms_squareIndex = Map.empty, ms_taskIndex = Map.empty, ms_flowIndex = Map.empty, ms_controllers = [],
     ms_squareWatcher = None, ms_servers = [], ms_healthz = [], ms_readyz = []\<rparr>"

datatype mgrCall =
    NewManager managerOptions
  | IndexField apiKind string
  | Build controllerReg
  | AddRunnable string
  | AddHealthzCheck string
  | AddReadyzCheck string
  | StartManager

type_synonym mgrFail = "mgrCall \<Rightarrow> mgrState \<Rightarrow> goerr option"

text \<open>A call that changes the manager unless it fails.\<close>

definition call :: "mgrFail \<Rightarrow> mgrCall \<Rightarrow> (mgrState \<Rightarrow> mgrState) \<Rightarrow> mgrState \<Rightarrow> goerr option \<times> mgrState" where
  "call mf c f st = (case mf c st of Some e \<Rightarrow> (Some e, st) | None \<Rightarrow> (None, f st))"

text \<open>\<open>if err := a; err != nil { return err }; b\<close>\<close>

definition andThen :: "(mgrState \<Rightarrow> goerr option \<times> mgrState) \<Rightarrow> (mgrState \<Rightarrow> goerr option \<times> mgrState)
    \<Rightarrow> mgrState \<Rightarrow> goerr option \<times> mgrState" where
  "andThen a b st = (case a st of (Some e, st1) \<Rightarrow> (Some e, st1) | (None, st1) \<Rightarrow> b st1)"

definition build :: "mgrFail \<Rightarrow> controllerReg \<Rightarrow> mgrState \<Rightarrow> goerr option \<times> mgrState" where
  "build mf reg = call mf (Build reg) (\<lambda>st. st\<lparr>ms_controllers := ms_controllers st @ [reg]\<rparr>)"

section \<open>\<open>SetupWithManager\<close>\<close>

definition AddSetup :: "mgrFail \<Rightarrow> mgrState \<Rightarrow> goerr option \<times> mgrState" where
  "AddSetup mf = build mf \<lparr>cr_name = ''add'', cr_for = KAdd, cr_owns = [], cr_watches = [], cr_reconciler = AddReconciler\<rparr>"

definition SubtractSetup :: "mgrFail \<Rightarrow> mgrState \<Rightarrow> goerr option \<times> mgrState" where
  "SubtractSetup mf = build mf
     \<lparr>cr_name = ''subtract'', cr_for = KSubtract, cr_owns = [], cr_watches = [], cr_reconciler = SubtractReconciler\<rparr>"

definition SquareSetup :: "mgrFail \<Rightarrow> mgrState \<Rightarrow> goerr option \<times> mgrState" where
  "SquareSetup mf =
     andThen (call mf (IndexField KSquare sourceRefIndexKey)
                (\<lambda>st. st\<lparr>ms_squareIndex := (ms_squareIndex st)(sourceRefIndexKey \<mapsto> squareIndex)\<rparr>))
    (andThen (build mf \<lparr>cr_name = ''square'', cr_for = KSquare, cr_owns = [], cr_watches = [], cr_reconciler = SquareReconciler\<rparr>)
             (\<lambda>st. (None, st\<lparr>ms_squareWatcher := Some NewDynamicWatcher\<rparr>)))"

text \<open>\<open>client\<close>: the timeout of an injected \<open>HTTPClient\<close>, \<open>None\<close> when there is none.\<close>

definition HTTPTaskSetup :: "mgrFail \<Rightarrow> nat option \<Rightarrow> mgrState \<Rightarrow> goerr option \<times> mgrState" where
  "HTTPTaskSetup mf client =
     andThen (call mf (IndexField KHTTPTask taskSourceRefIndexKey)
                (\<lambda>st. st\<lparr>ms_taskIndex := (ms_taskIndex st)(taskSourceRefIndexKey \<mapsto> taskIndex)\<rparr>))
             (build mf \<lparr>cr_name = ''httptask'', cr_for = KHTTPTask, cr_owns = [], cr_watches = [KHTTPTask],
                cr_reconciler = HTTPTaskReconciler (case client of None \<Rightarrow> 10 | Some t \<Rightarrow> t)\<rparr>)"

definition WorkflowSetup :: "mgrFail \<Rightarrow> string \<Rightarrow> mgrState \<Rightarrow> goerr option \<times> mgrState" where
  "WorkflowSetup mf dashboardBaseURL =
     andThen (call mf (IndexField KWorkflow TransactionIndexKey)
                (\<lambda>st. st\<lparr>ms_flowIndex := (ms_flowIndex st)(TransactionIndexKey \<mapsto> workflowIndex)\<rparr>))
             (build mf \<lparr>cr_name = ''workflow'', cr_for = KWorkflow, cr_owns = [KHTTPTask], cr_watches = [],
                cr_reconciler = WorkflowReconciler dashboardBaseURL\<rparr>)"

section \<open>\<open>main\<close>\<close>

datatype mainResult = Exited string mgrState | Ran mgrState

text \<open>\<open>if err := step; err != nil { setupLog.Error(err, msg); os.Exit(1) }\<close>\<close>

definition orExit :: "string \<Rightarrow> (mgrState \<Rightarrow> goerr option \<times> mgrState) \<Rightarrow> (mgrState \<Rightarrow> mainResult) \<Rightarrow> mgrState \<Rightarrow> mainResult" where
  "orExit msg step k st = (case step st of (Some e, st1) \<Rightarrow> Exited msg st1 | (None, st1) \<Rightarrow> k st1)"

definition runMain :: "mgrFail \<Rightarrow> Flags \<Rightarrow> mainResult" where
  "runMain mf fl =
     orExit ''Failed to start manager'' (call mf (NewManager (managerOptionsOf fl)) (\<lambda>st. st))
    (orExit ''Failed to create controller'' (AddSetup mf)
    (orExit ''Failed to create controller'' (SquareSetup mf)
    (orExit ''Failed to create controller'' (SubtractSetup mf)
    (orExit ''unable to create controller'' (WorkflowSetup mf ''http://localhost:8090'')
    (orExit ''unable to add status server'' (call mf (AddRunnable '':8090'') (\<lambda>st. st\<lparr>ms_servers := ms_servers st @ ['':8090'']\<rparr>))
    (orExit ''Failed to create controller'' (HTTPTaskSetup mf None)
    (orExit ''Failed to set up health check'' (call mf (AddHealthzCheck ''healthz'') (\<lambda>st. st\<lparr>ms_healthz := ms_healthz st @ [''healthz'']\<rparr>))
    (orExit ''Failed to set up ready check'' (call mf (AddReadyzCheck ''readyz'') (\<lambda>st. st\<lparr>ms_readyz := ms_readyz st @ [''readyz'']\<rparr>))
    (orExit ''Failed to run manager'' (call mf StartManager (\<lambda>st. st)) Ran))))))))) newMgr"

section \<open>Guarantees\<close>

named_theorems setup_defs \<open>the steps of the setup\<close>

lemmas [setup_defs] = AddSetup_def SubtractSetup_def SquareSetup_def HTTPTaskSetup_def WorkflowSetup_def
  build_def andThen_def call_def

lemma orExit_Ran: "orExit msg step k st = Ran r \<longleftrightarrow> (\<exists>st1. step st = (None, st1) \<and> k st1 = Ran r)"
  by (auto simp: orExit_def split: prod.splits option.splits)

lemma call_ok: "call mf c f st = (None, st1) \<longleftrightarrow> mf c st = None \<and> st1 = f st"
  by (auto simp: call_def split: option.splits)

lemma andThen_ok: "andThen a b st = (None, st2) \<longleftrightarrow> (\<exists>st1. a st = (None, st1) \<and> b st1 = (None, st2))"
  by (auto simp: andThen_def split: prod.splits option.splits)

text \<open>
  C25. When the manager runs, the indexes that the reference checks, the event mappings and the dashboard list
  by are registered with the functions they rely on, the five controllers are in place, a Workflow
  is woken by its children and a task by its sources, and the dashboard URL that Workflows publish is the
  port the status server listens on.
\<close>

theorem manager_wired:
  assumes "runMain mf fl = Ran st"
  shows "ms_squareIndex st = [sourceRefIndexKey \<mapsto> squareIndex] \<and> ms_taskIndex st = [taskSourceRefIndexKey \<mapsto> taskIndex]
    \<and> ms_flowIndex st = [TransactionIndexKey \<mapsto> workflowIndex] \<and> ms_squareWatcher st = Some NewDynamicWatcher
    \<and> map cr_name (ms_controllers st) = [''add'', ''square'', ''subtract'', ''workflow'', ''httptask'']
    \<and> (\<exists>r \<in> set (ms_controllers st). cr_for r = KWorkflow \<and> cr_owns r = [KHTTPTask]
          \<and> cr_reconciler r = WorkflowReconciler (''http://localhost'' @ hd (ms_servers st)))
    \<and> (\<exists>r \<in> set (ms_controllers st). cr_for r = KHTTPTask \<and> cr_watches r = [KHTTPTask])"
  using assms unfolding runMain_def orExit_Ran AddSetup_def SubtractSetup_def SquareSetup_def HTTPTaskSetup_def
    WorkflowSetup_def build_def andThen_ok call_ok
  by (auto simp: newMgr_def)

text \<open>
  HTTP/2 is off on the webhook and on the metrics server unless the flag asks for it, and the
  metrics endpoint has the authentication filter exactly when it is served securely, as it is by
  default.
\<close>

theorem server_options:
  "NextProtos (fold (\<lambda>f. f) (wo_TLSOpts (mg_Webhook (managerOptionsOf fl))) c) =
     (if fl_enableHTTP2 fl then NextProtos c else [''http/1.1''])
   \<and> NextProtos (fold (\<lambda>f. f) (mo_TLSOpts (mg_Metrics (managerOptionsOf fl))) c) =
     (if fl_enableHTTP2 fl then NextProtos c else [''http/1.1''])
   \<and> (mo_FilterProvider (mg_Metrics (managerOptionsOf fl)) = Some WithAuthenticationAndAuthorization \<longleftrightarrow>
        mo_SecureServing (mg_Metrics (managerOptionsOf fl)))
   \<and> mo_SecureServing (mg_Metrics (managerOptionsOf defaultFlags))"
  by (simp add: managerOptionsOf_def webhookServerOptions_def metricsServerOptions_def tlsOpts_def
      disableHTTP2_def defaultFlags_def Let_def)

theorem manager_wired_witness:
  "\<exists>st. runMain (\<lambda>_ _. None) defaultFlags = Ran st \<and> ms_squareIndex st = [sourceRefIndexKey \<mapsto> squareIndex]"
proof -
  obtain st where "runMain (\<lambda>_ _. None) defaultFlags = Ran st"
    by (simp add: runMain_def orExit_def setup_defs)
  with manager_wired [OF this] show ?thesis by blast
qed

end
