(* ===== verification/Scheme.thy ===== *)
theory Scheme
  imports Manager
begin

text \<open>
  How the kinds reach the client of the manager: the \<open>SchemeBuilder\<close> of \<open>src/api/v1alpha1/groupversion_info.go\<close>, the
  \<open>init\<close> of every file of types, which registers with it, and the \<open>init\<close> of \<open>src/cmd/main.go\<close>, which fills the
  scheme. The scheme and the builder are those of apimachinery: parameters, with what their documentation promises as
  the locale \<open>scheme_lib\<close>.
\<close>

section \<open>The library\<close>

type_synonym 's schemeFn = "'s \<Rightarrow> goerr option \<times> 's"

record ('s, 'b) schemeLib =
  AddKnownTypes :: "string \<Rightarrow> string list \<Rightarrow> 's \<Rightarrow> 's"
  AddToGroupVersion :: "string \<Rightarrow> 's \<Rightarrow> 's"
  NewSchemeBuilder :: "'s schemeFn list \<Rightarrow> 'b"
  Register :: "'b \<Rightarrow> 's schemeFn list \<Rightarrow> 'b"
  BuilderAddToScheme :: "'b \<Rightarrow> 's schemeFn"
  ClientgoAddToScheme :: "'s schemeFn"

section \<open>Package \<open>v1alpha1\<close>\<close>

definition SchemeBuilder :: "('s, 'b) schemeLib \<Rightarrow> 'b" where
  "SchemeBuilder lib = NewSchemeBuilder lib [\<lambda>scheme. (None, AddToGroupVersion lib SchemeGroupVersion scheme)]"

text \<open>What every \<open>init\<close> does with its two types, whose names are the kinds.\<close>

definition registerTypes :: "('s, 'b) schemeLib \<Rightarrow> string list \<Rightarrow> 'b \<Rightarrow> 'b" where
  "registerTypes lib types b = Register lib b [\<lambda>scheme. (None, AddKnownTypes lib SchemeGroupVersion types scheme)]"

definition add_init :: "('s, 'b) schemeLib \<Rightarrow> 'b \<Rightarrow> 'b" where
  "add_init lib = registerTypes lib [''Add'', ''AddList'']"

definition httptask_init :: "('s, 'b) schemeLib \<Rightarrow> 'b \<Rightarrow> 'b" where
  "httptask_init lib = registerTypes lib [''HTTPTask'', ''HTTPTaskList'']"

definition square_init :: "('s, 'b) schemeLib \<Rightarrow> 'b \<Rightarrow> 'b" where
  "square_init lib = registerTypes lib [''Square'', ''SquareList'']"

definition subtract_init :: "('s, 'b) schemeLib \<Rightarrow> 'b \<Rightarrow> 'b" where
  "subtract_init lib = registerTypes lib [''Subtract'', ''SubtractList'']"

definition workflow_init :: "('s, 'b) schemeLib \<Rightarrow> 'b \<Rightarrow> 'b" where
  "workflow_init lib = registerTypes lib [''Workflow'', ''WorkflowList'']"

text \<open>
  The variables of a package are initialised first, then its \<open>init\<close> functions run in the order of the files.
  \<open>AddToScheme\<close> is bound to the address of the variable, so a call sees what was registered since.
\<close>

definition packageInit :: "('s, 'b) schemeLib \<Rightarrow> 'b" where
  "packageInit lib = workflow_init lib (subtract_init lib (square_init lib (httptask_init lib (add_init lib (SchemeBuilder lib)))))"

definition AddToScheme :: "('s, 'b) schemeLib \<Rightarrow> 's schemeFn" where
  "AddToScheme lib = BuilderAddToScheme lib (packageInit lib)"

section \<open>Package \<open>main\<close>\<close>

text \<open>\<open>utilruntime.Must\<close> panics with the error: \<open>Inl\<close>.\<close>

definition must :: "'s schemeFn \<Rightarrow> 's \<Rightarrow> goerr + 's" where
  "must f s = (case f s of (Some e, s') \<Rightarrow> Inl e | (None, s') \<Rightarrow> Inr s')"

definition main_init :: "('s, 'b) schemeLib \<Rightarrow> 's \<Rightarrow> goerr + 's" where
  "main_init lib scheme = (case must (ClientgoAddToScheme lib) scheme of
     Inl e \<Rightarrow> Inl e
   | Inr scheme1 \<Rightarrow> must (AddToScheme lib) scheme1)"

section \<open>The contract\<close>

text \<open>A builder runs its functions in order, up to the first error.\<close>

fun runAll :: "'s schemeFn list \<Rightarrow> 's schemeFn" where
  "runAll [] s = (None, s)"
| "runAll (f # fs) s = (case f s of (Some e, s') \<Rightarrow> (Some e, s') | (None, s') \<Rightarrow> runAll fs s')"

lemma runAll_append:
  "runAll (fs @ gs) s = (case runAll fs s of (Some e, s') \<Rightarrow> (Some e, s') | (None, s') \<Rightarrow> runAll gs s')"
  by (induction fs arbitrary: s) (auto split: prod.splits option.splits)

text \<open>
  \<open>recognizes\<close> says which kinds of which group version the scheme knows; \<open>stored\<close> are the functions of a builder.
\<close>

locale scheme_lib =
  fixes lib :: "('s, 'b) schemeLib" and recognizes :: "'s \<Rightarrow> string \<Rightarrow> string \<Rightarrow> bool" and stored :: "'b \<Rightarrow> 's schemeFn list"
  assumes known_types: "recognizes (AddKnownTypes lib gv ts s) gv' k \<longleftrightarrow> gv' = gv \<and> k \<in> set ts \<or> recognizes s gv' k"
    and group_version: "recognizes s gv' k \<Longrightarrow> recognizes (AddToGroupVersion lib gv s) gv' k"
    and new_builder: "stored (NewSchemeBuilder lib fs) = fs"
    and registered: "stored (Register lib b fs) = stored b @ fs"
    and applies: "BuilderAddToScheme lib b s = runAll (stored b) s"
begin

lemma package_functions:
  "stored (packageInit lib) = (\<lambda>s. (None, AddToGroupVersion lib SchemeGroupVersion s))
     # map (\<lambda>ts s. (None, AddKnownTypes lib SchemeGroupVersion ts s))
         [[''Add'', ''AddList''], [''HTTPTask'', ''HTTPTaskList''], [''Square'', ''SquareList''],
          [''Subtract'', ''SubtractList''], [''Workflow'', ''WorkflowList'']]"
  by (simp add: packageInit_def SchemeBuilder_def add_init_def httptask_init_def square_init_def subtract_init_def
      workflow_init_def registerTypes_def new_builder registered)

lemma run_known:
  "\<exists>s'. runAll (map (\<lambda>ts s. (None, AddKnownTypes lib gv ts s)) tss) s = (None, s')
     \<and> (\<forall>gv' k. recognizes s' gv' k \<longleftrightarrow> gv' = gv \<and> (\<exists>ts \<in> set tss. k \<in> set ts) \<or> recognizes s gv' k)"
proof (induction tss arbitrary: s)
  case (Cons ts tss)
  from Cons.IH [of "AddKnownTypes lib gv ts s"] show ?case by (auto simp: known_types)
qed simp

lemma package_kinds:
  "\<exists>s'. AddToScheme lib s = (None, s') \<and> (\<forall>k gv. recognizes s gv k \<longrightarrow> recognizes s' gv k)
     \<and> (\<forall>k \<in> {''Add'', ''HTTPTask'', ''Square'', ''Subtract'', ''Workflow''}.
          recognizes s' SchemeGroupVersion k \<and> recognizes s' SchemeGroupVersion (k @ ''List''))"
  using run_known [of SchemeGroupVersion "[[''Add'', ''AddList''], [''HTTPTask'', ''HTTPTaskList''], [''Square'', ''SquareList''],
      [''Subtract'', ''SubtractList''], [''Workflow'', ''WorkflowList'']]" "AddToGroupVersion lib SchemeGroupVersion s"]
  unfolding AddToScheme_def applies package_functions using group_version by fastforce

end

section \<open>A scheme as the set of what it knows\<close>

definition setLib :: "((string \<times> string) set, (string \<times> string) set schemeFn list) schemeLib" where
  "setLib = \<lparr>AddKnownTypes = (\<lambda>gv ts s. s \<union> Pair gv ` set ts), AddToGroupVersion = (\<lambda>gv s. insert (gv, ''WatchEvent'') s),
     NewSchemeBuilder = (\<lambda>fs. fs), Register = (@), BuilderAddToScheme = runAll,
     ClientgoAddToScheme = (\<lambda>s. (None, insert (''v1'', ''Secret'') s))\<rparr>"

interpretation set_scheme: scheme_lib setLib "\<lambda>s gv k. (gv, k) \<in> s" "\<lambda>b. b"
  by unfold_locales (auto simp: setLib_def)

section \<open>Guarantee\<close>

fun kindName :: "apiKind \<Rightarrow> string" where
  "kindName KAdd = ''Add''"
| "kindName KSubtract = ''Subtract''"
| "kindName KSquare = ''Square''"
| "kindName KHTTPTask = ''HTTPTask''"
| "kindName KWorkflow = ''Workflow''"

text \<open>
  When client-go accepts the scheme, \<open>init\<close> does not panic, and the scheme then knows, beside what client-go
  added, every kind a controller can be for, own or watch, and its list: no client of the manager fails on a kind of
  the group.
\<close>

theorem kinds_known:
  assumes "scheme_lib lib recognizes stored" and "ClientgoAddToScheme lib s0 = (None, s1)"
  shows "\<exists>s. main_init lib s0 = Inr s \<and> recognizes s SchemeGroupVersion (kindName k)
    \<and> recognizes s SchemeGroupVersion (kindName k @ ''List'') \<and> (\<forall>gv n. recognizes s1 gv n \<longrightarrow> recognizes s gv n)"
proof -
  from scheme_lib.package_kinds [OF assms(1), of s1] obtain s where s: "AddToScheme lib s1 = (None, s)"
    "\<forall>n gv. recognizes s1 gv n \<longrightarrow> recognizes s gv n"
    "\<forall>n \<in> {''Add'', ''HTTPTask'', ''Square'', ''Subtract'', ''Workflow''}.
       recognizes s SchemeGroupVersion n \<and> recognizes s SchemeGroupVersion (n @ ''List'')" by blast
  have "kindName k \<in> {''Add'', ''HTTPTask'', ''Square'', ''Subtract'', ''Workflow''}" by (cases k) simp_all
  with s assms(2) show ?thesis by (auto simp: main_init_def must_def)
qed

end
