(* ===== verification/Kube_Ref.thy ===== *)
theory Kube_Ref
  imports Guarded
begin

text \<open>
  An API server held in memory: one table of objects per kind, resource versions with the
  conflict check, the status subresource, and removal of a deleted object with its last
  finalizer. It satisfies the laws of \<open>kube_util\<close> and \<open>kube_api\<close>, so the hypotheses of the
  controllers' properties can be met together, and it is what the concrete runs execute on.
\<close>

section \<open>Finalizers and conditions\<close>

fun putCondition :: "Condition list \<Rightarrow> Condition \<Rightarrow> Condition list" where
  "putCondition [] c = [c]"
| "putCondition (d # ds) c = (if co_type d = co_type c then c # ds else d # putCondition ds c)"

definition refUtil :: kutil where
  "refUtil = \<lparr>ContainsFinalizer = (\<lambda>fs f. List.member fs f),
     AddFinalizer = (\<lambda>fs f. if List.member fs f then fs else fs @ [f]),
     RemoveFinalizer = (\<lambda>fs f. filter (\<lambda>g. g \<noteq> f) fs),
     SetStatusCondition = putCondition\<rparr>"

lemma find_putCondition:
  "findCondition t (putCondition cs c) = (if t = co_type c then Some c else findCondition t cs)"
  by (induction cs) auto

interpretation ref_util: kube_util refUtil
  by unfold_locales (auto simp: refUtil_def find_putCondition)

section \<open>A table of objects\<close>

record ('sp, 'st) table =
  tb_objs :: "('sp, 'st) kobj list"
  tb_version :: nat

fun findObj :: "('sp, 'st) kobj list \<Rightarrow> key \<Rightarrow> ('sp, 'st) kobj option" where
  "findObj [] k = None"
| "findObj (x # xs) k = (if key_of x = k then Some x else findObj xs k)"

definition dropObj :: "key \<Rightarrow> ('sp, 'st) kobj list \<Rightarrow> ('sp, 'st) kobj list" where
  "dropObj k xs = filter (\<lambda>x. key_of x \<noteq> k) xs"

lemma findObj_key: "findObj xs k = Some x \<Longrightarrow> key_of x = k"
  by (induction xs) (auto split: if_splits)

lemma findObj_in: "findObj xs k = Some x \<Longrightarrow> x \<in> set xs"
  by (induction xs) (auto split: if_splits)

lemma findObj_drop: "findObj (dropObj k xs) l = (if l = k then None else findObj xs l)"
  unfolding dropObj_def by (induction xs) auto

definition notFound :: "key \<Rightarrow> goerr" where
  "notFound k = NotFound (quoted (snd k) @ '' not found'')"

definition conflict :: "key \<Rightarrow> goerr" where
  "conflict k = GoErr (quoted (snd k) @ '' has been modified'')"

definition tableGet :: "key \<Rightarrow> ('sp, 'st) table \<Rightarrow> goerr + ('sp, 'st) kobj" where
  "tableGet k t = (case findObj (tb_objs t) k of None \<Rightarrow> Inl (notFound k) | Some x \<Rightarrow> Inr x)"

definition tableList :: "(string \<Rightarrow> ('sp, 'st) kobj \<Rightarrow> string list) \<Rightarrow> string option \<Rightarrow> string \<Rightarrow> string
    \<Rightarrow> ('sp, 'st) table \<Rightarrow> goerr + ('sp, 'st) kobj list" where
  "tableList idx ns ik v t = Inr (filter (\<lambda>x. findObj (tb_objs t) (key_of x) = Some x
     \<and> List.member (idx ik x) v \<and> (ns = None \<or> ns = Some (ns_of x))) (tb_objs t))"

definition writeObj :: "('sp, 'st) kobj \<Rightarrow> ('sp, 'st) table \<Rightarrow> ('sp, 'st) table" where
  "writeObj y t = \<lparr>tb_objs = (if deleting y \<and> finalizers_of y = [] then dropObj (key_of y) (tb_objs t)
                              else y # dropObj (key_of y) (tb_objs t)),
                   tb_version = Suc (tb_version t)\<rparr>"

definition stamped :: "('sp, 'st) table \<Rightarrow> ObjectMeta \<Rightarrow> ObjectMeta \<Rightarrow> ObjectMeta" where
  "stamped t m old = m\<lparr>om_uid := om_uid old, om_deleted := om_deleted old,
     om_resourceVersion := dec_int (int (tb_version t))\<rparr>"

definition tableUpdate :: "('sp, 'st) kobj \<Rightarrow> ('sp, 'st) table
    \<Rightarrow> (goerr + ('sp, 'st) kobj) \<times> ('sp, 'st) table" where
  "tableUpdate x t = (case findObj (tb_objs t) (key_of x) of
     None \<Rightarrow> (Inl (notFound (key_of x)), t)
   | Some z \<Rightarrow>
      if om_resourceVersion (ko_meta x) \<noteq> om_resourceVersion (ko_meta z) then (Inl (conflict (key_of x)), t)
      else (Inr (x\<lparr>ko_meta := stamped t (ko_meta x) (ko_meta z), ko_status := ko_status z\<rparr>),
            writeObj (x\<lparr>ko_meta := stamped t (ko_meta x) (ko_meta z), ko_status := ko_status z\<rparr>) t))"

definition tableStatus :: "('sp, 'st) kobj \<Rightarrow> ('sp, 'st) table
    \<Rightarrow> (goerr + ('sp, 'st) kobj) \<times> ('sp, 'st) table" where
  "tableStatus x t = (case findObj (tb_objs t) (key_of x) of
     None \<Rightarrow> (Inl (notFound (key_of x)), t)
   | Some z \<Rightarrow>
      if om_resourceVersion (ko_meta x) \<noteq> om_resourceVersion (ko_meta z) then (Inl (conflict (key_of x)), t)
      else (Inr (z\<lparr>ko_meta := stamped t (ko_meta z) (ko_meta z), ko_status := ko_status x\<rparr>),
            \<lparr>tb_objs = z\<lparr>ko_meta := stamped t (ko_meta z) (ko_meta z), ko_status := ko_status x\<rparr>
                       # dropObj (key_of x) (tb_objs t),
             tb_version = Suc (tb_version t)\<rparr>))"

text \<open>A table that is one part of a larger world.\<close>

definition tableClient :: "(string \<Rightarrow> ('sp, 'st) kobj \<Rightarrow> string list) \<Rightarrow> ('w \<Rightarrow> ('sp, 'st) table)
    \<Rightarrow> (('sp, 'st) table \<Rightarrow> 'w \<Rightarrow> 'w) \<Rightarrow> ('w, ('sp, 'st) kobj) kclient" where
  "tableClient idx get put = \<lparr>kGet = (\<lambda>k w. tableGet k (get w)),
     kList = (\<lambda>ns ik v w. tableList idx ns ik v (get w)),
     kUpdate = (\<lambda>x w. case tableUpdate x (get w) of (r, t) \<Rightarrow> (r, put t w)),
     kStatusUpdate = (\<lambda>x w. case tableStatus x (get w) of (r, t) \<Rightarrow> (r, put t w))\<rparr>"

lemma stamped_fields [simp]:
  "om_name (stamped t m old) = om_name m" "om_namespace (stamped t m old) = om_namespace m"
  "om_finalizers (stamped t m old) = om_finalizers m" "om_deleted (stamped t m old) = om_deleted old"
  "same_meta (stamped t m old) (m\<lparr>om_uid := om_uid old, om_deleted := om_deleted old\<rparr>)"
  "same_meta (stamped t m m) m"
  by (simp_all add: stamped_def same_meta_def)

lemma find_writeObj:
  "findObj (tb_objs (writeObj y t)) =
     (findObj (tb_objs t))(key_of y := if deleting y \<and> finalizers_of y = [] then None else Some y)"
  by (rule ext) (simp add: writeObj_def findObj_drop)

lemma tableUpdate_ok:
  assumes "tableUpdate x t = (Inr y, t')"
  shows "\<exists>z. findObj (tb_objs t) (key_of x) = Some z
        \<and> same_meta (ko_meta y) ((ko_meta x)\<lparr>om_uid := om_uid (ko_meta z), om_deleted := deleting z\<rparr>)
        \<and> ko_spec y = ko_spec x \<and> ko_status y = ko_status z
        \<and> findObj (tb_objs t') = (findObj (tb_objs t))(key_of x := if deleting z \<and> finalizers_of x = [] then None else Some y)"
proof -
  from assms obtain z where z: "findObj (tb_objs t) (key_of x) = Some z"
    and y: "y = x\<lparr>ko_meta := stamped t (ko_meta x) (ko_meta z), ko_status := ko_status z\<rparr>"
    and t': "t' = writeObj y t"
    unfolding tableUpdate_def by (cases "findObj (tb_objs t) (key_of x)") (simp_all split: if_splits, metis)
  show ?thesis unfolding t' find_writeObj by (rule exI [of _ z]) (simp add: z y)
qed

lemma tableStatus_ok:
  assumes "tableStatus x t = (Inr y, t')"
  shows "\<exists>z. findObj (tb_objs t) (key_of x) = Some z \<and> same_meta (ko_meta y) (ko_meta z)
        \<and> ko_spec y = ko_spec z \<and> ko_status y = ko_status x
        \<and> findObj (tb_objs t') = (findObj (tb_objs t))(key_of x \<mapsto> y)"
proof -
  from assms obtain z where z: "findObj (tb_objs t) (key_of x) = Some z"
    and y: "y = z\<lparr>ko_meta := stamped t (ko_meta z) (ko_meta z), ko_status := ko_status x\<rparr>"
    and t': "tb_objs t' = y # dropObj (key_of x) (tb_objs t)"
    unfolding tableStatus_def by (cases "findObj (tb_objs t) (key_of x)") (simp_all split: if_splits, force)
  have "key_of y = key_of x" using findObj_key [OF z] by (simp add: y)
  then have "findObj (tb_objs t') = (findObj (tb_objs t))(key_of x \<mapsto> y)"
    by (intro ext) (simp add: t' findObj_drop)
  then show ?thesis by (intro exI [of _ z]) (simp add: z y)
qed

lemma table_err:
  "tableUpdate x t = (Inl e, t') \<Longrightarrow> t' = t"
  "tableStatus x t = (Inl e, t') \<Longrightarrow> t' = t"
  by (auto simp: tableUpdate_def tableStatus_def split: option.splits if_splits)

lemma tableClient_writes:
  "kUpdate (tableClient idx get put) x w = (r, w') \<longleftrightarrow> (\<exists>t. tableUpdate x (get w) = (r, t) \<and> w' = put t w)"
  "kStatusUpdate (tableClient idx get put) x w = (r, w') \<longleftrightarrow> (\<exists>t. tableStatus x (get w) = (r, t) \<and> w' = put t w)"
  by (auto simp: tableClient_def split: prod.splits)

lemma tableClient_api:
  assumes "\<And>t w. get (put t w) = t"
  shows "kube_api (tableClient idx get put) (\<lambda>w. findObj (tb_objs (get w))) idx"
proof unfold_locales
  fix w k x m
  show "findObj (tb_objs (get w)) k = Some x \<Longrightarrow> key_of x = k" by (rule findObj_key)
  show "kGet (tableClient idx get put) k w = Inr x \<Longrightarrow> findObj (tb_objs (get w)) k = Some x"
    "kGet (tableClient idx get put) k w = Inl (NotFound m) \<Longrightarrow> findObj (tb_objs (get w)) k = None"
    by (auto simp: tableClient_def tableGet_def split: option.splits)
next
  fix ns ik v w xs x
  show "kList (tableClient idx get put) ns ik v w = Inr xs \<Longrightarrow>
    x \<in> set xs \<longleftrightarrow> findObj (tb_objs (get w)) (key_of x) = Some x \<and> v \<in> set (idx ik x)
      \<and> (ns = None \<or> ns = Some (ns_of x))"
    by (auto simp: tableClient_def tableList_def dest: findObj_in)
next
  fix x w y w' e
  show "kUpdate (tableClient idx get put) x w = (Inr y, w') \<Longrightarrow> \<exists>z. findObj (tb_objs (get w)) (key_of x) = Some z
      \<and> same_meta (ko_meta y) ((ko_meta x)\<lparr>om_uid := om_uid (ko_meta z), om_deleted := deleting z\<rparr>)
      \<and> ko_spec y = ko_spec x \<and> ko_status y = ko_status z
      \<and> findObj (tb_objs (get w')) = (findObj (tb_objs (get w)))
          (key_of x := if deleting z \<and> finalizers_of x = [] then None else Some y)"
    using tableUpdate_ok [of x "get w" y] unfolding tableClient_writes by (metis assms)
  show "kStatusUpdate (tableClient idx get put) x w = (Inr y, w') \<Longrightarrow> \<exists>z. findObj (tb_objs (get w)) (key_of x) = Some z
      \<and> same_meta (ko_meta y) (ko_meta z) \<and> ko_spec y = ko_spec z \<and> ko_status y = ko_status x
      \<and> findObj (tb_objs (get w')) = (findObj (tb_objs (get w)))(key_of x \<mapsto> y)"
    using tableStatus_ok [of x "get w" y] unfolding tableClient_writes by (metis assms)
  show "kUpdate (tableClient idx get put) x w = (Inl e, w') \<Longrightarrow> findObj (tb_objs (get w')) = findObj (tb_objs (get w))"
    "kStatusUpdate (tableClient idx get put) x w = (Inl e, w') \<Longrightarrow> findObj (tb_objs (get w')) = findObj (tb_objs (get w))"
    using table_err [of x "get w" e] unfolding tableClient_writes by (metis assms)+
qed

end
