(* ===== verification/HTTPTask_Props.thy ===== *)
theory HTTPTask_Props
  imports HTTPTask_Ctl
begin

text \<open>
  What the HTTPTask controller guarantees: the contents of the request body, one call per body,
  what is recorded of the response, deletion protection and the fan-out of events.
\<close>

section \<open>An instance of the protected kinds\<close>

abbreviation taskInUse :: "('w, HTTPTask) kclient \<Rightarrow> HTTPTask \<Rightarrow> 'w \<Rightarrow> goerr + bool" where
  "taskInUse cl task \<equiv> taskReferencedByOthers cl (ns_of task) ''math.example.com/v1alpha1'' ''HTTPTask'' (name_of task)"

lemma HTTPTaskReconcile_guarded:
  "HTTPTaskReconcile u he cl = guarded u cl taskInUseFinalizer (taskInUse cl) (runTaskBody u he cl)"
  unfolding HTTPTaskReconcile_def guarded_def by (rule ext)+ (rule refl)

text \<open>A live task that already carries the finalizer goes straight to its work, or is not read.\<close>

lemma reconcile_ready:
  assumes "kube_util u" and "kube_api cl store idx" and "store w k = Some task" and "\<not> deleting task"
    and "taskInUseFinalizer \<in> set (finalizers_of task)"
  shows "HTTPTaskReconcile u he cl k w = runTaskBody u he cl task w
    \<or> (\<exists>e. HTTPTaskReconcile u he cl k w = (Ret Done (Some e), w))"
proof (cases "kGet cl k w")
  case (Inl e)
  with kube_api.get_err [OF assms(2) Inl assms(3)] show ?thesis by (simp add: HTTPTaskReconcile_def)
next
  case (Inr x)
  then have "x = task" using kube_api.get_current [OF assms(2)] assms(3) by fastforce
  with Inr assms(4,5) kube_util.contains [OF assms(1)] show ?thesis
    by (simp add: HTTPTaskReconcile_def ensureFinalizer_def)
qed

section \<open>The request body\<close>

abbreviation targetPath :: "ApiFieldMapping \<Rightarrow> string list" where
  "targetPath m \<equiv> split_on CHR ''.'' (am_targetField m)"

text \<open>The value a mapping takes from its source as the server holds it.\<close>

definition sourceValue :: "codec \<Rightarrow> (key \<Rightarrow> HTTPTask option) \<Rightarrow> string \<Rightarrow> ApiFieldMapping \<Rightarrow> json \<Rightarrow> bool" where
  "sourceValue c stored ns m v \<longleftrightarrow> (\<exists>source out.
     stored (ns, sr_name (am_sourceRef m)) = Some source \<and> hs_output (ko_status source) \<noteq> []
     \<and> unmarshal_map c (hs_output (ko_status source)) = Inr (Some out)
     \<and> getJSONField out (am_sourceField m) = Some v)"

lemma sourceValue_unique: "sourceValue c st ns m v \<Longrightarrow> sourceValue c st ns m v' \<Longrightarrow> v = v'"
  by (auto simp: sourceValue_def)

lemma merge_step:
  assumes "kube_api cl store idx" and "mergeInputFrom c cl ns (m # ms) (Some b) w = BodyOk r"
  obtains v where "sourceValue c (store w) ns m v"
    "mergeInputFrom c cl ns ms (Some (setJSONField b (am_targetField m) v)) w = BodyOk r"
  using assms(2)
  by (auto simp: sourceValue_def Option.bind_eq_Some_conv split: sum.splits if_splits option.splits
      dest!: kube_api.get_current [OF assms(1)] intro: that)

lemma merge_writes:
  assumes "kube_api cl store idx" and "mergeInputFrom c cl ns ms (Some b) w = BodyOk r"
  shows "\<exists>vs. list_all2 (sourceValue c (store w) ns) ms vs
    \<and> r = Some (fold (\<lambda>(p, v) d. setPath d p v) (zip (map targetPath ms) vs) b)"
  using assms(2)
proof (induction ms arbitrary: b)
  case (Cons m ms)
  from assms(1) Cons.prems obtain v where v: "sourceValue c (store w) ns m v"
    and r: "mergeInputFrom c cl ns ms (Some (setJSONField b (am_targetField m) v)) w = BodyOk r"
    by (rule merge_step)
  from Cons.IH [OF r] obtain vs where "list_all2 (sourceValue c (store w) ns) ms vs"
    "r = Some (fold (\<lambda>(p, v) d. setPath d p v) (zip (map targetPath ms) vs) (setJSONField b (am_targetField m) v))"
    by blast
  with v show ?case by (intro exI [of _ "v # vs"]) (simp add: setJSONField_def)
qed simp

text \<open>The interface of \<open>Json_Path\<close> without its well-formedness invariant, which these two laws do not need.\<close>

interpretation jany: path_access "\<lambda>m ps. getPath (JObj m) ps" setPath "\<lambda>_. True" "\<lambda>_. True"
  by unfold_locales (simp_all add: getPath_set_same getPath_set_parallel)

lemma sorted_wrt_zip:
  "length vs = length ps \<Longrightarrow> sorted_wrt P ps \<Longrightarrow> sorted_wrt (\<lambda>a b. P (fst a) (fst b)) (zip ps vs)"
  by (induction ps vs rule: list_induct2') (auto dest: set_zip_leftD)

text \<open>
  C9. When the body is built, every mapped field of it holds the value that the source task's
  output has at the source path, provided no target path of the mappings is equal to or a prefix of another;
  every path of \<open>spec.input\<close> apart from the targets is as the user gave it.
\<close>

theorem task_body_fields:
  assumes "kube_api cl store idx" and "initialBody c task = BodyOk (Some b0)"
    and "buildBody c cl task w = BodyOk (Some b)"
    and "sorted_wrt (\<lambda>p q. q \<parallel> p) (map targetPath (ht_inputFrom (ko_spec task)))"
  shows "(\<forall>m \<in> set (ht_inputFrom (ko_spec task)). \<exists>v. sourceValue c (store w) (ns_of task) m v
            \<and> getJSONField b (am_targetField m) = Some v)
    \<and> (\<forall>q. (\<forall>m \<in> set (ht_inputFrom (ko_spec task)). targetPath m \<parallel> q) \<longrightarrow>
            getPath (JObj b) q = getPath (JObj b0) q)"
proof -
  let ?ms = "ht_inputFrom (ko_spec task)"
  from assms(2,3) have "mergeInputFrom c cl (ns_of task) ?ms (Some b0) w = BodyOk (Some b)"
    by (simp add: buildBody_def)
  from merge_writes [OF assms(1) this] obtain vs
    where vs: "list_all2 (sourceValue c (store w) (ns_of task)) ?ms vs"
      and b: "b = fold (\<lambda>(p, v) d. setPath d p v) (zip (map targetPath ?ms) vs) b0" by auto
  have len: "length vs = length ?ms" using list_all2_lengthD [OF vs] by simp
  have "\<exists>v. sourceValue c (store w) (ns_of task) m v \<and> getJSONField b (am_targetField m) = Some v"
    if "m \<in> set ?ms" for m
  proof -
    from that obtain i where i: "i < length ?ms" "m = ?ms ! i" by (auto simp: in_set_conv_nth)
    have "(targetPath m, vs ! i) \<in> set (zip (map targetPath ?ms) vs)"
      using i len by (auto simp: in_set_zip intro!: exI [of _ i])
    then have "getPath (JObj b) (targetPath m) = Some (vs ! i)"
      unfolding b using sorted_wrt_zip [OF _ assms(4), of vs] len
      by (intro jany.get_writes) (auto dest!: set_zip_leftD)
    with list_all2_nthD [OF vs, of i] i show ?thesis by (auto simp: getJSONField_def)
  qed
  moreover have "getPath (JObj b) q = getPath (JObj b0) q" if "\<forall>m \<in> set ?ms. targetPath m \<parallel> q" for q
    unfolding b using that by (intro jany.get_writes_parallel) (auto dest!: set_zip_leftD)
  ultimately show ?thesis by blast
qed

lemma merge_stable:
  assumes "kube_api cl store idx" and "\<forall>m \<in> set ms. store w' (ns, sr_name (am_sourceRef m)) = store w (ns, sr_name (am_sourceRef m))"
    and "mergeInputFrom c cl ns ms (Some b) w = BodyOk r" and "mergeInputFrom c cl ns ms (Some b) w' = BodyOk r'"
  shows "r' = r"
  using assms(2-4)
proof (induction ms arbitrary: b)
  case (Cons m ms)
  from assms(1) Cons.prems(2) obtain v where v: "sourceValue c (store w) ns m v"
    and r: "mergeInputFrom c cl ns ms (Some (setJSONField b (am_targetField m) v)) w = BodyOk r"
    by (rule merge_step)
  from assms(1) Cons.prems(3) obtain v' where v': "sourceValue c (store w') ns m v'"
    and r': "mergeInputFrom c cl ns ms (Some (setJSONField b (am_targetField m) v')) w' = BodyOk r'"
    by (rule merge_step)
  have "v' = v" using v v' Cons.prems(1) by (auto simp: sourceValue_def)
  with Cons.IH r r' Cons.prems(1) show ?case by simp
qed simp

section \<open>One call per body\<close>

lemma task_same_body_step:
  assumes "kube_util u" and "kube_api cl store idx" and "store w k = Some task" and "\<not> deleting task"
    and "taskInUseFinalizer \<in> set (finalizers_of task)"
    and "buildBody (he_codec he) cl task w = BodyOk body" and "marshal (he_codec he) (bodyJson body) = Inr bytes"
    and "hs_observedInputHash (ko_status task) = sha256hex bytes" and "hs_output (ko_status task) \<noteq> []"
  shows "snd (HTTPTaskReconcile u he cl k w) = w"
  using reconcile_ready [OF assms(1-5), of he] assms(6-9)
  by (auto simp: runTaskBody_def sendBody_def)

text \<open>
  C32. A live task whose body hashes to the recorded hash and which has an output is left alone:
  nothing is sent and nothing is written, whatever its endpoint, method, headers and conditions.
\<close>

theorem task_same_body_not_sent:
  assumes "kube_util u" and "kube_api cl store idx" and "store w k = Some task" and "\<not> deleting task"
    and "taskInUseFinalizer \<in> set (finalizers_of task)"
    and "buildBody (he_codec he) cl task w = BodyOk body" and "marshal (he_codec he) (bodyJson body) = Inr bytes"
    and "hs_observedInputHash (ko_status task) = sha256hex bytes" and "hs_output (ko_status task) \<noteq> []"
  shows "snd (HTTPTaskReconcile u he cl k w) = w"
  by (rule task_same_body_step [OF assms])

lemma recordResponse_fields:
  "key_of (recordResponse u t h code out) = key_of t"
  "hs_output (ko_status (recordResponse u t h code out)) = out"
  "hs_statusCode (ko_status (recordResponse u t h code out)) = Some (ucast code)"
  "hs_observedInputHash (ko_status (recordResponse u t h code out)) = h"
  by (simp_all add: recordResponse_def setTaskCondition_def)

lemma recordResponse_ready:
  assumes "kube_util u"
  shows "\<exists>c. findCondition ''Ready'' (hs_conditions (ko_status (recordResponse u t h code out))) = Some c
    \<and> (co_status c = ''True'' \<longleftrightarrow> 200 \<le> sint code \<and> sint code < 300)"
proof -
  define c where "c = (if sint code < 200 \<or> sint code \<ge> 300
    then taskCondition t ''False'' ''NonSuccessStatus'' (''endpoint returned HTTP '' @ dec_int (sint code))
    else taskCondition t ''True'' ''Computed''
           (''called '' @ ht_endpoint (ko_spec t) @ '', got HTTP '' @ dec_int (sint code)))"
  have "co_type c = ''Ready''" by (simp add: c_def taskCondition_def)
  moreover have "co_status c = ''True'' \<longleftrightarrow> 200 \<le> sint code \<and> sint code < 300"
    by (auto simp: c_def taskCondition_def)
  moreover have "\<exists>cs. hs_conditions (ko_status (recordResponse u t h code out)) = SetStatusCondition u cs c"
    by (simp add: recordResponse_def setTaskCondition_def flip: c_def) blast
  ultimately show ?thesis using kube_util.set_condition [OF assms, of "''Ready''" _ c] by auto
qed

lemma setTaskCondition_key: "key_of (setTaskCondition u c t) = key_of t"
  by (simp add: setTaskCondition_def)

text \<open>The path of a reconcile that sends the body and reports success.\<close>

lemma sent_and_recorded:
  assumes "kube_util u" and "kube_api cl store idx" and "store w k = Some task" and "\<not> deleting task"
    and "taskInUseFinalizer \<in> set (finalizers_of task)"
    and "buildBody (he_codec he) cl task w = BodyOk body" and "marshal (he_codec he) (bodyJson body) = Inr bytes"
    and "\<not> (hs_observedInputHash (ko_status task) = sha256hex bytes \<and> hs_output (ko_status task) \<noteq> [])"
    and "he_newRequest he (taskMethod task) (ht_endpoint (ko_spec task)) = None"
    and "\<And>rq v. \<exists>v'. he_do he rq v = (Inr resp, v') \<and> store v' = store v"
    and "hr_body resp = Inr out" and "HTTPTaskReconcile u he cl k w = (Ret Done None, w')"
  obtains y running where "store w' k = Some y" "ko_spec y = ko_spec task" "\<not> deleting y"
    "taskInUseFinalizer \<in> set (finalizers_of y)"
    "ko_status y = ko_status (recordResponse u running (sha256hex bytes) (hr_status resp) out)"
    "\<And>l. l \<noteq> k \<Longrightarrow> store w' l = store w l"
proof -
  define mark where "mark = setTaskCondition u
    (taskCondition task ''False'' ''Running'' (''calling '' @ ht_endpoint (ko_spec task))) task"
  have k: "key_of mark = k" using kube_api.store_key [OF assms(2,3)] by (simp add: mark_def setTaskCondition_key)
  have "runTaskBody u he cl task w = (Ret Done None, w')"
    using reconcile_ready [OF assms(1-5), of he] assms(12) by auto
  then have send: "sendBody u he cl task bytes w = (Ret Done None, w')"
    using assms(6,7) by (simp add: runTaskBody_def)
  have "sendBody u he cl task bytes w = (case kStatusUpdate cl mark w of
      (Inl e, w1) \<Rightarrow> (Ret Done (Some e), w1) | (Inr running, w1) \<Rightarrow> callEndpoint u he cl running bytes w1)"
    unfolding sendBody_def mark_def using assms(8) by (rule if_not_P)
  with send obtain running w1 where run: "kStatusUpdate cl mark w = (Inr running, w1)"
    and call: "callEndpoint u he cl running bytes w1 = (Ret Done None, w')"
    by (auto split: prod.splits sum.splits)
  have "store w (key_of mark) = Some task" using assms(3) k by simp
  note r = kube_api.status_stored [OF assms(2) run this]
  obtain w2 where ans: "he_do he (taskRequest he running bytes) w1 = (Inr resp, w2)" and w2: "store w2 = store w1"
    using assms(10) by blast
  define rec where "rec = recordResponse u running (sha256hex bytes) (hr_status resp) out"
  have "he_newRequest he (taskMethod running) (ht_endpoint (ko_spec running)) = None"
    using assms(9) unfolding taskMethod_def r(3) .
  with call assms(11) ans obtain y where y: "kStatusUpdate cl rec w2 = (Inr y, w')"
    by (auto simp: callEndpoint_def simp flip: rec_def split: prod.splits sum.splits)
  have rk: "key_of rec = k" using r(1) k by (simp only: rec_def recordResponse_fields)
  have "store w2 (key_of rec) = Some running" using r(6) k by (simp only: rk w2)
  note s = kube_api.status_stored [OF assms(2) y this]
  show thesis
  proof (rule that [of y running])
    show "store w' k = Some y" using s(6) by (simp only: rk)
    show "ko_spec y = ko_spec task" using s(3) r(3) by simp
    show "\<not> deleting y" using s(5) r(5) assms(4) by simp
    show "taskInUseFinalizer \<in> set (finalizers_of y)" using s(4) r(4) assms(5) by simp
    show "ko_status y = ko_status (recordResponse u running (sha256hex bytes) (hr_status resp) out)"
      using s(2) by (simp only: rec_def)
    fix l assume "l \<noteq> k"
    then show "store w' l = store w l"
      using kube_api.write_frame(2) [OF assms(2) run] kube_api.write_frame(2) [OF assms(2) y] k rk w2 by metis
  qed
qed

text \<open>
  C2. When a body has to be sent, the endpoint answers and the reconcile reports success, the
  stored task holds the response body, the status code, the hash of the body that was sent, and a Ready
  condition that is True exactly for a 2xx code; its spec is unchanged.
\<close>

theorem task_response_recorded:
  assumes "kube_util u" and "kube_api cl store idx" and "store w k = Some task" and "\<not> deleting task"
    and "taskInUseFinalizer \<in> set (finalizers_of task)"
    and "buildBody (he_codec he) cl task w = BodyOk body" and "marshal (he_codec he) (bodyJson body) = Inr bytes"
    and "\<not> (hs_observedInputHash (ko_status task) = sha256hex bytes \<and> hs_output (ko_status task) \<noteq> [])"
    and "he_newRequest he (taskMethod task) (ht_endpoint (ko_spec task)) = None"
    and "\<And>rq v. \<exists>v'. he_do he rq v = (Inr resp, v') \<and> store v' = store v"
    and "hr_body resp = Inr out" and "HTTPTaskReconcile u he cl k w = (Ret Done None, w')"
  shows "\<exists>y c. store w' k = Some y \<and> ko_spec y = ko_spec task \<and> hs_output (ko_status y) = out
    \<and> hs_statusCode (ko_status y) = Some (ucast (hr_status resp))
    \<and> hs_observedInputHash (ko_status y) = sha256hex bytes
    \<and> findCondition ''Ready'' (hs_conditions (ko_status y)) = Some c
    \<and> (co_status c = ''True'' \<longleftrightarrow> 200 \<le> sint (hr_status resp) \<and> sint (hr_status resp) < 300)"
proof -
  obtain y running where y: "store w' k = Some y" "ko_spec y = ko_spec task"
    "ko_status y = ko_status (recordResponse u running (sha256hex bytes) (hr_status resp) out)"
    using sent_and_recorded [OF assms] by metis
  with recordResponse_ready [OF assms(1)] show ?thesis
    by (intro exI [of _ y]) (simp add: recordResponse_fields)
qed

lemma next_quiet:
  assumes "kube_util u" and "kube_api cl store idx" and "store w k = Some task" and "\<not> deleting task"
    and "taskInUseFinalizer \<in> set (finalizers_of task)"
    and "buildBody (he_codec he) cl task w = BodyOk (Some b)" and "marshal (he_codec he) (JObj b) = Inr bytes"
    and "\<not> (hs_observedInputHash (ko_status task) = sha256hex bytes \<and> hs_output (ko_status task) \<noteq> [])"
    and "he_newRequest he (taskMethod task) (ht_endpoint (ko_spec task)) = None"
    and "\<And>rq v. \<exists>v'. he_do he rq v = (Inr resp, v') \<and> store v' = store v"
    and "hr_body resp = Inr out" and "HTTPTaskReconcile u he cl k w = (Ret Done None, w')"
    and "out \<noteq> []" and "\<And>m. m \<in> set (ht_inputFrom (ko_spec task)) \<Longrightarrow> sr_name (am_sourceRef m) \<noteq> name_of task"
    and "store w' k = Some y" and "buildBody (he_codec he) cl y w' = BodyOk body'"
  shows "snd (HTTPTaskReconcile u he cl k w') = w'"
proof -
  have kk: "key_of task = k" using kube_api.store_key [OF assms(2,3)] .
  have marsh: "marshal (he_codec he) (bodyJson (Some b)) = Inr bytes" using assms(7) by simp
  obtain y' running where y': "store w' k = Some y'" and same: "ko_spec y' = ko_spec task"
    and live: "\<not> deleting y'" "taskInUseFinalizer \<in> set (finalizers_of y')"
    and st: "ko_status y' = ko_status (recordResponse u running (sha256hex bytes) (hr_status resp) out)"
    and frame: "\<And>l. l \<noteq> k \<Longrightarrow> store w' l = store w l"
    using sent_and_recorded [OF assms(1-6) marsh assms(8-12)] by metis
  have yy: "y' = y" using y' assms(15) by simp
  have ns: "ns_of y = ns_of task" "ht_inputFrom (ko_spec y) = ht_inputFrom (ko_spec task)"
      "ht_input (ko_spec y) = ht_input (ko_spec task)"
    using kube_api.store_key [OF assms(2,15)] kk same yy by auto
  have ib: "initialBody (he_codec he) y = initialBody (he_codec he) task"
    using ns by (simp add: initialBody_def)
  from assms(6) obtain b0 where b0: "initialBody (he_codec he) task = BodyOk b0"
    and m: "mergeInputFrom (he_codec he) cl (ns_of task) (ht_inputFrom (ko_spec task)) b0 w = BodyOk (Some b)"
    by (auto simp: buildBody_def split: bodyResult.splits)
  have m': "mergeInputFrom (he_codec he) cl (ns_of task) (ht_inputFrom (ko_spec task)) b0 w' = BodyOk body'"
    using assms(16) b0 ib ns by (simp add: buildBody_def)
  have "body' = Some b"
  proof (cases b0)
    case None
    with m m' show ?thesis
      by (cases "ht_inputFrom (ko_spec task)") (auto split: sum.splits if_splits option.splits)
  next
    case (Some bb)
    have "\<forall>mm \<in> set (ht_inputFrom (ko_spec task)).
        store w' (ns_of task, sr_name (am_sourceRef mm)) = store w (ns_of task, sr_name (am_sourceRef mm))"
      using frame assms(14) kk by auto
    with merge_stable [OF assms(2)] m m' Some show ?thesis by metis
  qed
  with assms(7,13,16) st yy show ?thesis
    by (intro task_same_body_step [OF assms(1,2,15)]) (use live yy in \<open>auto simp: recordResponse_fields\<close>)
qed

text \<open>
  C5. The same body is not sent again: after a reconcile that sent a body and recorded a non-empty response, and as
  long as the body is still built (the task does not read its own output), reconciling the task any number of times neither
  calls the endpoint nor writes. (An empty response is not remembered: such a task is called again on every reconcile.)
\<close>

theorem task_sent_once:
  assumes "kube_util u" and "kube_api cl store idx" and "store w k = Some task" and "\<not> deleting task"
    and "taskInUseFinalizer \<in> set (finalizers_of task)"
    and "buildBody (he_codec he) cl task w = BodyOk (Some b)" and "marshal (he_codec he) (JObj b) = Inr bytes"
    and "\<not> (hs_observedInputHash (ko_status task) = sha256hex bytes \<and> hs_output (ko_status task) \<noteq> [])"
    and "he_newRequest he (taskMethod task) (ht_endpoint (ko_spec task)) = None"
    and "\<And>rq v. \<exists>v'. he_do he rq v = (Inr resp, v') \<and> store v' = store v"
    and "hr_body resp = Inr out" and "HTTPTaskReconcile u he cl k w = (Ret Done None, w')"
    and "out \<noteq> []" and "\<And>m. m \<in> set (ht_inputFrom (ko_spec task)) \<Longrightarrow> sr_name (am_sourceRef m) \<noteq> name_of task"
    and "store w' k = Some y" and "buildBody (he_codec he) cl y w' = BodyOk body'"
  shows "((\<lambda>v. snd (HTTPTaskReconcile u he cl k v)) ^^ n) w' = w'"
  by (induction n) (simp_all add: next_quiet [OF assms])

section \<open>No panic\<close>

lemma merge_no_panic: "mergeInputFrom c cl ns ms (Some b) w \<noteq> BodyPanic"
  by (induction ms arbitrary: b) (auto split: sum.splits option.splits)

text \<open>
  C33. The nil-map write is the only panic, and it needs an input that decodes to \<open>null\<close>: with no
  input, or an input that is an object, a reconcile returns.
\<close>

theorem task_no_panic:
  assumes "\<And>task. store w k = Some task \<Longrightarrow>
      ht_input (ko_spec task) = [] \<or> unmarshal_map (he_codec he) (ht_input (ko_spec task)) \<noteq> Inr None"
    and "kube_util u" and "kube_api cl store idx"
  shows "\<exists>r e. fst (HTTPTaskReconcile u he cl k w) = Ret r e"
proof -
  have sent: "\<exists>r e. fst (sendBody u he cl t bytes v) = Ret r e" for t bytes v
    by (auto simp: sendBody_def callEndpoint_def fail_def split: prod.splits sum.splits option.splits)
  have work: "\<exists>r e. fst (runTaskBody u he cl t v) = Ret r e"
    if "ht_input (ko_spec t) = [] \<or> unmarshal_map (he_codec he) (ht_input (ko_spec t)) \<noteq> Inr None" for t v
  proof -
    have "buildBody (he_codec he) cl t v \<noteq> BodyPanic"
      using that by (auto simp: buildBody_def initialBody_def merge_no_panic split: sum.splits option.splits)
    then show ?thesis using sent
      by (auto simp: runTaskBody_def fail_def waiting_def split: bodyResult.splits sum.splits prod.splits)
  qed
  show ?thesis
  proof (cases "kGet cl k w")
    case (Inl e)
    then show ?thesis by (simp add: HTTPTaskReconcile_def)
  next
    case (Inr t)
    then have t: "store w k = Some t" by (rule kube_api.get_current [OF assms(3)])
    show ?thesis
    proof (cases "deleting t")
      case True
      with Inr show ?thesis
        by (auto simp: HTTPTaskReconcile_def handleDeletion_def split: sum.splits prod.splits)
    next
      case False
      have "\<And>t1 w1. ensureFinalizer u cl taskInUseFinalizer t w = (Inr t1, w1) \<Longrightarrow> ko_spec t1 = ko_spec t"
        using kube_api.update_ok [OF assms(3)] by (fastforce simp: ensureFinalizer_def split: if_splits)
      with False Inr work assms(1) [OF t] show ?thesis
        by (auto simp: HTTPTaskReconcile_def split: prod.splits sum.splits)
    qed
  qed
qed

section \<open>Deletion protection and events\<close>

text \<open>
  While some task of the namespace takes a field from a task that is being deleted, reconciling
  the latter changes nothing. The referring task may be the task itself, so a task that reads its
  own output can never be deleted.
\<close>

theorem task_deletion_blocked:
  assumes "kube_util u" and "kube_api cl store idx" and "idx taskSourceRefIndexKey = taskIndex"
    and "store w (ns, n) = Some task" and "deleting task" and "taskInUseFinalizer \<in> set (finalizers_of task)"
    and "store w (ns, q) = Some t" and "m \<in> set (ht_inputFrom (ko_spec t))"
    and "sourceRefIs (am_sourceRef m) ''math.example.com/v1alpha1'' ''HTTPTask'' n"
  shows "snd (HTTPTaskReconcile u he cl (ns, n) w) = w"
proof -
  have k: "key_of task = (ns, n)" using kube_api.store_key [OF assms(2,4)] .
  have "taskInUse cl task w \<noteq> Inr False"
    using used_by_task [OF assms(2,3,7) task_refers [OF assms(8,9)]] k by simp
  with protected_kind.deletion_blocked [OF protected_kind.intro [OF assms(1,2)] assms(4-6),
      where inUse = "taskInUse cl"]
  show ?thesis unfolding HTTPTaskReconcile_guarded by blast
qed

text \<open>
  When no task of the namespace refers to it, a successful reconcile of a task that is being
  deleted takes the finalizer off.
\<close>

theorem task_deletion_released:
  assumes "kube_util u" and "kube_api cl store idx" and "idx taskSourceRefIndexKey = taskIndex"
    and "store w (ns, n) = Some task" and "deleting task"
    and "\<And>q t. store w (ns, q) = Some t \<Longrightarrow>
      sourceRefIndexValue ''math.example.com/v1alpha1'' ''HTTPTask'' n \<notin> set (taskIndex t)"
    and "HTTPTaskReconcile u he cl (ns, n) w = (Ret Done None, w')"
  shows "case store w' (ns, n) of None \<Rightarrow> True | Some y \<Rightarrow> taskInUseFinalizer \<notin> set (finalizers_of y)"
proof -
  have k: "key_of task = (ns, n)" using kube_api.store_key [OF assms(2,4)] .
  have "taskInUse cl task w \<noteq> Inr True"
    using unused_by_task [OF assms(2,3,6)] k by simp
  with protected_kind.deletion_released [OF protected_kind.intro [OF assms(1,2)] assms(4,5),
      where inUse = "taskInUse cl"] assms(7)
  show ?thesis unfolding HTTPTaskReconcile_guarded by blast
qed

text \<open>
  An event of a task enqueues exactly the tasks of its namespace with a mapping that refers to it.
\<close>

theorem task_events_exact:
  assumes "kube_api cl store idx" and "idx taskSourceRefIndexKey = taskIndex"
    and "kList cl (Some (ns_of t)) taskSourceRefIndexKey
           (sourceRefIndexValue ''math.example.com/v1alpha1'' ''HTTPTask'' (name_of t)) w = Inr items"
    and "CHR ''/'' \<notin> set (name_of t)"
    and "\<And>k d m. store w k = Some d \<Longrightarrow> m \<in> set (ht_inputFrom (ko_spec d)) \<Longrightarrow>
           CHR ''/'' \<notin> set (sr_kind (am_sourceRef m)) \<and> CHR ''/'' \<notin> set (sr_name (am_sourceRef m))"
  shows "(ns', q) \<in> set (findDependentTasks cl t w) \<longleftrightarrow>
    ns' = ns_of t \<and> (\<exists>d. store w (ns_of t, q) = Some d \<and> (\<exists>m \<in> set (ht_inputFrom (ko_spec d)).
      sourceRefIs (am_sourceRef m) ''math.example.com/v1alpha1'' ''HTTPTask'' (name_of t)))"
proof -
  let ?v = "sourceRefIndexValue ''math.example.com/v1alpha1'' ''HTTPTask'' (name_of t)"
  have idx: "?v \<in> set (taskIndex d) \<longleftrightarrow> (\<exists>m \<in> set (ht_inputFrom (ko_spec d)).
      sourceRefIs (am_sourceRef m) ''math.example.com/v1alpha1'' ''HTTPTask'' (name_of t))"
    if "store w k = Some d" for k d
  proof -
    have "?v = sourceRefIndexValue (sr_apiVersion (am_sourceRef m)) (sr_kind (am_sourceRef m)) (sr_name (am_sourceRef m))
        \<longleftrightarrow> sourceRefIs (am_sourceRef m) ''math.example.com/v1alpha1'' ''HTTPTask'' (name_of t)"
      if "m \<in> set (ht_inputFrom (ko_spec d))" for m
      using assms(4) assms(5) [OF \<open>store w k = Some d\<close> that]
      by (subst sourceRefIndexValue_inj) (auto simp: sourceRefIs_def)
    then show ?thesis by (auto simp: taskIndex_def image_iff)
  qed
  have "(ns', q) \<in> set (findDependentTasks cl t w) \<longleftrightarrow> (\<exists>d \<in> set items. key_of d = (ns', q))"
    by (auto simp: findDependentTasks_def assms(3))
  also have "\<dots> \<longleftrightarrow> ns' = ns_of t \<and> (\<exists>d. store w (ns_of t, q) = Some d \<and> ?v \<in> set (taskIndex d))"
    using kube_api.list_current [OF assms(1,3)] kube_api.store_key [OF assms(1)] assms(2) by fastforce
  finally show ?thesis using idx by blast
qed

end
