(* ===== verification/Workflow_Props.thy ===== *)
theory Workflow_Props
  imports Workflow_Ctl
begin

text \<open>
  What the Workflow controller guarantees: the status it publishes, one notification per
  terminal phase, retry of a failed notification, and that the children it writes are wired to each
  other the way the HTTPTask controller indexes and watches them.
\<close>

section \<open>The world of a workflow\<close>

text \<open>
  Creating or updating a child and sending a request leave the stored Workflows alone.
\<close>

locale workflow_world = kube_api cl store idx
  for cl :: "('w, Workflow) kclient" and store :: "'w \<Rightarrow> key \<Rightarrow> Workflow option"
    and idx :: "string \<Rightarrow> Workflow \<Rightarrow> string list" +
  fixes env :: "'w wfEnv"
  assumes child_frame: "store (snd (we_createOrUpdate env k f v)) = store v"
    and do_frame: "store (snd (we_do env rq v)) = store v"
begin

lemma steps_frame: "reconcileSteps env flow steps acc v = (r, v') \<Longrightarrow> store v' = store v"
proof (induction steps arbitrary: acc v)
  case (Cons step steps)
  obtain q v1 where q: "we_createOrUpdate env (ns_of flow, childName flow (wt_name step)) (mutateChild env flow step) v = (q, v1)"
    by fastforce
  have "store v1 = store v" using child_frame [of _ _ v] q by (metis snd_conv)
  with Cons q show ?case by (cases q) auto
qed simp

lemma notify_frame: "notify env flow v = (r, v') \<Longrightarrow> store v' = store v"
  using do_frame [of _ v]
  by (auto simp: notify_def split: sum.splits option.splits prod.splits if_splits) (metis snd_conv)+

text \<open>The path of a reconcile that publishes a status.\<close>

lemma published:
  assumes "store w k = Some flow" and "WorkflowReconcile env cl k w = (Ret r None, w')"
  obtains acc w1 y w2 where
    "reconcileSteps env (withIdentity env flow) (wf_tasks (ko_spec flow)) noSteps w = (Inr acc, w1)"
    "kStatusUpdate cl (withSteps acc (withIdentity env flow)) w1 = (Inr y, w2)"
    "notifyIfDue env cl (wfPhase acc) y w2 = (Ret r None, w')"
    "store w2 k = Some y" "key_of y = k" "ko_spec y = ko_spec flow"
    "ko_status y = ko_status (withSteps acc (withIdentity env flow))"
proof -
  have get: "kGet cl k w = Inr flow"
  proof (cases "kGet cl k w")
    case (Inl e)
    with assms get_err [OF Inl assms(1)] show ?thesis by (simp add: WorkflowReconcile_def)
  next
    case (Inr x)
    with get_current [OF Inr] assms(1) show ?thesis by simp
  qed
  with assms(2) obtain acc w1 y w2 where
    s: "reconcileSteps env (withIdentity env flow) (wf_tasks (ko_spec flow)) noSteps w = (Inr acc, w1)"
    and u: "kStatusUpdate cl (withSteps acc (withIdentity env flow)) w1 = (Inr y, w2)"
    and n: "notifyIfDue env cl (wfPhase acc) y w2 = (Ret r None, w')"
    by (auto simp: WorkflowReconcile_def split: sum.splits prod.splits)
  have k: "key_of (withSteps acc (withIdentity env flow)) = k"
    using store_key [OF assms(1)] by (simp add: withSteps_def withIdentity_def)
  have "store w1 (key_of (withSteps acc (withIdentity env flow))) = Some flow"
    unfolding k using steps_frame [OF s] assms(1) by simp
  note p = status_stored [OF u this]
  show thesis by (rule that [OF s u n]) (use p k in simp_all)
qed

end

section \<open>The published status\<close>

lemma withSteps_fields:
  "ws_tasks (ko_status (withSteps acc flow)) = sa_statuses acc"
  "ws_phase (ko_status (withSteps acc flow)) = wfPhase acc"
  "ws_notifiedPhase (ko_status (withSteps acc flow)) = ws_notifiedPhase (ko_status flow)"
  "ws_transactionID (ko_status (withSteps acc flow)) = ws_transactionID (ko_status flow)"
  "ws_dashboardURL (ko_status (withSteps acc flow)) = ws_dashboardURL (ko_status flow)"
  by (simp_all add: withSteps_def)

definition transactionOf :: "Workflow \<Rightarrow> string" where
  "transactionOf flow = (if ws_transactionID (ko_status flow) = [] then om_uid (ko_meta flow)
                         else ws_transactionID (ko_status flow))"

lemma withIdentity_fields:
  "ws_transactionID (ko_status (withIdentity env flow)) = transactionOf flow"
  "ws_dashboardURL (ko_status (withIdentity env flow)) = we_dashboardBaseURL env @ ''/workflows/'' @ transactionOf flow"
  "ws_notifiedPhase (ko_status (withIdentity env flow)) = ws_notifiedPhase (ko_status flow)"
  by (simp_all add: withIdentity_def transactionOf_def)

lemma notifyIfDue_done:
  assumes "kube_api cl store idx" and "workflow_world cl store idx env" and "store w2 (key_of y) = Some y"
    and "notifyIfDue env cl phase y w2 = (Ret Done None, w')"
  obtains z where "store w' (key_of y) = Some z" "ko_spec z = ko_spec y"
    "ko_status z = ko_status y \<or> ko_status z = ko_status (markNotified y phase)"
    "isTerminal phase \<Longrightarrow> wf_notifyURL (ko_spec y) \<noteq> [] \<Longrightarrow> ws_notifiedPhase (ko_status z) = phase"
proof (cases "isTerminal phase \<and> wf_notifyURL (ko_spec y) \<noteq> [] \<and> ws_notifiedPhase (ko_status y) \<noteq> phase")
  case True
  with assms(4) obtain w3 z where n: "notify env y w2 = (None, w3)"
    and u: "kStatusUpdate cl (markNotified y phase) w3 = (Inr z, w')"
    by (auto simp: notifyIfDue_def split: prod.splits option.splits sum.splits)
  have k: "key_of (markNotified y phase) = key_of y" by (simp add: markNotified_def)
  have "store w3 (key_of (markNotified y phase)) = Some y"
    unfolding k workflow_world.notify_frame [OF assms(2) n] by (rule assms(3))
  note p = kube_api.status_stored [OF assms(1) u this]
  show thesis
  proof (rule that [of z])
    show "store w' (key_of y) = Some z" using p(6) k by simp
  qed (use p in \<open>simp_all add: markNotified_def\<close>)
next
  case False
  with assms(3,4) show thesis by (intro that [of y]) (auto simp: notifyIfDue_def)
qed

lemma published_steps:
  assumes "workflow_world cl store idx env" and "store w k = Some flow"
    and "WorkflowReconcile env cl k w = (Ret Done None, w')"
  obtains acc w1 z where
    "reconcileSteps env (withIdentity env flow) (wf_tasks (ko_spec flow)) noSteps w = (Inr acc, w1)"
    "store w' k = Some z" "ko_spec z = ko_spec flow"
    "ws_tasks (ko_status z) = sa_statuses acc" "ws_phase (ko_status z) = wfPhase acc"
    "ws_transactionID (ko_status z) = transactionOf flow"
    "ws_dashboardURL (ko_status z) = we_dashboardBaseURL env @ ''/workflows/'' @ transactionOf flow"
    "isTerminal (wfPhase acc) \<Longrightarrow> wf_notifyURL (ko_spec flow) \<noteq> [] \<Longrightarrow> ws_notifiedPhase (ko_status z) = wfPhase acc"
proof -
  have api: "kube_api cl store idx" using assms(1) by (simp add: workflow_world_def)
  obtain acc w1 y w2 where
    s: "reconcileSteps env (withIdentity env flow) (wf_tasks (ko_spec flow)) noSteps w = (Inr acc, w1)"
    and n: "notifyIfDue env cl (wfPhase acc) y w2 = (Ret Done None, w')"
    and y: "store w2 k = Some y" "key_of y = k" "ko_spec y = ko_spec flow"
      "ko_status y = ko_status (withSteps acc (withIdentity env flow))"
    using workflow_world.published [OF assms] by metis
  have "store w2 (key_of y) = Some y" using y by simp
  from notifyIfDue_done [OF api assms(1) this n] y obtain z where
    z: "store w' k = Some z" "ko_spec z = ko_spec flow"
      "ko_status z = ko_status y \<or> ko_status z = ko_status (markNotified y (wfPhase acc))"
      "isTerminal (wfPhase acc) \<Longrightarrow> wf_notifyURL (ko_spec flow) \<noteq> [] \<Longrightarrow> ws_notifiedPhase (ko_status z) = wfPhase acc"
    by metis
  have st: "ws_tasks (ko_status z) = sa_statuses acc" "ws_phase (ko_status z) = wfPhase acc"
    "ws_transactionID (ko_status z) = transactionOf flow"
    "ws_dashboardURL (ko_status z) = we_dashboardBaseURL env @ ''/workflows/'' @ transactionOf flow"
    using z(3) y(4) by (auto simp: markNotified_def withSteps_fields withIdentity_fields)
  show thesis by (rule that [OF s z(1,2) st z(4)])
qed

lemma published_status:
  assumes "workflow_world cl store idx env" and "store w k = Some flow"
    and "WorkflowReconcile env cl k w = (Ret Done None, w')"
  shows "\<exists>z. store w' k = Some z \<and> ko_spec z = ko_spec flow
    \<and> map wk_name (ws_tasks (ko_status z)) = map wt_name (wf_tasks (ko_spec flow))
    \<and> ws_phase (ko_status z) = aggregate (ws_tasks (ko_status z))
    \<and> ws_transactionID (ko_status z) = transactionOf flow
    \<and> ws_dashboardURL (ko_status z) = we_dashboardBaseURL env @ ''/workflows/'' @ transactionOf flow
    \<and> (isTerminal (ws_phase (ko_status z)) \<and> wf_notifyURL (ko_spec flow) \<noteq> []
         \<longrightarrow> ws_notifiedPhase (ko_status z) = ws_phase (ko_status z))"
proof -
  obtain acc w1 z where
    s: "reconcileSteps env (withIdentity env flow) (wf_tasks (ko_spec flow)) noSteps w = (Inr acc, w1)"
    and z: "store w' k = Some z" "ko_spec z = ko_spec flow"
      "ws_tasks (ko_status z) = sa_statuses acc" "ws_phase (ko_status z) = wfPhase acc"
      "ws_transactionID (ko_status z) = transactionOf flow"
      "ws_dashboardURL (ko_status z) = we_dashboardBaseURL env @ ''/workflows/'' @ transactionOf flow"
      "isTerminal (wfPhase acc) \<Longrightarrow> wf_notifyURL (ko_spec flow) \<noteq> [] \<Longrightarrow> ws_notifiedPhase (ko_status z) = wfPhase acc"
    using published_steps [OF assms] by metis
  from reconcileSteps_acc [OF s] have acc: "acc_ok acc"
    "map wk_name (sa_statuses acc) = map wt_name (wf_tasks (ko_spec flow))" by simp_all
  show ?thesis using z acc wfPhase_acc [OF acc(1)] by (intro exI [of _ z]) simp
qed

text \<open>
  C3. After a reconcile that reports success the stored Workflow keeps its spec, has one task status
  per step in order, a phase that is the aggregate of the steps (Failed if one failed, Succeeded if all
  succeeded, Running otherwise), a transaction id that is the one it had or else its uid, the dashboard
  URL for it, and, in a terminal phase with a notify URL, that phase recorded as notified.
\<close>

theorem workflow_reconciled:
  assumes "workflow_world cl store idx env" and "store w k = Some flow"
    and "WorkflowReconcile env cl k w = (Ret Done None, w')"
  shows "\<exists>z. store w' k = Some z \<and> ko_spec z = ko_spec flow
    \<and> map wk_name (ws_tasks (ko_status z)) = map wt_name (wf_tasks (ko_spec flow))
    \<and> ws_phase (ko_status z) = aggregate (ws_tasks (ko_status z))
    \<and> ws_transactionID (ko_status z) = transactionOf flow
    \<and> ws_dashboardURL (ko_status z) = we_dashboardBaseURL env @ ''/workflows/'' @ transactionOf flow
    \<and> (isTerminal (ws_phase (ko_status z)) \<and> wf_notifyURL (ko_spec flow) \<noteq> []
         \<longrightarrow> ws_notifiedPhase (ko_status z) = ws_phase (ko_status z))"
  by (rule published_status [OF assms])

section \<open>The states of the children\<close>

text \<open>
  \<open>CreateOrUpdate\<close> writes the child it is asked for and no other, and what the mutate function leaves of the
  status is the stored status; \<open>SetControllerReference\<close> touches neither name nor status.
\<close>

locale flow_children = workflow_world cl store idx env
  for cl :: "('w, Workflow) kclient" and store :: "'w \<Rightarrow> key \<Rightarrow> Workflow option"
    and idx :: "string \<Rightarrow> Workflow \<Rightarrow> string list" and env :: "'w wfEnv" +
  fixes tasks :: "'w \<Rightarrow> key \<Rightarrow> HTTPTask option"
  assumes child_status: "we_createOrUpdate env k f v = (Inr child, v') \<Longrightarrow> tasks v k = Some t
      \<Longrightarrow> (\<forall>x y. f x = Inr y \<longrightarrow> key_of y = key_of x \<and> ko_status y = ko_status x) \<Longrightarrow> ko_status child = ko_status t"
    and child_other: "we_createOrUpdate env k f v = (r, v') \<Longrightarrow> (\<forall>x y. f x = Inr y \<longrightarrow> key_of y = key_of x)
      \<Longrightarrow> l \<noteq> k \<Longrightarrow> tasks v' l = tasks v l"
    and controller_ref: "we_setController env flow x = Inr y \<Longrightarrow> key_of y = key_of x \<and> ko_status y = ko_status x"
begin

lemma mutate_keeps: "mutateChild env flow step x = Inr y \<Longrightarrow> key_of y = key_of x \<and> ko_status y = ko_status x"
  unfolding mutateChild_def by (drule controller_ref) simp

lemma steps_gather:
  assumes "reconcileSteps env flow steps acc v = (Inr acc', v')" and "distinct (map wt_name steps)"
    and "\<forall>step \<in> set steps. tasks v (ns_of flow, childName flow (wt_name step)) = Some (child step)"
  shows "sa_statuses acc' = sa_statuses acc @ map (\<lambda>step. childStatus step (child step)) steps"
  using assms
proof (induction steps arbitrary: acc v)
  case (Cons step steps)
  let ?k = "\<lambda>s. (ns_of flow, childName flow (wt_name s))"
  from Cons.prems(1) obtain c v1 where c: "we_createOrUpdate env (?k step) (mutateChild env flow step) v = (Inr c, v1)"
    and rest: "reconcileSteps env flow steps (addStep (childStatus step c) acc) v1 = (Inr acc', v')"
    by (auto split: prod.splits sum.splits)
  have "ko_status c = ko_status (child step)"
    by (rule child_status [OF c]) (use Cons.prems(3) mutate_keeps in auto)
  then have st: "childStatus step c = childStatus step (child step)" by (simp add: childStatus_def)
  have "tasks v1 (?k s) = Some (child s)" if "s \<in> set steps" for s
  proof -
    have "?k s \<noteq> ?k step" using Cons.prems(2) that by (auto simp: childName_def) (metis image_eqI)
    from child_other [OF c _ this] mutate_keeps Cons.prems(3) that show ?thesis by auto
  qed
  with Cons.IH [OF rest] Cons.prems(2) st show ?case by simp
qed simp

end

lemma gathered_steps:
  assumes "flow_children cl store idx env tasks" and "store w k = Some flow"
    and "WorkflowReconcile env cl k w = (Ret Done None, w')" and "distinct (map wt_name (wf_tasks (ko_spec flow)))"
    and "\<forall>step \<in> set (wf_tasks (ko_spec flow)). tasks w (ns_of flow, childName flow (wt_name step)) = Some (child step)"
  shows "\<exists>z. store w' k = Some z
    \<and> ws_tasks (ko_status z) = map (\<lambda>step. childStatus step (child step)) (wf_tasks (ko_spec flow))
    \<and> ws_phase (ko_status z) = aggregate (ws_tasks (ko_status z))"
proof -
  have world: "workflow_world cl store idx env" using assms(1) by (simp add: flow_children_def)
  obtain acc w1 z where
    s: "reconcileSteps env (withIdentity env flow) (wf_tasks (ko_spec flow)) noSteps w = (Inr acc, w1)"
    and z: "store w' k = Some z" "ws_tasks (ko_status z) = sa_statuses acc" "ws_phase (ko_status z) = wfPhase acc"
    using published_steps [OF world assms(2,3)] by metis
  have "ns_of (withIdentity env flow) = ns_of flow" "childName (withIdentity env flow) = childName flow"
    by (simp_all add: withIdentity_def childName_def fun_eq_iff)
  with flow_children.steps_gather [OF assms(1) s assms(4)] assms(5)
  have "sa_statuses acc = map (\<lambda>step. childStatus step (child step)) (wf_tasks (ko_spec flow))" by simp
  with z reconcileSteps_acc [OF s] wfPhase_acc [of acc] show ?thesis by auto
qed

text \<open>
  Once all its children exist, a Workflow publishes their states: a successful reconcile stores, for
  every step in order, the phase, error, status code and output of the child as the HTTPTask controller left it.
\<close>

theorem workflow_gathers:
  assumes "flow_children cl store idx env tasks" and "store w k = Some flow"
    and "WorkflowReconcile env cl k w = (Ret Done None, w')" and "distinct (map wt_name (wf_tasks (ko_spec flow)))"
    and "\<forall>step \<in> set (wf_tasks (ko_spec flow)). tasks w (ns_of flow, childName flow (wt_name step)) = Some (child step)"
  shows "\<exists>z. store w' k = Some z
    \<and> ws_tasks (ko_status z) = map (\<lambda>step. childStatus step (child step)) (wf_tasks (ko_spec flow))
    \<and> ws_phase (ko_status z) = aggregate (ws_tasks (ko_status z))"
  by (rule gathered_steps [OF assms])

section \<open>Notification\<close>

text \<open>
  \<open>posted\<close> are the requests handed to the HTTP client of the Workflow controller so far, in order: only \<open>we_do\<close> adds to
  them.
\<close>

locale posting_world = workflow_world cl store idx env
  for cl :: "('w, Workflow) kclient" and store :: "'w \<Rightarrow> key \<Rightarrow> Workflow option"
    and idx :: "string \<Rightarrow> Workflow \<Rightarrow> string list" and env :: "'w wfEnv" +
  fixes posted :: "'w \<Rightarrow> HttpRequest list"
  assumes child_quiet: "posted (snd (we_createOrUpdate env k f v)) = posted v"
    and status_quiet: "posted (snd (kStatusUpdate cl x v)) = posted v"
    and do_posted: "posted (snd (we_do env rq v)) = posted v @ [rq]"
begin

lemma steps_quiet: "reconcileSteps env flow steps acc v = (r, v') \<Longrightarrow> posted v' = posted v"
proof (induction steps arbitrary: acc v)
  case (Cons step steps)
  obtain q v1 where q: "we_createOrUpdate env (ns_of flow, childName flow (wt_name step)) (mutateChild env flow step) v = (q, v1)"
    by fastforce
  have "posted v1 = posted v" using child_quiet [of _ _ v] q by (metis snd_conv)
  with Cons q show ?case by (cases q) auto
qed simp

lemma status_posted: "kStatusUpdate cl x v = (r, v') \<Longrightarrow> posted v' = posted v"
  using status_quiet by (metis snd_conv)

lemma notify_posted:
  assumes "notify env flow v = (None, v')"
  obtains body where "we_marshalStatus env (ko_status flow) = Inr body" "posted v' = posted v @ [notifyRequest flow body]"
proof -
  from assms obtain body resp where b: "we_marshalStatus env (ko_status flow) = Inr body"
    and d: "we_do env (notifyRequest flow body) v = (Inr resp, v')"
    by (auto simp: notify_def split: sum.splits option.splits prod.splits if_splits)
  have "posted v' = posted v @ [notifyRequest flow body]" using do_posted [of "notifyRequest flow body" v] d by simp
  with b show thesis by (rule that)
qed

text \<open>A phase that counts as notified is not posted again, however the reconcile ends.\<close>

lemma reconcile_quiet:
  assumes "store w k = Some x" and "ws_notifiedPhase (ko_status x) = p"
    and "\<And>acc w1. reconcileSteps env (withIdentity env x) (wf_tasks (ko_spec x)) noSteps w = (Inr acc, w1) \<Longrightarrow> wfPhase acc = p"
    and "WorkflowReconcile env cl k w = (r, w')"
  shows "posted w' = posted w \<and> (\<exists>z. store w' k = Some z \<and> ws_notifiedPhase (ko_status z) = p)"
proof (cases "kGet cl k w")
  case (Inl e)
  with assms show ?thesis by (auto simp: WorkflowReconcile_def)
next
  case (Inr y)
  then have y: "y = x" using get_current [OF Inr] assms(1) by simp
  obtain a w1 where a: "reconcileSteps env (withIdentity env x) (wf_tasks (ko_spec x)) noSteps w = (a, w1)" by fastforce
  have w1: "posted w1 = posted w" "store w1 = store w" by (rule steps_quiet [OF a], rule steps_frame [OF a])
  show ?thesis
  proof (cases a)
    case (Inl e)
    with assms(1,2,4) Inr y a w1 show ?thesis by (simp add: WorkflowReconcile_def)
  next
    case acc: (Inr acc)
    obtain q w2 where u: "kStatusUpdate cl (withSteps acc (withIdentity env x)) w1 = (q, w2)" by fastforce
    have st: "store w1 (key_of (withSteps acc (withIdentity env x))) = Some x"
      using store_key [OF assms(1)] assms(1) w1(2) by (simp add: withSteps_def withIdentity_def)
    have k: "key_of (withSteps acc (withIdentity env x)) = k"
      using store_key [OF assms(1)] by (simp add: withSteps_def withIdentity_def)
    show ?thesis
    proof (cases q)
      case (Inl e)
      then have "w' = w2" using assms(4) Inr y a acc u by (simp add: WorkflowReconcile_def)
      moreover have "store w2 = store w1" using status_err u Inl by blast
      ultimately show ?thesis using status_posted [OF u] w1 assms(1,2) by simp
    next
      case (Inr z)
      note p = status_stored [OF u [unfolded Inr] st]
      have n: "ws_notifiedPhase (ko_status z) = p" using p(2) assms(2) by (simp add: withSteps_fields withIdentity_fields)
      have "w' = w2"
        using assms(3) [OF a [unfolded acc]] assms(4) \<open>kGet cl k w = Inr y\<close> y a acc u Inr n
        by (simp add: WorkflowReconcile_def notifyIfDue_def)
      with status_posted [OF u] w1 p(6) k n show ?thesis by simp
    qed
  qed
qed

end

text \<open>
  What may follow in the life of the Workflow \<open>k\<close>: a reconcile of it, with any outcome, that finds its steps in phase \<open>p\<close>, or
  anything that neither writes it nor posts for it.
\<close>

definition quiet_or_same :: "'w wfEnv \<Rightarrow> ('w, Workflow) kclient \<Rightarrow> ('w \<Rightarrow> key \<Rightarrow> Workflow option) \<Rightarrow> ('w \<Rightarrow> HttpRequest list)
    \<Rightarrow> key \<Rightarrow> string \<Rightarrow> 'w \<Rightarrow> 'w \<Rightarrow> bool" where
  "quiet_or_same env cl store posted k p v v' \<longleftrightarrow>
     v' = snd (WorkflowReconcile env cl k v)
       \<and> (\<forall>x acc v1. store v k = Some x
            \<longrightarrow> reconcileSteps env (withIdentity env x) (wf_tasks (ko_spec x)) noSteps v = (Inr acc, v1) \<longrightarrow> wfPhase acc = p)
     \<or> store v' k = store v k \<and> posted v' = posted v"

lemma quiet_run:
  assumes "posting_world cl store idx env posted" and "(quiet_or_same env cl store posted k p)\<^sup>*\<^sup>* w w'"
    and "store w k = Some x" and "ws_notifiedPhase (ko_status x) = p"
  shows "posted w' = posted w \<and> (\<exists>z. store w' k = Some z \<and> ws_notifiedPhase (ko_status z) = p)"
  using assms(2)
proof (induction rule: rtranclp_induct)
  case base
  with assms(3,4) show ?case by simp
next
  case (step v v')
  then obtain z where v: "posted v = posted w" and z: "store v k = Some z" "ws_notifiedPhase (ko_status z) = p" by blast
  obtain r v1 where run: "WorkflowReconcile env cl k v = (r, v1)" by fastforce
  from step.hyps(2) consider
      "v' = v1" "\<And>acc u. reconcileSteps env (withIdentity env z) (wf_tasks (ko_spec z)) noSteps v = (Inr acc, u) \<Longrightarrow> wfPhase acc = p"
    | "store v' k = store v k" "posted v' = posted v"
    using run z(1) by (auto simp: quiet_or_same_def)
  then show ?case
  proof cases
    case 1
    from posting_world.reconcile_quiet [OF assms(1) z 1(2) run] v 1(1) show ?thesis by simp
  next
    case 2
    with v z show ?thesis by simp
  qed
qed

lemma first_post:
  assumes "posting_world cl store idx env posted" and "store w k = Some flow" and "wf_notifyURL (ko_spec flow) \<noteq> []"
    and "WorkflowReconcile env cl k w = (Ret Done None, w')" and "store w' k = Some z"
    and "isTerminal (ws_phase (ko_status z))" and "ws_notifiedPhase (ko_status flow) \<noteq> ws_phase (ko_status z)"
  shows "ws_notifiedPhase (ko_status z) = ws_phase (ko_status z)
    \<and> (\<exists>body. we_marshalStatus env ((ko_status z)\<lparr>ws_notifiedPhase := ws_notifiedPhase (ko_status flow)\<rparr>) = Inr body
         \<and> posted w' = posted w @ [notifyRequest flow body])"
proof -
  have world: "workflow_world cl store idx env" using assms(1) by (simp add: posting_world_def)
  have api: "kube_api cl store idx" using world by (simp add: workflow_world_def)
  obtain acc w1 y w2 where s: "reconcileSteps env (withIdentity env flow) (wf_tasks (ko_spec flow)) noSteps w = (Inr acc, w1)"
    and u: "kStatusUpdate cl (withSteps acc (withIdentity env flow)) w1 = (Inr y, w2)"
    and n: "notifyIfDue env cl (wfPhase acc) y w2 = (Ret Done None, w')"
    and y: "store w2 k = Some y" "key_of y = k" "ko_spec y = ko_spec flow"
      "ko_status y = ko_status (withSteps acc (withIdentity env flow))"
    by (rule workflow_world.published [OF world assms(2,4)])
  have before: "posted w2 = posted w"
    using posting_world.steps_quiet [OF assms(1) s] posting_world.status_posted [OF assms(1) u] by simp
  have notified: "ws_notifiedPhase (ko_status y) = ws_notifiedPhase (ko_status flow)"
    using y(4) by (simp add: withSteps_fields withIdentity_fields)
  have yk: "store w2 (key_of y) = Some y" using y(1,2) by simp
  obtain z' where z': "store w' (key_of y) = Some z'" "ko_spec z' = ko_spec y"
      "ko_status z' = ko_status y \<or> ko_status z' = ko_status (markNotified y (wfPhase acc))"
      "isTerminal (wfPhase acc) \<Longrightarrow> wf_notifyURL (ko_spec y) \<noteq> [] \<Longrightarrow> ws_notifiedPhase (ko_status z') = wfPhase acc"
    using notifyIfDue_done [OF api world yk n] by metis
  have zz: "z' = z" using z'(1) assms(5) y(2) by simp
  have ph: "ws_phase (ko_status z) = wfPhase acc"
    using z'(3) y(4) by (auto simp: zz markNotified_def withSteps_fields)
  have due: "isTerminal (wfPhase acc) \<and> wf_notifyURL (ko_spec y) \<noteq> [] \<and> ws_notifiedPhase (ko_status y) \<noteq> wfPhase acc"
    using assms(3,6,7) y(3) ph notified by simp
  then obtain w3 where post: "notify env y w2 = (None, w3)"
    and mark: "\<exists>q. kStatusUpdate cl (markNotified y (wfPhase acc)) w3 = (Inr q, w')"
    using n by (auto simp: notifyIfDue_def split: prod.splits option.splits sum.splits)
  obtain body where body: "we_marshalStatus env (ko_status y) = Inr body" "posted w3 = posted w2 @ [notifyRequest y body]"
    by (rule posting_world.notify_posted [OF assms(1) post])
  have "posted w' = posted w3" using mark posting_world.status_posted [OF assms(1)] by blast
  moreover have "notifyRequest y body = notifyRequest flow body" by (simp add: notifyRequest_def y(3))
  moreover have "(ko_status z)\<lparr>ws_notifiedPhase := ws_notifiedPhase (ko_status flow)\<rparr> = ko_status y"
    using z'(3) notified by (auto simp: zz markNotified_def)
  moreover have "ws_notifiedPhase (ko_status z) = ws_phase (ko_status z)" using z'(4) due ph zz by simp
  ultimately show ?thesis using body before by simp
qed


text \<open>
  C30. A notification that fails is retried: when the status of a Workflow with a notify URL has been updated to a terminal phase not yet
  notified and the endpoint cannot be reached or answers with 300 or more, the reconcile asks to be run again in
  ten seconds, the phase is stored and does not count as notified, so the next reconcile that finds it posts again.
\<close>

theorem workflow_notification_retried:
  assumes "workflow_world cl store idx env" and "kGet cl k w = Inr flow" and "wf_notifyURL (ko_spec flow) \<noteq> []"
    and "reconcileSteps env (withIdentity env flow) (wf_tasks (ko_spec flow)) noSteps w = (Inr acc, w1)"
    and "isTerminal (wfPhase acc)" and "ws_notifiedPhase (ko_status flow) \<noteq> wfPhase acc"
    and "kStatusUpdate cl (withSteps acc (withIdentity env flow)) w1 = (Inr y, w2)"
    and "\<And>rq v resp. fst (we_do env rq v) = Inr resp \<Longrightarrow> sint (hr_status resp) \<ge> 300"
  shows "\<exists>w' z. WorkflowReconcile env cl k w = (Ret (RequeueAfter 10) None, w') \<and> store w' k = Some z
    \<and> ws_phase (ko_status z) = wfPhase acc \<and> ws_notifiedPhase (ko_status z) = ws_notifiedPhase (ko_status flow)"
proof -
  have api: "kube_api cl store idx" using assms(1) by (simp add: workflow_world_def)
  have flow: "store w k = Some flow" by (rule kube_api.get_current [OF api assms(2)])
  have k: "key_of (withSteps acc (withIdentity env flow)) = k"
    using kube_api.store_key [OF api flow] by (simp add: withSteps_def withIdentity_def)
  have "store w1 (key_of (withSteps acc (withIdentity env flow))) = Some flow"
    unfolding k workflow_world.steps_frame [OF assms(1,4)] by (rule flow)
  note y = kube_api.status_stored [OF api assms(7) this]
  have st: "ws_phase (ko_status y) = wfPhase acc" "ws_notifiedPhase (ko_status y) = ws_notifiedPhase (ko_status flow)"
    using y(2) by (simp_all add: withSteps_fields withIdentity_fields)
  obtain q w3 where n: "notify env y w2 = (q, w3)" by fastforce
  have "q \<noteq> None"
  proof
    assume "q = None"
    with n obtain rq resp where "we_do env rq w2 = (Inr resp, w3)" "\<not> sint (hr_status resp) \<ge> 300"
      by (auto simp: notify_def split: sum.splits option.splits prod.splits if_splits)
    with assms(8) [of rq w2 resp] show False by simp
  qed
  then have "WorkflowReconcile env cl k w = (Ret (RequeueAfter 10) None, w3)"
    using assms(2-7) y(3) st(2) n by (auto simp: WorkflowReconcile_def notifyIfDue_def)
  moreover have "store w3 k = Some y" using workflow_world.notify_frame [OF assms(1) n] y(6) k by simp
  ultimately show ?thesis using st by blast
qed

section \<open>The children and the HTTPTask controller\<close>

text \<open>
  C31. The children are wired the way the HTTPTask controller reads them: the child of a step carries, in the
  index that \<open>findDependentTasks\<close> and the deletion check use, the child of every step it takes a
  field from. So an event of the source's child wakes the dependent child, and while the dependent
  child exists the source's child is in use and keeps its finalizer.
\<close>

theorem workflow_children_indexed:
  assumes "ko_spec child = childSpec flow step" and "m \<in> set (wt_inputFrom step)"
    and "key_of source = (ns_of flow, childName flow (wm_sourceStep m))"
    and "kube_api cl store idx" and "idx taskSourceRefIndexKey = taskIndex"
    and "store w (ns_of flow, name_of child) = Some child"
    and "kList cl (Some (ns_of source)) taskSourceRefIndexKey
           (sourceRefIndexValue ''math.example.com/v1alpha1'' ''HTTPTask'' (name_of source)) w = Inr items"
  shows "(ns_of flow, name_of child) \<in> set (findDependentTasks cl source w)
    \<and> taskReferencedByOthers cl (ns_of source) ''math.example.com/v1alpha1'' ''HTTPTask'' (name_of source) w = Inr True"
proof -
  let ?v = "sourceRefIndexValue ''math.example.com/v1alpha1'' ''HTTPTask'' (name_of source)"
  have src: "name_of source = childName flow (wm_sourceStep m)" "ns_of source = ns_of flow" using assms(3) by auto
  have ns: "key_of child = (ns_of flow, name_of child)" using kube_api.store_key [OF assms(4,6)] .
  have "?v \<in> set (taskIndex child)"
    using assms(2) by (force simp: taskIndex_def assms(1) childSpec_def mappedInputFrom_def src(1) SchemeGroupVersion_def)
  then have mem: "child \<in> set items"
    using kube_api.list_current [OF assms(4,7), of child] assms(5,6) ns src(2) by simp
  have "(ns_of flow, name_of child) \<in> set (findDependentTasks cl source w)"
    using mem ns by (force simp: findDependentTasks_def assms(7))
  moreover have "items \<noteq> []" using mem by auto
  ultimately show ?thesis by (simp add: taskReferencedByOthers_def assms(7))
qed

end
