(* ===== verification/Go_Json.thy ===== *)
theory Go_Json
  imports Json
begin

text \<open>
  The text codec of Go's \<open>encoding/json\<close>, as the sources use it: \<open>Marshal\<close> of a value (members in
  the order given: sorted for a map, declaration order for a struct; HTML-escaped strings) and
  \<open>Unmarshal\<close> into \<open>interface{}\<close> (every number a \<open>float64\<close>, last duplicate member wins).
  Numbers follow \<open>strconv\<close>: \<open>parseFloat\<close> rounds a decimal to the nearest double, ties to even;
  \<open>formatFloat\<close> prints the shortest decimal that parses back, in Go's layout.
\<close>

section \<open>Doubles\<close>

text \<open>The double \<open>q * 2 ^ k\<close> for a significand \<open>q < 2 ^ 53\<close> and \<open>k \<ge> -1074\<close>.\<close>

definition float_bits :: "bool \<Rightarrow> int \<Rightarrow> int \<Rightarrow> 64 word" where
  "float_bits neg q k =
     word_of_int ((if neg then 2 ^ 63 else 0)
       + (if q < 2 ^ 52 then q else (k + 1075) * 2 ^ 52 + (q - 2 ^ 52)))"

text \<open>The other way: sign, significand, exponent of a finite double.\<close>

definition unpack_float :: "bool \<Rightarrow> int \<Rightarrow> int \<Rightarrow> bool \<times> int \<times> int" where
  "unpack_float neg b f = (neg, if b = 0 then (f, - 1074) else (2 ^ 52 + f, b - 1075))"

definition float_parts :: "64 word \<Rightarrow> bool \<times> int \<times> int" where
  "float_parts w = unpack_float (2 ^ 63 \<le> uint w) (uint w mod 2 ^ 63 div 2 ^ 52) (uint w mod 2 ^ 52)"

text \<open>\<open>n\<close> scaled by \<open>b ^ k\<close> on the numerator or, for negative \<open>k\<close>, nowhere.\<close>

definition up :: "int \<Rightarrow> int \<Rightarrow> int \<Rightarrow> int" where
  "up b k n = (if k < 0 then n else n * b ^ nat k)"

function log_floor :: "int \<Rightarrow> int \<Rightarrow> int" where
  "log_floor b n = (if b < 2 \<or> n < b then 0 else 1 + log_floor b (n div b))"
  by pat_completeness auto
termination
  by (relation "measure (\<lambda>(b, n). nat n)") (auto simp: nat_less_iff int_div_less_self)

declare log_floor.simps [simp del]

text \<open>\<open>a / b\<close> rounded to the nearest integer, ties to even.\<close>

definition round_qr :: "int \<Rightarrow> int \<Rightarrow> int \<Rightarrow> int" where
  "round_qr b q r = (if 2 * r < b then q else if 2 * r > b then q + 1 else if even q then q else q + 1)"

definition round_div :: "int \<Rightarrow> int \<Rightarrow> int" where
  "round_div a b = round_qr b (a div b) (a mod b)"

text \<open>The exponent \<open>k\<close> with \<open>b ^ k \<le> num / den < b ^ (k + 1)\<close>, from a guess one off at most.\<close>

definition adjust_exp :: "int \<Rightarrow> int \<Rightarrow> int \<Rightarrow> int \<Rightarrow> int" where
  "adjust_exp b num den k = (if up b (- k) num < up b k den then k - 1 else k)"

definition exponent :: "int \<Rightarrow> int \<Rightarrow> int \<Rightarrow> int" where
  "exponent b num den = adjust_exp b num den (log_floor b num - log_floor b den)"

text \<open>The double nearest to \<open>digits * 10 ^ e10\<close>; \<open>None\<close> when out of range.\<close>

definition pack_float :: "bool \<Rightarrow> int \<Rightarrow> int \<Rightarrow> 64 word option" where
  "pack_float neg q k = (if k > 971 then None else Some (float_bits neg q k))"

definition carry_float :: "bool \<Rightarrow> int \<Rightarrow> int \<Rightarrow> 64 word option" where
  "carry_float neg q k = (if q = 2 ^ 53 then pack_float neg (2 ^ 52) (k + 1) else pack_float neg q k)"

definition round_float :: "bool \<Rightarrow> int \<Rightarrow> int \<Rightarrow> int \<Rightarrow> 64 word option" where
  "round_float neg num den k = carry_float neg (round_div (up 2 (- k) num) (up 2 k den)) k"

definition parse_ratio :: "bool \<Rightarrow> int \<Rightarrow> int \<Rightarrow> 64 word option" where
  "parse_ratio neg num den = round_float neg num den (max (exponent 2 num den - 52) (- 1074))"

definition parse_decimal :: "bool \<Rightarrow> int \<Rightarrow> int \<Rightarrow> 64 word option" where
  "parse_decimal neg digits e10 =
     (if digits = 0 then Some (float_bits neg 0 (- 1074))
      else parse_ratio neg (up 10 e10 digits) (up 10 (- e10) 1))"

text \<open>\<open>n\<close> significant digits of \<open>num / den\<close>, whose decimal exponent is \<open>p\<close>.\<close>

definition carry_digits :: "nat \<Rightarrow> int \<Rightarrow> int \<Rightarrow> int \<times> int" where
  "carry_digits n e d = (if d = 10 ^ n then (10 ^ (n - 1), e + 1) else (d, e))"

definition digits_at :: "int \<Rightarrow> int \<Rightarrow> nat \<Rightarrow> int \<Rightarrow> int \<times> int" where
  "digits_at num den n e = carry_digits n e (round_div (up 10 (- e) num) (up 10 e den))"

definition sig_digits :: "int \<Rightarrow> int \<Rightarrow> int \<Rightarrow> nat \<Rightarrow> int \<times> int" where
  "sig_digits num den p n = digits_at num den n (p - int n + 1)"

text \<open>The shortest digits that parse back: \<open>n\<close> from 1 up to 17.\<close>

fun shortest :: "nat list \<Rightarrow> bool \<Rightarrow> int \<Rightarrow> int \<Rightarrow> int \<Rightarrow> 64 word \<Rightarrow> int \<times> int" where
  "shortest [] neg num den p w = sig_digits num den p 17"
| "shortest (n # ns) neg num den p w =
     (case sig_digits num den p n of (d, e) \<Rightarrow>
        if parse_decimal neg d e = Some w then (d, e) else shortest ns neg num den p w)"

definition zeros :: "int \<Rightarrow> string" where
  "zeros n = replicate (nat n) (CHR ''0'')"

text \<open>Trailing zeros of the digits belong to the exponent.\<close>

fun strip_zeros :: "nat \<Rightarrow> int \<Rightarrow> int \<Rightarrow> int \<times> int" where
  "strip_zeros 0 d e = (d, e)"
| "strip_zeros (Suc f) d e = (if d \<noteq> 0 \<and> d mod 10 = 0 then strip_zeros f (d div 10) (e + 1) else (d, e))"

definition point_at :: "string \<Rightarrow> int \<Rightarrow> int \<Rightarrow> string" where
  "point_at ds n e =
     (if 0 \<le> e then ds @ zeros e
      else if 0 < n + e then take (nat (n + e)) ds @ ''.'' @ drop (nat (n + e)) ds
      else ''0.'' @ zeros (- (n + e)) @ ds)"

definition layout_f :: "string \<Rightarrow> int \<Rightarrow> string" where
  "layout_f ds e = point_at ds (int (length ds)) e"

definition exp_text :: "int \<Rightarrow> string" where
  "exp_text x = ''e'' @ (if x < 0 then ''-'' else ''+'') @ dec_int \<bar>x\<bar>"

definition layout_e :: "string \<Rightarrow> int \<Rightarrow> string" where
  "layout_e ds e = take 1 ds @ (if length ds = 1 then [] else ''.'' @ drop 1 ds)
     @ exp_text (e + int (length ds) - 1)"

definition layout_ratio :: "bool \<Rightarrow> int \<Rightarrow> int \<Rightarrow> 64 word \<Rightarrow> string" where
  "layout_ratio neg num den w =
     (case shortest [1, 2, 3, 4, 5, 6, 7, 8, 9, 10, 11, 12, 13, 14, 15, 16, 17] neg num den (exponent 10 num den) w of
        (d0, e0) \<Rightarrow> (case strip_zeros 17 d0 e0 of
          (d, e) \<Rightarrow> (if num * 10 ^ 6 < den \<or> den * 10 ^ 21 \<le> num then layout_e (dec_int d) e
                     else layout_f (dec_int d) e)))"

definition formatFloat :: "64 word \<Rightarrow> string" where
  "formatFloat w = (case float_parts w of (neg, q, k) \<Rightarrow>
     (if neg then ''-'' else []) @ (if q = 0 then ''0'' else layout_ratio neg (up 2 k q) (up 2 (- k) 1) w))"

section \<open>Encoding\<close>

definition cont :: "nat \<Rightarrow> bool" where
  "cont b \<longleftrightarrow> 128 \<le> b \<and> b < 192"

definition is_ascii :: "char \<Rightarrow> bool" where
  "is_ascii c \<longleftrightarrow> \<not> digit7 c"

definition is_control :: "char \<Rightarrow> bool" where
  "is_control c \<longleftrightarrow> \<not> (digit7 c \<or> digit6 c \<or> digit5 c)"

text \<open>The length of the well-formed UTF-8 sequence at the front (surrogates and overlong forms are
  not well-formed); 0 when there is none.\<close>

definition multi_len :: "nat list \<Rightarrow> nat" where
  "multi_len bytes = (case bytes of
       [] \<Rightarrow> 0
     | b0 # bs \<Rightarrow>
        if 194 \<le> b0 \<and> b0 < 224 then (case bs of b1 # _ \<Rightarrow> if cont b1 then 2 else 0 | _ \<Rightarrow> 0)
        else if 224 \<le> b0 \<and> b0 < 240 then
          (case bs of b1 # b2 # _ \<Rightarrow>
             if cont b1 \<and> cont b2 \<and> (b0 = 224 \<longrightarrow> 160 \<le> b1) \<and> (b0 = 237 \<longrightarrow> b1 < 160) then 3 else 0
           | _ \<Rightarrow> 0)
        else if 240 \<le> b0 \<and> b0 < 245 then
          (case bs of b1 # b2 # b3 # _ \<Rightarrow>
             if cont b1 \<and> cont b2 \<and> cont b3 \<and> (b0 = 240 \<longrightarrow> 144 \<le> b1) \<and> (b0 = 244 \<longrightarrow> b1 < 144) then 4 else 0
           | _ \<Rightarrow> 0)
        else 0)"

definition utf8_len :: "string \<Rightarrow> nat" where
  "utf8_len s = (case s of
       [] \<Rightarrow> 0
     | c # r \<Rightarrow> if is_ascii c then 1 else multi_len (map of_char (c # take 3 r)))"

definition bslash :: char where
  "bslash = CHR 0x5C"

definition dquote :: char where
  "dquote = CHR 0x22"

definition hex4 :: "nat \<Rightarrow> string" where
  "hex4 n = [hex_digit (n div 4096 mod 16), hex_digit (n div 256 mod 16),
             hex_digit (n div 16 mod 16), hex_digit (n mod 16)]"

definition encByte :: "char \<Rightarrow> nat \<Rightarrow> string" where
  "encByte c n =
     (if n = 34 \<or> n = 92 then [bslash, c]
     else if n = 8 then [bslash, CHR ''b'']
     else if n = 12 then [bslash, CHR ''f'']
     else if n = 10 then [bslash, CHR ''n'']
     else if n = 13 then [bslash, CHR ''r'']
     else if n = 9 then [bslash, CHR ''t'']
     else if n < 32 \<or> n = 60 \<or> n = 62 \<or> n = 38 then bslash # CHR ''u'' # hex4 n
     else [c])"

definition encAscii :: "char \<Rightarrow> string" where
  "encAscii c = (if digit6 c \<and> c \<noteq> bslash then [c] else encByte c (of_char c))"

text \<open>One step of the encoder: what it writes and how many bytes it has consumed.\<close>

definition encStep :: "string \<Rightarrow> string \<times> nat" where
  "encStep s = (case utf8_len s of
       0 \<Rightarrow> (bslash # ''ufffd'', 1)
     | Suc 0 \<Rightarrow> (encAscii (hd s), 1)
     | n \<Rightarrow> (if take 3 s = map char_of [226::nat, 128, 168] then (bslash # ''u2028'', 3)
            else if take 3 s = map char_of [226::nat, 128, 169] then (bslash # ''u2029'', 3)
            else (take n s, n)))"

fun encChars :: "nat \<Rightarrow> string \<Rightarrow> string" where
  "encChars f [] = []"
| "encChars 0 s = []"
| "encChars (Suc f) s = (case encStep s of (out, n) \<Rightarrow> out @ encChars f (drop n s))"

definition encString :: "string \<Rightarrow> string" where
  "encString s = dquote # encChars (length s) s @ [dquote]"

fun encNum :: "gonum \<Rightarrow> string" where
  "encNum (Int64 n) = dec_int (sint n)"
| "encNum (Float64 w) = formatFloat w"

fun enc :: "json \<Rightarrow> string"
and encElems :: "json list \<Rightarrow> string"
and encMembers :: "(string \<times> json) list \<Rightarrow> string" where
  "enc JNull = ''null''"
| "enc (JBool b) = (if b then ''true'' else ''false'')"
| "enc (JNum n) = encNum n"
| "enc (JStr s) = encString s"
| "enc (JArr xs) = ''['' @ encElems xs @ '']''"
| "enc (JObj m) = ''{'' @ encMembers m @ ''}''"
| "encElems [] = []"
| "encElems (x # xs) = enc x @ (if xs = [] then [] else '','' @ encElems xs)"
| "encMembers [] = []"
| "encMembers ((k, x) # m) = encString k @ '':'' @ enc x @ (if m = [] then [] else '','' @ encMembers m)"

section \<open>Decoding\<close>

definition is_ws :: "char \<Rightarrow> bool" where
  "is_ws c \<longleftrightarrow> c = CHR 0x20 \<or> c = CHR 0x09 \<or> c = CHR 0x0A \<or> c = CHR 0x0D"

definition skip_ws :: "string \<Rightarrow> string" where
  "skip_ws s = dropWhile is_ws s"

definition is_digit :: "char \<Rightarrow> bool" where
  "is_digit c \<longleftrightarrow> 48 \<le> (of_char c :: nat) \<and> (of_char c :: nat) \<le> 57"

definition digit_val :: "char \<Rightarrow> int" where
  "digit_val c = of_char c - 48"

definition digits_val :: "string \<Rightarrow> int" where
  "digits_val ds = foldl (\<lambda>n c. n * 10 + digit_val c) 0 ds"

definition hex_code :: "nat \<Rightarrow> nat option" where
  "hex_code n =
     (if 48 \<le> n \<and> n \<le> 57 then Some (n - 48)
     else if 97 \<le> n \<and> n \<le> 102 then Some (n - 87)
     else if 65 \<le> n \<and> n \<le> 70 then Some (n - 55) else None)"

definition hex_val :: "char \<Rightarrow> nat option" where
  "hex_val c = hex_code (of_char c)"

fun hex4_val :: "string \<Rightarrow> nat option" where
  "hex4_val (a # b # c # d # s) = (case (hex_val a, hex_val b, hex_val c, hex_val d) of
     (Some w, Some x, Some y, Some z) \<Rightarrow> Some (4096 * w + 256 * x + 16 * y + z) | _ \<Rightarrow> None)"
| "hex4_val _ = None"

definition utf8_enc :: "nat \<Rightarrow> string" where
  "utf8_enc n =
     (if n < 128 then [char_of n]
      else if n < 2048 then [char_of (192 + n div 64), char_of (128 + n mod 64)]
      else if n < 65536 then [char_of (224 + n div 4096), char_of (128 + n div 64 mod 64), char_of (128 + n mod 64)]
      else [char_of (240 + n div 262144), char_of (128 + n div 4096 mod 64),
            char_of (128 + n div 64 mod 64), char_of (128 + n mod 64)])"

text \<open>After \<open>\u\<close>: a surrogate pair is one rune, a lone surrogate is U+FFFD.\<close>

definition decSurrogate :: "nat \<Rightarrow> string \<Rightarrow> string \<times> string" where
  "decSurrogate n rest = (case rest of
       b # u # rest1 \<Rightarrow>
         (if b = bslash \<and> u = CHR ''u'' then
            (case hex4_val rest1 of
               Some n2 \<Rightarrow> (if n < 56320 \<and> 56320 \<le> n2 \<and> n2 < 57344
                          then (utf8_enc (65536 + (n - 55296) * 1024 + (n2 - 56320)), drop 4 rest1)
                          else (utf8_enc 65533, rest))
             | None \<Rightarrow> (utf8_enc 65533, rest))
          else (utf8_enc 65533, rest))
     | _ \<Rightarrow> (utf8_enc 65533, rest))"

definition decUnicode :: "string \<Rightarrow> (string \<times> string) option" where
  "decUnicode s = (case hex4_val s of
     None \<Rightarrow> None
   | Some n \<Rightarrow> Some (if 55296 \<le> n \<and> n < 57344 then decSurrogate n (drop 4 s) else (utf8_enc n, drop 4 s)))"

definition decEscape :: "string \<Rightarrow> (string \<times> string) option" where
  "decEscape s = (case s of
     [] \<Rightarrow> None
   | c # rest \<Rightarrow>
      if c = dquote \<or> c = bslash \<or> c = CHR ''/'' then Some ([c], rest)
      else if c = CHR ''b'' then Some ([CHR 0x08], rest)
      else if c = CHR ''f'' then Some ([CHR 0x0C], rest)
      else if c = CHR ''n'' then Some ([CHR 0x0A], rest)
      else if c = CHR ''r'' then Some ([CHR 0x0D], rest)
      else if c = CHR ''t'' then Some ([CHR 0x09], rest)
      else if c = CHR ''u'' then decUnicode rest
      else None)"

text \<open>The characters of a string up to its closing quote.\<close>

fun decChars :: "nat \<Rightarrow> string \<Rightarrow> (string \<times> string) option" where
  "decChars 0 s = None"
| "decChars (Suc f) [] = None"
| "decChars (Suc f) (c # s) =
     (if c = dquote then Some ([], s)
      else if c = bslash then
        (case decEscape s of None \<Rightarrow> None
         | Some (out, s1) \<Rightarrow> map_option (\<lambda>(r, s2). (out @ r, s2)) (decChars f s1))
      else if is_control c then None
      else (case utf8_len (c # s) of
              0 \<Rightarrow> map_option (\<lambda>(r, s2). (utf8_enc 65533 @ r, s2)) (decChars f s)
            | n \<Rightarrow> map_option (\<lambda>(r, s2). (take n (c # s) @ r, s2)) (decChars f (drop n (c # s)))))"

definition parseString :: "string \<Rightarrow> (string \<times> string) option" where
  "parseString s = decChars (Suc (length s)) s"

text \<open>
  A number literal, by the grammar of JSON (sign, integer part, fraction, exponent), then
  \<open>strconv.ParseFloat\<close>.
\<close>

definition decSign :: "string \<Rightarrow> bool \<times> string" where
  "decSign s = (case s of [] \<Rightarrow> (False, s) | c # r \<Rightarrow> if c = CHR ''-'' then (True, r) else (False, s))"

definition decInt :: "string \<Rightarrow> (string \<times> string) option" where
  "decInt s = (case takeWhile is_digit s of
     [] \<Rightarrow> None
   | d # ds \<Rightarrow> if d = CHR ''0'' \<and> ds \<noteq> [] then None else Some (d # ds, dropWhile is_digit s))"

definition decFrac :: "string \<Rightarrow> (string \<times> string) option" where
  "decFrac s = (case s of
     [] \<Rightarrow> Some ([], s)
   | c # r \<Rightarrow> if c = CHR ''.''
              then (if takeWhile is_digit r = [] then None else Some (takeWhile is_digit r, dropWhile is_digit r))
              else Some ([], s))"

definition decExpSign :: "string \<Rightarrow> bool \<times> string" where
  "decExpSign s = (case s of [] \<Rightarrow> (False, s)
     | c # r \<Rightarrow> if c = CHR ''-'' then (True, r) else if c = CHR ''+'' then (False, r) else (False, s))"

definition decExp :: "string \<Rightarrow> (int \<times> string) option" where
  "decExp s = (case s of
     [] \<Rightarrow> Some (0, s)
   | c # r \<Rightarrow> if c = CHR ''e'' \<or> c = CHR ''E''
              then (case decExpSign r of (neg, r1) \<Rightarrow>
                     if takeWhile is_digit r1 = [] then None
                     else Some (if neg then - digits_val (takeWhile is_digit r1)
                                else digits_val (takeWhile is_digit r1), dropWhile is_digit r1))
              else Some (0, s))"

definition decNumber :: "string \<Rightarrow> (json \<times> string) option" where
  "decNumber s = (case decSign s of (neg, s1) \<Rightarrow>
     (case decInt s1 of None \<Rightarrow> None | Some (ip, s2) \<Rightarrow>
     (case decFrac s2 of None \<Rightarrow> None | Some (fp, s3) \<Rightarrow>
     (case decExp s3 of None \<Rightarrow> None | Some (ex, s4) \<Rightarrow>
     (case parse_decimal neg (digits_val (ip @ fp)) (ex - int (length fp)) of
        None \<Rightarrow> None
      | Some w \<Rightarrow> Some (JNum (Float64 w), s4))))))"

text \<open>
  The value parser; the fuel bounds the nesting and the number of elements, and the length of the
  text is enough of it.
\<close>

fun dec :: "nat \<Rightarrow> string \<Rightarrow> (json \<times> string) option"
and decElems :: "nat \<Rightarrow> string \<Rightarrow> (json list \<times> string) option"
and decMembers :: "nat \<Rightarrow> string \<Rightarrow> ((string \<times> json) list \<times> string) option" where
  "dec 0 s = None"
| "dec (Suc f) s = (case skip_ws s of
     [] \<Rightarrow> None
   | c # r \<Rightarrow>
      if c = CHR ''{'' then
        (case skip_ws r of
           [] \<Rightarrow> None
         | d # r1 \<Rightarrow> if d = CHR ''}'' then Some (JObj [], r1)
                    else map_option (\<lambda>(m, s1). (JObj (kv_of m), s1)) (decMembers f r))
      else if c = CHR ''['' then
        (case skip_ws r of
           [] \<Rightarrow> None
         | d # r1 \<Rightarrow> if d = CHR '']'' then Some (JArr [], r1)
                    else map_option (\<lambda>(xs, s1). (JArr xs, s1)) (decElems f r))
      else if c = dquote then map_option (\<lambda>(str, s1). (JStr str, s1)) (parseString r)
      else if prefix ''null'' (c # r) then Some (JNull, drop 4 (c # r))
      else if prefix ''true'' (c # r) then Some (JBool True, drop 4 (c # r))
      else if prefix ''false'' (c # r) then Some (JBool False, drop 5 (c # r))
      else decNumber (c # r))"
| "decElems 0 s = None"
| "decElems (Suc f) s = (case dec f s of
     None \<Rightarrow> None
   | Some (x, s1) \<Rightarrow> (case skip_ws s1 of
       [] \<Rightarrow> None
     | d # s2 \<Rightarrow> if d = CHR '','' then map_option (\<lambda>(xs, s3). (x # xs, s3)) (decElems f s2)
                else if d = CHR '']'' then Some ([x], s2) else None))"
| "decMembers 0 s = None"
| "decMembers (Suc f) s = (case skip_ws s of
     [] \<Rightarrow> None
   | q # r \<Rightarrow> if q \<noteq> dquote then None
      else (case parseString r of
        None \<Rightarrow> None
      | Some (k, s1) \<Rightarrow> (case skip_ws s1 of
          [] \<Rightarrow> None
        | d # s2 \<Rightarrow> if d \<noteq> CHR '':'' then None
           else (case dec f s2 of
             None \<Rightarrow> None
           | Some (x, s3) \<Rightarrow> (case skip_ws s3 of
               [] \<Rightarrow> None
             | e # s4 \<Rightarrow> if e = CHR '','' then map_option (\<lambda>(m, s5). ((k, x) # m, s5)) (decMembers f s4)
                        else if e = CHR ''}'' then Some ([(k, x)], s4) else None)))))"

definition decode :: "string \<Rightarrow> goerr + json" where
  "decode s = (case dec (Suc (length s)) s of
     None \<Rightarrow> Inl (GoErr (if skip_ws s = [] then ''unexpected end of JSON input'' else ''invalid JSON''))
   | Some (j, r) \<Rightarrow> if skip_ws r = [] then Inr j else Inl (GoErr ''invalid character after top-level value''))"

definition go_codec :: codec where
  "go_codec = \<lparr>marshal = (\<lambda>j. Inr (enc j)), unmarshal = decode\<rparr>"

end
