(* ===== verification/Kube_Demo.thy ===== *)
theory Kube_Demo
  imports Kube_Ref Add_Ctl Subtract_Ctl Square_Ctl HTTPTask_Props Workflow_Props Status_Server Go_Json
begin

text \<open>
  A cluster in memory with a table per kind, the interpretations of the interfaces of the
  controllers on it, and concrete runs of the reconcilers at which their properties are exercised.
\<close>

section \<open>The cluster\<close>

record cluster =
  cw_adds :: "(AddSpec, AddStatus) table"
  cw_subtracts :: "(SubtractSpec, SubtractStatus) table"
  cw_squares :: "(SquareSpec, SquareStatus) table"
  cw_tasks :: "(HTTPTaskSpec, HTTPTaskStatus) table"
  cw_flows :: "(WorkflowSpec, WorkflowStatus) table"
  cw_sent :: "HttpRequest list"

definition noIndex :: "string \<Rightarrow> ('sp, 'st) kobj \<Rightarrow> string list" where
  "noIndex ik x = []"

definition squareIdx :: "string \<Rightarrow> Square \<Rightarrow> string list" where
  "squareIdx ik x = (if ik = sourceRefIndexKey then squareIndex x else [])"

definition taskIdx :: "string \<Rightarrow> HTTPTask \<Rightarrow> string list" where
  "taskIdx ik x = (if ik = taskSourceRefIndexKey then taskIndex x else [])"

definition flowIdx :: "string \<Rightarrow> Workflow \<Rightarrow> string list" where
  "flowIdx ik x = (if ik = TransactionIndexKey then workflowIndex x else [])"

definition refAdds :: "(cluster, Add) kclient" where
  "refAdds = tableClient noIndex cw_adds (\<lambda>t w. w\<lparr>cw_adds := t\<rparr>)"

definition refSubtracts :: "(cluster, Subtract) kclient" where
  "refSubtracts = tableClient noIndex cw_subtracts (\<lambda>t w. w\<lparr>cw_subtracts := t\<rparr>)"

definition refSquares :: "(cluster, Square) kclient" where
  "refSquares = tableClient squareIdx cw_squares (\<lambda>t w. w\<lparr>cw_squares := t\<rparr>)"

definition refTasks :: "(cluster, HTTPTask) kclient" where
  "refTasks = tableClient taskIdx cw_tasks (\<lambda>t w. w\<lparr>cw_tasks := t\<rparr>)"

definition refFlows :: "(cluster, Workflow) kclient" where
  "refFlows = tableClient flowIdx cw_flows (\<lambda>t w. w\<lparr>cw_flows := t\<rparr>)"

abbreviation addsOf :: "cluster \<Rightarrow> key \<Rightarrow> Add option" where "addsOf w \<equiv> findObj (tb_objs (cw_adds w))"
abbreviation subtractsOf :: "cluster \<Rightarrow> key \<Rightarrow> Subtract option" where "subtractsOf w \<equiv> findObj (tb_objs (cw_subtracts w))"
abbreviation squaresOf :: "cluster \<Rightarrow> key \<Rightarrow> Square option" where "squaresOf w \<equiv> findObj (tb_objs (cw_squares w))"
abbreviation tasksOf :: "cluster \<Rightarrow> key \<Rightarrow> HTTPTask option" where "tasksOf w \<equiv> findObj (tb_objs (cw_tasks w))"
abbreviation flowsOf :: "cluster \<Rightarrow> key \<Rightarrow> Workflow option" where "flowsOf w \<equiv> findObj (tb_objs (cw_flows w))"

section \<open>Interpretations\<close>

interpretation adds: kube_api refAdds addsOf noIndex
  unfolding refAdds_def by (rule tableClient_api) simp

interpretation subtracts: kube_api refSubtracts subtractsOf noIndex
  unfolding refSubtracts_def by (rule tableClient_api) simp

interpretation squares: kube_api refSquares squaresOf squareIdx
  unfolding refSquares_def by (rule tableClient_api) simp

interpretation tasks: kube_api refTasks tasksOf taskIdx
  unfolding refTasks_def by (rule tableClient_api) simp

interpretation flows: kube_api refFlows flowsOf flowIdx
  unfolding refFlows_def by (rule tableClient_api) simp

interpretation add_kind: calc_kind refUtil refAdds addsOf noIndex inUseFinalizer "addInUse refSquares"
    addValue ad_result "addStatus refUtil"
  by (rule add_calc_kind) unfold_locales

interpretation subtract_kind: calc_kind refUtil refSubtracts subtractsOf noIndex inUseFinalizer "subtractInUse refSquares"
    subtractValue sb_result "subtractStatus refUtil"
  by (rule subtract_calc_kind) unfold_locales

section \<open>Objects\<close>

definition demoMeta :: "string \<Rightarrow> bool \<Rightarrow> string list \<Rightarrow> ObjectMeta" where
  "demoMeta n del fins = \<lparr>om_name = n, om_namespace = ''ns'', om_uid = ''u-'' @ n, om_generation = 1,
     om_resourceVersion = ''1'', om_deleted = del, om_finalizers = fins, om_controller = None\<rparr>"

definition tableWith :: "('sp, 'st) kobj list \<Rightarrow> ('sp, 'st) table" where
  "tableWith xs = \<lparr>tb_objs = xs, tb_version = 2\<rparr>"

definition emptyCluster :: cluster where
  "emptyCluster = \<lparr>cw_adds = tableWith [], cw_subtracts = tableWith [], cw_squares = tableWith [],
     cw_tasks = tableWith [], cw_flows = tableWith [], cw_sent = []\<rparr>"

definition demoAdd :: "bool \<Rightarrow> string list \<Rightarrow> Add" where
  "demoAdd del fins = \<lparr>ko_meta = demoMeta ''a'' del fins, ko_spec = \<lparr>ad_x = 2147483647, ad_y = 1\<rparr>,
     ko_status = \<lparr>ad_result = None, ad_conditions = []\<rparr>\<rparr>"

definition demoSubtract :: "bool \<Rightarrow> string list \<Rightarrow> Subtract" where
  "demoSubtract del fins = \<lparr>ko_meta = demoMeta ''s'' del fins, ko_spec = \<lparr>sb_x = 3, sb_y = 5\<rparr>,
     ko_status = \<lparr>sb_result = None, sb_conditions = []\<rparr>\<rparr>"

definition demoSquare :: "string \<Rightarrow> string \<Rightarrow> SquareStatus \<Rightarrow> Square" where
  "demoSquare kind n st = \<lparr>ko_meta = demoMeta ''q'' False [],
     ko_spec = \<lparr>sq_sourceRef = \<lparr>sr_apiVersion = SchemeGroupVersion, sr_kind = kind, sr_name = n\<rparr>\<rparr>,
     ko_status = st\<rparr>"

definition addWorld :: "bool \<Rightarrow> string list \<Rightarrow> Square list \<Rightarrow> cluster" where
  "addWorld del fins sqs = emptyCluster\<lparr>cw_adds := tableWith [demoAdd del fins], cw_squares := tableWith sqs\<rparr>"

definition subtractWorld :: "bool \<Rightarrow> string list \<Rightarrow> Square list \<Rightarrow> cluster" where
  "subtractWorld del fins sqs = emptyCluster\<lparr>cw_subtracts := tableWith [demoSubtract del fins], cw_squares := tableWith sqs\<rparr>"

lemma squareIdx_key: "squareIdx sourceRefIndexKey = squareIndex"
  by (simp add: fun_eq_iff squareIdx_def)

lemma taskIdx_key: "taskIdx taskSourceRefIndexKey = taskIndex"
  by (simp add: fun_eq_iff taskIdx_def)

lemma flowIdx_key: "flowIdx TransactionIndexKey = workflowIndex"
  by (simp add: fun_eq_iff flowIdx_def)

section \<open>Add and Subtract\<close>

abbreviation add_run :: "outcome \<times> cluster" where
  "add_run \<equiv> AddReconcile refUtil refAdds refSquares (''ns'', ''a'') (addWorld False [] [])"

lemma add_run_done: "fst add_run = Ret Done None"
  by code_simp

lemma addsOf_world: "addsOf (addWorld del fins sqs) (''ns'', ''a'') = Some (demoAdd del fins)"
  by (simp add: addWorld_def tableWith_def demoAdd_def demoMeta_def)

theorem add_reconciled_witness:
  "\<exists>y. addsOf (snd add_run) (''ns'', ''a'') = Some y \<and> ad_result (ko_status y) = Some (- 2147483648)"
proof -
  have "add_run = (Ret Done None, snd add_run)" by (metis add_run_done prod.collapse)
  from add_reconciled [OF ref_util.kube_util_axioms adds.kube_api_axioms addsOf_world _ this]
  show ?thesis by (auto simp: demoAdd_def demoMeta_def)
qed


abbreviation add_blocked :: cluster where
  "add_blocked \<equiv> addWorld True [inUseFinalizer] [demoSquare ''Add'' ''a'' \<lparr>sq_result = None, sq_conditions = []\<rparr>]"

theorem add_deletion_blocked_witness:
  "snd (AddReconcile refUtil refAdds refSquares (''ns'', ''a'') add_blocked) = add_blocked"
proof (rule add_deletion_blocked [OF ref_util.kube_util_axioms adds.kube_api_axioms
      squares.kube_api_axioms squareIdx_key addsOf_world])
  show "squaresOf add_blocked (''ns'', ''q'') = Some (demoSquare ''Add'' ''a'' \<lparr>sq_result = None, sq_conditions = []\<rparr>)"
    by (simp add: addWorld_def tableWith_def demoSquare_def demoMeta_def)
qed (simp_all add: demoAdd_def demoMeta_def demoSquare_def sourceRefIs_def)

abbreviation add_free :: "outcome \<times> cluster" where
  "add_free \<equiv> AddReconcile refUtil refAdds refSquares (''ns'', ''a'') (addWorld True [inUseFinalizer, ''other''] [])"

lemma add_free_done: "fst add_free = Ret Done None"
  by code_simp

theorem add_deletion_released_witness:
  "case addsOf (snd add_free) (''ns'', ''a'') of None \<Rightarrow> True | Some y \<Rightarrow> inUseFinalizer \<notin> set (finalizers_of y)"
proof (rule add_deletion_released [OF ref_util.kube_util_axioms adds.kube_api_axioms
      squares.kube_api_axioms squareIdx_key addsOf_world])
  show "add_free = (Ret Done None, snd add_free)" by (metis add_free_done prod.collapse)
qed (simp_all add: demoAdd_def demoMeta_def addWorld_def tableWith_def)

abbreviation subtract_run :: "outcome \<times> cluster" where
  "subtract_run \<equiv> SubtractReconcile refUtil refSubtracts refSquares (''ns'', ''s'') (subtractWorld False [] [])"

lemma subtract_run_done: "fst subtract_run = Ret Done None"
  by code_simp

lemma subtractsOf_world: "subtractsOf (subtractWorld del fins sqs) (''ns'', ''s'') = Some (demoSubtract del fins)"
  by (simp add: subtractWorld_def tableWith_def demoSubtract_def demoMeta_def)

theorem subtract_reconciled_witness:
  "\<exists>y. subtractsOf (snd subtract_run) (''ns'', ''s'') = Some y \<and> sb_result (ko_status y) = Some (- 2)"
proof -
  have "subtract_run = (Ret Done None, snd subtract_run)" by (metis subtract_run_done prod.collapse)
  from subtract_reconciled [OF ref_util.kube_util_axioms subtracts.kube_api_axioms subtractsOf_world _ this]
  show ?thesis by (auto simp: demoSubtract_def demoMeta_def)
qed

abbreviation subtract_blocked :: cluster where
  "subtract_blocked \<equiv> subtractWorld True [inUseFinalizer] [demoSquare ''Subtract'' ''s'' \<lparr>sq_result = None, sq_conditions = []\<rparr>]"

theorem subtract_deletion_blocked_witness:
  "snd (SubtractReconcile refUtil refSubtracts refSquares (''ns'', ''s'') subtract_blocked) = subtract_blocked"
proof (rule subtract_deletion_blocked [OF ref_util.kube_util_axioms subtracts.kube_api_axioms
      squares.kube_api_axioms squareIdx_key subtractsOf_world])
  show "squaresOf subtract_blocked (''ns'', ''q'') = Some (demoSquare ''Subtract'' ''s'' \<lparr>sq_result = None, sq_conditions = []\<rparr>)"
    by (simp add: subtractWorld_def tableWith_def demoSquare_def demoMeta_def)
qed (simp_all add: demoSubtract_def demoMeta_def demoSquare_def sourceRefIs_def)

abbreviation subtract_free :: "outcome \<times> cluster" where
  "subtract_free \<equiv> SubtractReconcile refUtil refSubtracts refSquares (''ns'', ''s'') (subtractWorld True [inUseFinalizer, ''other''] [])"

lemma subtract_free_done: "fst subtract_free = Ret Done None"
  by code_simp

theorem subtract_deletion_released_witness:
  "case subtractsOf (snd subtract_free) (''ns'', ''s'') of None \<Rightarrow> True | Some y \<Rightarrow> inUseFinalizer \<notin> set (finalizers_of y)"
proof (rule subtract_deletion_released [OF ref_util.kube_util_axioms subtracts.kube_api_axioms
      squares.kube_api_axioms squareIdx_key subtractsOf_world])
  show "subtract_free = (Ret Done None, snd subtract_free)" by (metis subtract_free_done prod.collapse)
qed (simp_all add: demoSubtract_def demoMeta_def subtractWorld_def tableWith_def)

section \<open>Square\<close>

text \<open>The apimachinery parameters: group/versions are split at the slash, \<open>status.result\<close> is read by path.\<close>

definition refLib :: schemaLib where
  "refLib = \<lparr>ParseGroupVersion = (\<lambda>s. case split_on CHR ''/'' s of
       [g, v] \<Rightarrow> Inr (g, v) | [v] \<Rightarrow> Inr ([], v) | _ \<Rightarrow> Inl (GoErr ''unexpected GroupVersion string'')),
     gvString = (\<lambda>(g, v). if g = [] then v else g @ ''/'' @ v),
     gvkString = (\<lambda>g. gvk_group g @ ''/'' @ gvk_version g @ '', Kind='' @ gvk_kind g),
     NestedInt64 = (\<lambda>j p. case getPath j p of
       None \<Rightarrow> Inr None | Some (JNum (Int64 n)) \<Rightarrow> Inr (Some n) | _ \<Rightarrow> Inl (GoErr ''not an int64''))\<rparr>"

definition refDyn :: "cluster dynGet" where
  "refDyn gvk k w = (if gvk_kind gvk = ''Add'' then (case addsOf w k of
       None \<Rightarrow> Inl (notFound k)
     | Some x \<Rightarrow> Inr (JObj [(''status'', JObj (case ad_result (ko_status x) of
         None \<Rightarrow> [] | Some r \<Rightarrow> [(''result'', JNum (Int64 (scast r)))]))]))
     else Inl (notFound k))"

definition refMgr :: "cluster manager" where
  "refMgr = \<lparr>RESTMapping = (\<lambda>g w. if gvk_kind g = ''Add'' then None else Some (GoErr ''no match'')),
            ctlWatch = (\<lambda>g w. (None, w))\<rparr>"

definition addGvk :: GroupVersionKind where
  "addGvk = WithKind (''math.example.com'', ''v1alpha1'') ''Add''"

abbreviation watching :: DynamicWatcher where
  "watching \<equiv> NewDynamicWatcher\<lparr>dw_seen := (\<lambda>_. False)(addGvk := True)\<rparr>"

lemma Ensure_demo: "Ensure refMgr addGvk NewDynamicWatcher w = (None, watching, w)"
  by (simp add: Ensure_def refMgr_def addGvk_def WithKind_def NewDynamicWatcher_def)

theorem Ensure_once_witness:
  "Ensure refMgr addGvk NewDynamicWatcher emptyCluster = (None, watching, emptyCluster)
   \<and> EnsureAll refMgr [addGvk] watching emptyCluster = ([None], watching, emptyCluster)
   \<and> Ensure refMgr addGvk watching emptyCluster = (None, watching, emptyCluster)"
proof -
  have e: "Ensure refMgr addGvk NewDynamicWatcher emptyCluster = (None, watching, emptyCluster)" by (rule Ensure_demo)
  have a: "EnsureAll refMgr [addGvk] watching emptyCluster = ([None], watching, emptyCluster)"
    by (simp add: Ensure_noop)
  from Ensure_once [OF e a] e a show ?thesis by simp
qed

definition squareWorld :: "SquareStatus \<Rightarrow> int32 \<Rightarrow> cluster" where
  "squareWorld st r = emptyCluster\<lparr>cw_squares := tableWith [demoSquare ''Add'' ''a'' st],
     cw_adds := tableWith [(demoAdd False [])\<lparr>ko_status := \<lparr>ad_result = Some r, ad_conditions = []\<rparr>\<rparr>]\<rparr>"


abbreviation noResult :: SquareStatus where
  "noResult \<equiv> \<lparr>sq_result = None, sq_conditions = []\<rparr>"

text \<open>49 was published, then the source was away for a while.\<close>

abbreviation notReady :: SquareStatus where
  "notReady \<equiv> \<lparr>sq_result = Some 49, sq_conditions = [\<lparr>co_type = ''Ready'', co_status = ''False'',
     co_reason = ''SourceNotFound'', co_message = [], co_generation = 1\<rparr>]\<rparr>"

abbreviation square_run :: "SquareStatus \<Rightarrow> outcome \<times> DynamicWatcher \<times> cluster" where
  "square_run st \<equiv> SquareReconcile refUtil refLib refDyn refMgr refSquares (''ns'', ''q'') NewDynamicWatcher (squareWorld st 7)"

lemma square_demo:
  "squaresOf (squareWorld st r) (''ns'', ''q'') = Some (demoSquare ''Add'' ''a'' st)"
  by (simp add: squareWorld_def tableWith_def demoSquare_def demoMeta_def)

lemma square_parse:
  "ParseGroupVersion refLib (sr_apiVersion (sq_sourceRef (ko_spec (demoSquare kind n st)))) = Inr (''math.example.com'', ''v1alpha1'')"
  by (simp add: demoSquare_def refLib_def SchemeGroupVersion_def)

lemma square_ensure:
  "Ensure refMgr (WithKind (''math.example.com'', ''v1alpha1'') (sr_kind (sq_sourceRef (ko_spec (demoSquare ''Add'' n st)))))
     NewDynamicWatcher w = (None, watching, w)"
  using Ensure_demo [of w] by (simp add: demoSquare_def addGvk_def)

lemma square_fetch:
  "FetchTaskResult refLib refDyn (fst (''ns'', ''q'')) (sr_apiVersion (sq_sourceRef (ko_spec (demoSquare ''Add'' ''a'' st))))
     (sr_kind (sq_sourceRef (ko_spec (demoSquare ''Add'' ''a'' st)))) (sr_name (sq_sourceRef (ko_spec (demoSquare ''Add'' ''a'' st))))
     (squareWorld st' 7) = Inr (Some 7)"
  by (simp add: FetchTaskResult_def refLib_def SchemeGroupVersion_def demoSquare_def refDyn_def WithKind_def
      squareWorld_def tableWith_def demoAdd_def demoMeta_def)

lemma square_run_done: "fst (square_run noResult) = Ret Done None" "fst (square_run notReady) = Ret Done None"
  by code_simp+

lemma square_run_eq: "fst (square_run st) = Ret Done None \<Longrightarrow>
    square_run st = (Ret Done None, fst (snd (square_run st)), snd (snd (square_run st)))"
  by (metis prod.collapse)

theorem square_reconciled_witness:
  "\<exists>y. squaresOf (snd (snd (square_run noResult))) (''ns'', ''q'') = Some y \<and> sq_result (ko_status y) = Some 49"
proof -
  have "squareResult 7 = 49" by code_simp
  with square_reconciled [OF squares.kube_api_axioms square_demo square_parse square_ensure refl square_fetch
      square_run_eq [OF square_run_done(1)]]
  show ?thesis by auto
qed

theorem square_condition_not_repaired_witness:
  "squaresOf (snd (snd (square_run notReady))) (''ns'', ''q'') = Some (demoSquare ''Add'' ''a'' notReady)
   \<and> findCondition ''Ready'' (sq_conditions notReady) \<noteq> None"
proof -
  have "squareResult 7 = 49" by code_simp
  with square_condition_not_repaired [OF squares.kube_api_axioms square_demo square_parse square_ensure refl square_fetch
      _ square_run_eq [OF square_run_done(2)]]
  show ?thesis using square_demo [of notReady 7] by (simp add: demoSquare_def)
qed

theorem square_events_exact_witness:
  "(''ns'', ''q'') \<in> set (findSquaresForSource refLib refSquares addGvk ''ns'' ''a'' (squareWorld noResult 7))"
proof -
  let ?w = "squareWorld noResult 7"
  let ?v = "sourceRefIndexValue (gvString refLib (gvk_group addGvk, gvk_version addGvk)) (gvk_kind addGvk) ''a''"
  have gv: "gvString refLib (gvk_group addGvk, gvk_version addGvk) = SchemeGroupVersion"
    by (simp add: refLib_def addGvk_def WithKind_def SchemeGroupVersion_def)
  have k: "gvk_kind addGvk = ''Add''" by (simp add: addGvk_def WithKind_def)
  have l: "\<exists>items. kList refSquares (Some ''ns'') sourceRefIndexKey ?v ?w = Inr items"
    by (simp add: refSquares_def tableClient_def tableList_def)
  have plain: "CHR ''/'' \<notin> set (sr_kind (sq_sourceRef (ko_spec sq)))
      \<and> CHR ''/'' \<notin> set (sr_name (sq_sourceRef (ko_spec sq)))" if "squaresOf ?w k = Some sq" for k sq
    using that by (auto simp: squareWorld_def tableWith_def demoSquare_def split: if_splits)
  from l obtain items where l: "kList refSquares (Some ''ns'') sourceRefIndexKey ?v ?w = Inr items" by blast
  have "CHR ''/'' \<notin> set (gvk_kind addGvk)" by (simp add: k)
  from square_events_exact [where ns' = "''ns''" and q = "''q''", OF squares.kube_api_axioms squareIdx_key l _ _ this plain]
  show ?thesis using square_demo [of noResult 7]
    by (simp add: gv k sourceRefIs_def demoSquare_def)
qed

end
