(* ===== verification/Task_Demo.thy ===== *)
theory Task_Demo
  imports Kube_Demo
begin

text \<open>
  Concrete HTTPTasks on the cluster in memory: a source that has answered, a task that reads a field
  of it, and an endpoint that answers every request. SHA-256 stays symbolic in these runs.
\<close>

section \<open>Objects\<close>

definition demoTask :: "string \<Rightarrow> bool \<Rightarrow> string \<Rightarrow> ApiFieldMapping list \<Rightarrow> HTTPTaskStatus \<Rightarrow> HTTPTask" where
  "demoTask n del inp ms st = \<lparr>ko_meta = demoMeta n del [taskInUseFinalizer],
     ko_spec = \<lparr>ht_endpoint = ''http://h/'' @ n, ht_method = [], ht_headers = [], ht_input = inp, ht_inputFrom = ms\<rparr>,
     ko_status = st\<rparr>"

definition taskFrom :: "string \<Rightarrow> string \<Rightarrow> string \<Rightarrow> ApiFieldMapping" where
  "taskFrom n sf tf = \<lparr>am_sourceRef = \<lparr>sr_apiVersion = ''math.example.com/v1alpha1'', sr_kind = ''HTTPTask'', sr_name = n\<rparr>,
     am_sourceField = sf, am_targetField = tf\<rparr>"

definition emptyStatus :: HTTPTaskStatus where
  "emptyStatus = \<lparr>hs_output = [], hs_statusCode = None, hs_observedInputHash = [], hs_conditions = []\<rparr>"

definition sourceTask :: HTTPTask where
  "sourceTask = demoTask ''src'' False [] [] (emptyStatus\<lparr>hs_output := ''{\"s\":\"v\"}''\<rparr>)"

definition dependentTask :: "HTTPTaskStatus \<Rightarrow> HTTPTask" where
  "dependentTask st = demoTask ''t'' False ''{\"k\":\"w\"}'' [taskFrom ''src'' ''s'' ''x.y''] st"

definition taskWorld :: "HTTPTask list \<Rightarrow> cluster" where
  "taskWorld ts = emptyCluster\<lparr>cw_tasks := tableWith ts\<rparr>"

definition refHttp :: "HttpResponse \<Rightarrow> cluster httpEnv" where
  "refHttp resp = \<lparr>he_codec = go_codec, he_newRequest = (\<lambda>m url. None),
     he_do = (\<lambda>rq w. (Inr resp, w\<lparr>cw_sent := cw_sent w @ [rq]\<rparr>)), he_range = (\<lambda>hs. hs)\<rparr>"

definition okResponse :: HttpResponse where
  "okResponse = \<lparr>hr_status = 200, hr_body = Inr ''{}''\<rparr>"

section \<open>The reference server accepts a status computed from the stored object\<close>

lemma table_status_accepts:
  assumes "findObj (tb_objs (get w)) (key_of x) = Some z" and "om_resourceVersion (ko_meta x) = om_resourceVersion (ko_meta z)"
  obtains y w' where "kStatusUpdate (tableClient idx get put) x w = (Inr y, w')"
  using assms by (auto simp: tableClient_def tableStatus_def intro: that)

lemma tasks_status_accepts:
  assumes "tasksOf w (key_of x) = Some z" and "om_resourceVersion (ko_meta x) = om_resourceVersion (ko_meta z)"
  obtains y w' where "kStatusUpdate refTasks x w = (Inr y, w')"
  using table_status_accepts [of cw_tasks w x z taskIdx "\<lambda>t w. w\<lparr>cw_tasks := t\<rparr>"] assms
  unfolding refTasks_def by blast

lemma reconcile_accepted:
  assumes "tasksOf w k = Some task" and "\<not> deleting task" and "taskInUseFinalizer \<in> set (finalizers_of task)"
    and "buildBody go_codec refTasks task w = BodyOk body" and "marshal go_codec (bodyJson body) = Inr bytes"
    and "hs_output (ko_status task) = []" and "hr_body resp = Inr out"
  shows "fst (HTTPTaskReconcile refUtil (refHttp resp) refTasks k w) = Ret Done None"
proof -
  have k: "key_of task = k" by (rule tasks.store_key [OF assms(1)])
  define mark where "mark = setTaskCondition refUtil
    (taskCondition task ''False'' ''Running'' (''calling '' @ ht_endpoint (ko_spec task))) task"
  have mark: "key_of mark = k" "om_resourceVersion (ko_meta mark) = om_resourceVersion (ko_meta task)"
    using k by (simp_all add: mark_def setTaskCondition_def)
  have st: "tasksOf w (key_of mark) = Some task" unfolding mark(1) by (rule assms(1))
  from tasks_status_accepts [OF st mark(2)] obtain running w1 where run: "kStatusUpdate refTasks mark w = (Inr running, w1)" .
  have running: "tasksOf w1 k = Some running"
    using tasks.status_stored(6) [OF run st] mark(1) by simp
  have rk: "key_of running = k" by (rule tasks.store_key [OF running])
  define w2 where "w2 = w1\<lparr>cw_sent := cw_sent w1 @ [taskRequest (refHttp resp) running bytes]\<rparr>"
  define rec where "rec = recordResponse refUtil running (sha256hex bytes) (hr_status resp) out"
  have "tasksOf w2 (key_of rec) = Some running" "om_resourceVersion (ko_meta rec) = om_resourceVersion (ko_meta running)"
    using running rk by (simp_all add: w2_def rec_def recordResponse_def setTaskCondition_def)
  from tasks_status_accepts [OF this] obtain y w3 where fin: "kStatusUpdate refTasks rec w2 = (Inr y, w3)" .
  have call: "callEndpoint refUtil (refHttp resp) refTasks running bytes w1 = (Ret Done None, w3)"
    using fin assms(7) by (simp add: callEndpoint_def refHttp_def w2_def rec_def)
  have "sendBody refUtil (refHttp resp) refTasks task bytes w = (Ret Done None, w3)"
    unfolding sendBody_def mark_def [symmetric] using assms(6) run call by simp
  then have "runTaskBody refUtil (refHttp resp) refTasks task w = (Ret Done None, w3)"
    using assms(4,5) by (simp add: runTaskBody_def refHttp_def)
  moreover have "kGet refTasks k w = Inr task"
    using assms(1) by (simp add: refTasks_def tableClient_def tableGet_def)
  ultimately show ?thesis using assms(2,3)
    by (simp add: HTTPTaskReconcile_def ensureFinalizer_def ref_util.contains)
qed

section \<open>The body and the call\<close>

definition sentBytes :: string where
  "sentBytes = ''{\"k\":\"w\",\"x\":{\"y\":\"v\"}}''"

definition demoBody :: jobj where
  "demoBody = [(''k'', JStr ''w''), (''x'', JObj [(''y'', JStr ''v'')])]"

abbreviation bodyWorld :: "HTTPTaskStatus \<Rightarrow> cluster" where
  "bodyWorld st \<equiv> taskWorld [dependentTask st, sourceTask]"

lemma dependent_stored: "tasksOf (bodyWorld st) (''ns'', ''t'') = Some (dependentTask st)"
  by (simp add: taskWorld_def tableWith_def dependentTask_def demoTask_def demoMeta_def)

lemma dependent_live: "\<not> deleting (dependentTask st)" "taskInUseFinalizer \<in> set (finalizers_of (dependentTask st))"
  by (simp_all add: dependentTask_def demoTask_def demoMeta_def)

lemma input_decodes: "unmarshal_map go_codec ''{\"k\":\"w\"}'' = Inr (Some [(''k'', JStr ''w'')])"
  by code_simp

lemma output_decodes: "unmarshal_map go_codec ''{\"s\":\"v\"}'' = Inr (Some [(''s'', JStr ''v'')])"
  by code_simp

lemma body_encodes: "marshal go_codec (JObj demoBody) = Inr sentBytes"
  by code_simp

lemma demo_initial: "initialBody go_codec (dependentTask st) = BodyOk (Some [(''k'', JStr ''w'')])"
  by (simp add: initialBody_def dependentTask_def demoTask_def input_decodes)

lemma demo_source: "kGet refTasks (''ns'', ''src'') (bodyWorld st) = Inr sourceTask"
  by (simp add: refTasks_def tableClient_def tableGet_def taskWorld_def tableWith_def dependentTask_def
      sourceTask_def demoTask_def demoMeta_def)

lemma build_from_source:
  assumes "ko_spec t = ko_spec (dependentTask st)" and "ns_of t = ''ns''"
    and "kGet refTasks (''ns'', ''src'') w = Inr sourceTask"
  shows "buildBody go_codec refTasks t w = BodyOk (Some demoBody)"
proof -
  have "initialBody go_codec t = initialBody go_codec (dependentTask st)"
    by (simp add: initialBody_def assms(1))
  moreover have ms: "ht_inputFrom (ko_spec t) = [taskFrom ''src'' ''s'' ''x.y'']"
    by (simp add: assms(1) dependentTask_def demoTask_def)
  moreover have src: "hs_output (ko_status sourceTask) = ''{\"s\":\"v\"}''"
    by (simp add: sourceTask_def demoTask_def)
  moreover have "getJSONField [(''s'', JStr ''v'')] ''s'' = Some (JStr ''v'')" by code_simp
  moreover have "setJSONField [(''k'', JStr ''w'')] ''x.y'' (JStr ''v'') = demoBody" by code_simp
  ultimately show ?thesis
    by (simp add: buildBody_def demo_initial assms(2,3) output_decodes taskFrom_def)
qed

lemma demo_build: "buildBody go_codec refTasks (dependentTask st) (bodyWorld st') = BodyOk (Some demoBody)"
  by (rule build_from_source [OF refl _ demo_source]) (simp add: dependentTask_def demoTask_def demoMeta_def)

lemma demo_marshal: "marshal go_codec (bodyJson (Some demoBody)) = Inr sentBytes"
  using body_encodes by simp

theorem task_body_fields_witness:
  "\<exists>v. sourceValue go_codec (tasksOf (bodyWorld emptyStatus)) ''ns'' (taskFrom ''src'' ''s'' ''x.y'') v
     \<and> getJSONField demoBody ''x.y'' = Some v"
proof -
  have ms: "ht_inputFrom (ko_spec (dependentTask emptyStatus)) = [taskFrom ''src'' ''s'' ''x.y'']"
      "ns_of (dependentTask emptyStatus) = ''ns''"
    by (simp_all add: dependentTask_def demoTask_def demoMeta_def)
  have "am_targetField (taskFrom ''src'' ''s'' ''x.y'') = ''x.y''" by (simp add: taskFrom_def)
  with task_body_fields [OF tasks.kube_api_axioms demo_initial demo_build [of emptyStatus emptyStatus]]
  show ?thesis by (simp add: ms)
qed

definition sentStatus :: HTTPTaskStatus where
  "sentStatus = \<lparr>hs_output = ''{}'', hs_statusCode = Some 200, hs_observedInputHash = sha256hex sentBytes, hs_conditions = []\<rparr>"

theorem task_same_body_not_sent_witness:
  "snd (HTTPTaskReconcile refUtil (refHttp okResponse) refTasks (''ns'', ''t'') (bodyWorld sentStatus)) = bodyWorld sentStatus"
proof (rule task_same_body_not_sent [OF ref_util.kube_util_axioms tasks.kube_api_axioms dependent_stored dependent_live])
  show "buildBody (he_codec (refHttp okResponse)) refTasks (dependentTask sentStatus) (bodyWorld sentStatus) = BodyOk (Some demoBody)"
    by (simp add: refHttp_def demo_build)
  show "marshal (he_codec (refHttp okResponse)) (bodyJson (Some demoBody)) = Inr sentBytes"
    by (simp add: refHttp_def demo_marshal del: bodyJson.simps)
qed (simp_all add: dependentTask_def demoTask_def sentStatus_def)

abbreviation send_run :: "outcome \<times> cluster" where
  "send_run \<equiv> HTTPTaskReconcile refUtil (refHttp okResponse) refTasks (''ns'', ''t'') (bodyWorld emptyStatus)"

lemma send_run_done: "send_run = (Ret Done None, snd send_run)"
proof -
  have "fst send_run = Ret Done None"
    by (rule reconcile_accepted [OF dependent_stored dependent_live demo_build demo_marshal])
      (simp_all add: dependentTask_def demoTask_def emptyStatus_def okResponse_def)
  then show ?thesis by (metis prod.collapse)
qed

lemma send_facts:
  "buildBody (he_codec (refHttp okResponse)) refTasks (dependentTask emptyStatus) (bodyWorld emptyStatus) = BodyOk (Some demoBody)"
  "marshal (he_codec (refHttp okResponse)) (bodyJson (Some demoBody)) = Inr sentBytes"
  "marshal (he_codec (refHttp okResponse)) (JObj demoBody) = Inr sentBytes"
  "\<not> (hs_observedInputHash (ko_status (dependentTask emptyStatus)) = sha256hex sentBytes
      \<and> hs_output (ko_status (dependentTask emptyStatus)) \<noteq> [])"
  "he_newRequest (refHttp okResponse) (taskMethod (dependentTask emptyStatus)) (ht_endpoint (ko_spec (dependentTask emptyStatus))) = None"
  "\<And>rq v. \<exists>v'. he_do (refHttp okResponse) rq v = (Inr okResponse, v') \<and> tasksOf v' = tasksOf v"
  "hr_body okResponse = Inr ''{}''"
proof -
  show "buildBody (he_codec (refHttp okResponse)) refTasks (dependentTask emptyStatus) (bodyWorld emptyStatus) = BodyOk (Some demoBody)"
    by (simp add: refHttp_def demo_build)
  show "marshal (he_codec (refHttp okResponse)) (bodyJson (Some demoBody)) = Inr sentBytes"
    "marshal (he_codec (refHttp okResponse)) (JObj demoBody) = Inr sentBytes"
    using demo_marshal by (simp_all add: refHttp_def)
qed (simp_all add: refHttp_def dependentTask_def demoTask_def emptyStatus_def okResponse_def)

theorem task_response_recorded_witness:
  "\<exists>y. tasksOf (snd send_run) (''ns'', ''t'') = Some y \<and> hs_output (ko_status y) = ''{}''
     \<and> hs_statusCode (ko_status y) = Some 200 \<and> hs_observedInputHash (ko_status y) = sha256hex sentBytes"
  using task_response_recorded [OF ref_util.kube_util_axioms tasks.kube_api_axioms dependent_stored dependent_live
      send_facts(1,2,4-7) send_run_done]
  by (auto simp: okResponse_def)

theorem task_sent_once_witness:
  "((\<lambda>v. snd (HTTPTaskReconcile refUtil (refHttp okResponse) refTasks (''ns'', ''t'') v)) ^^ 3) (snd send_run) = snd send_run"
proof -
  note laws = ref_util.kube_util_axioms tasks.kube_api_axioms
  obtain y where y: "tasksOf (snd send_run) (''ns'', ''t'') = Some y" "ko_spec y = ko_spec (dependentTask emptyStatus)"
    and frame: "\<And>l. l \<noteq> (''ns'', ''t'') \<Longrightarrow> tasksOf (snd send_run) l = tasksOf (bodyWorld emptyStatus) l"
    using sent_and_recorded [OF laws dependent_stored dependent_live send_facts(1,2,4-7) send_run_done] by metis
  have "tasksOf (bodyWorld emptyStatus) (''ns'', ''src'') = Some sourceTask"
    by (rule tasks.get_current [OF demo_source])
  then have "kGet refTasks (''ns'', ''src'') (snd send_run) = Inr sourceTask"
    using frame [of "(''ns'', ''src'')"] by (simp add: refTasks_def tableClient_def tableGet_def)
  with y tasks.store_key [OF y(1)] have "buildBody go_codec refTasks y (snd send_run) = BodyOk (Some demoBody)"
    by (intro build_from_source) simp_all
  then have "buildBody (he_codec (refHttp okResponse)) refTasks y (snd send_run) = BodyOk (Some demoBody)"
    by (simp add: refHttp_def)
  from task_sent_once [OF laws dependent_stored dependent_live send_facts(1,3-7) send_run_done _ _ y(1) this]
  show ?thesis by (simp add: dependentTask_def demoTask_def demoMeta_def taskFrom_def)
qed

theorem task_no_panic_witness:
  "\<exists>r e. fst (HTTPTaskReconcile refUtil (refHttp okResponse) refTasks (''ns'', ''t'') (bodyWorld emptyStatus)) = Ret r e"
proof (rule task_no_panic [OF _ ref_util.kube_util_axioms tasks.kube_api_axioms])
  fix task assume "tasksOf (bodyWorld emptyStatus) (''ns'', ''t'') = Some task"
  then have "task = dependentTask emptyStatus" using dependent_stored by simp
  then show "ht_input (ko_spec task) = [] \<or> unmarshal_map (he_codec (refHttp okResponse)) (ht_input (ko_spec task)) \<noteq> Inr None"
    by (simp add: refHttp_def dependentTask_def demoTask_def input_decodes)
qed

section \<open>Deletion and events\<close>

text \<open>A task that reads its own output.\<close>

definition selfTask :: HTTPTask where
  "selfTask = demoTask ''me'' True [] [taskFrom ''me'' ''s'' ''x''] emptyStatus"

theorem task_deletion_blocked_witness:
  "snd (HTTPTaskReconcile refUtil (refHttp okResponse) refTasks (''ns'', ''me'') (taskWorld [selfTask])) = taskWorld [selfTask]"
proof -
  have st: "tasksOf (taskWorld [selfTask]) (''ns'', ''me'') = Some selfTask"
    by (simp add: taskWorld_def tableWith_def selfTask_def demoTask_def demoMeta_def)
  have "deleting selfTask" "taskInUseFinalizer \<in> set (finalizers_of selfTask)"
    "taskFrom ''me'' ''s'' ''x'' \<in> set (ht_inputFrom (ko_spec selfTask))"
    "sourceRefIs (am_sourceRef (taskFrom ''me'' ''s'' ''x'')) ''math.example.com/v1alpha1'' ''HTTPTask'' ''me''"
    by (simp_all add: selfTask_def demoTask_def demoMeta_def taskFrom_def sourceRefIs_def)
  from task_deletion_blocked [OF ref_util.kube_util_axioms tasks.kube_api_axioms taskIdx_key st this(1,2) st this(3,4)]
  show ?thesis .
qed

definition loneTask :: HTTPTask where
  "loneTask = demoTask ''l'' True [] [] emptyStatus"

abbreviation lone_run :: "outcome \<times> cluster" where
  "lone_run \<equiv> HTTPTaskReconcile refUtil (refHttp okResponse) refTasks (''ns'', ''l'') (taskWorld [loneTask])"

lemma lone_run_done: "lone_run = (Ret Done None, snd lone_run)"
proof -
  have "fst lone_run = Ret Done None"
    by (simp add: HTTPTaskReconcile_def handleDeletion_def taskReferencedByOthers_def refTasks_def tableClient_def
        tableGet_def tableList_def tableUpdate_def refUtil_def taskIdx_def taskIndex_def taskWorld_def tableWith_def
        loneTask_def demoTask_def demoMeta_def)
  then show ?thesis by (metis prod.collapse)
qed

theorem task_deletion_released_witness:
  "case tasksOf (snd lone_run) (''ns'', ''l'') of None \<Rightarrow> True | Some y \<Rightarrow> taskInUseFinalizer \<notin> set (finalizers_of y)"
proof (rule task_deletion_released [OF ref_util.kube_util_axioms tasks.kube_api_axioms taskIdx_key _ _ _ lone_run_done])
  show "tasksOf (taskWorld [loneTask]) (''ns'', ''l'') = Some loneTask"
    by (simp add: taskWorld_def tableWith_def loneTask_def demoTask_def demoMeta_def)
qed (auto simp: taskWorld_def tableWith_def loneTask_def demoTask_def demoMeta_def taskIndex_def split: if_splits)

theorem task_events_exact_witness:
  "(''ns'', ''t'') \<in> set (findDependentTasks refTasks sourceTask (bodyWorld emptyStatus))"
proof -
  let ?w = "bodyWorld emptyStatus"
  have src: "name_of sourceTask = ''src''" "ns_of sourceTask = ''ns''"
    by (simp_all add: sourceTask_def demoTask_def demoMeta_def)
  obtain items where l: "kList refTasks (Some (ns_of sourceTask)) taskSourceRefIndexKey
      (sourceRefIndexValue ''math.example.com/v1alpha1'' ''HTTPTask'' (name_of sourceTask)) ?w = Inr items"
    by (simp add: refTasks_def tableClient_def tableList_def)
  have plain: "CHR ''/'' \<notin> set (sr_kind (am_sourceRef m)) \<and> CHR ''/'' \<notin> set (sr_name (am_sourceRef m))"
    if "tasksOf ?w k = Some d" "m \<in> set (ht_inputFrom (ko_spec d))" for k d m
    using that by (auto simp: taskWorld_def tableWith_def dependentTask_def sourceTask_def demoTask_def taskFrom_def
        split: if_splits)
  from task_events_exact [where ns' = "''ns''" and q = "''t''", OF tasks.kube_api_axioms taskIdx_key l _ plain]
  show ?thesis using dependent_stored [of emptyStatus]
    by (simp add: src dependentTask_def demoTask_def taskFrom_def sourceRefIs_def)
qed

end
