(* ===== verification/Db_Watcher.thy ===== *)
theory Db_Watcher
  imports Go_Json
begin

text \<open>
  \<open>src/function-httptask/watcher/main.go\<close>: recording the progress of Workflows in Postgres. The two
  tables are maps keyed by their primary keys, the statements are what their SQL says (an insert
  that updates the named columns on conflict). Whether the database enforces the foreign key of the tasks is a
  parameter: the schema declares it, but \<open>CREATE TABLE IF NOT EXISTS\<close> leaves a table that is already there
  as it is. So are the failures a statement has for a reason of its own (connection, limits), the clock and the
  helpers that read an unstructured object.
\<close>

section \<open>The schema\<close>

type_synonym time = nat

record RunRow =
  rr_workflow_name :: string
  rr_notify_url :: "string option"
  rr_phase :: string
  rr_created_at :: time
  rr_updated_at :: time

record TaskRow =
  tr_phase :: string
  tr_status_code :: "int32 option"
  tr_output :: "string option"
  tr_error :: "string option"
  tr_updated_at :: time

record db =
  db_runs :: "string \<rightharpoonup> RunRow"
  db_tasks :: "string \<times> string \<rightharpoonup> TaskRow"

definition emptyDb :: db where
  "emptyDb = \<lparr>db_runs = Map.empty, db_tasks = Map.empty\<rparr>"

datatype stmt =
    UpsertRun string string "string option" string
  | UpsertTask string string string "int32 option" "string option" "string option"

text \<open>
  The helpers of \<open>unstructured\<close> return the value, whether it was found, and an error; without a value
  they return the empty string or slice.
\<close>

record dbEnv =
  de_getName :: "jobj \<Rightarrow> string"
  de_nestedString :: "jobj \<Rightarrow> string list \<Rightarrow> string \<times> bool \<times> goerr option"
  de_nestedSlice :: "jobj \<Rightarrow> string list \<Rightarrow> json list \<times> bool \<times> goerr option"
  de_codec :: codec
  de_now :: time
  de_foreignKey :: bool
  de_fail :: "stmt \<Rightarrow> goerr option"

section \<open>The statements\<close>

definition runRow :: "time \<Rightarrow> string \<Rightarrow> string option \<Rightarrow> string \<Rightarrow> RunRow option \<Rightarrow> RunRow" where
  "runRow now name url phase old = (case old of
     None \<Rightarrow> \<lparr>rr_workflow_name = name, rr_notify_url = url, rr_phase = phase, rr_created_at = now, rr_updated_at = now\<rparr>
   | Some r \<Rightarrow> r\<lparr>rr_phase := phase, rr_notify_url := url, rr_updated_at := now\<rparr>)"

definition taskRow :: "time \<Rightarrow> string \<Rightarrow> int32 option \<Rightarrow> string option \<Rightarrow> string option \<Rightarrow> TaskRow" where
  "taskRow now phase code out err =
     \<lparr>tr_phase = phase, tr_status_code = code, tr_output = out, tr_error = err, tr_updated_at = now\<rparr>"

text \<open>\<open>pool.Exec\<close>: a statement that fails changes nothing.\<close>

fun execStmt :: "dbEnv \<Rightarrow> stmt \<Rightarrow> db \<Rightarrow> goerr option \<times> db" where
  "execStmt env (UpsertRun tx name url phase) d =
     (case de_fail env (UpsertRun tx name url phase) of
        Some e \<Rightarrow> (Some e, d)
      | None \<Rightarrow> (None, d\<lparr>db_runs := (db_runs d)(tx \<mapsto> runRow (de_now env) name url phase (db_runs d tx))\<rparr>))"
| "execStmt env (UpsertTask tx name phase code out err) d =
     (case de_fail env (UpsertTask tx name phase code out err) of
        Some e \<Rightarrow> (Some e, d)
      | None \<Rightarrow>
          if de_foreignKey env \<and> db_runs d tx = None
          then (Some (GoErr ''violates foreign key constraint''), d)
          else (None, d\<lparr>db_tasks := (db_tasks d)((tx, name) \<mapsto> taskRow (de_now env) phase code out err)\<rparr>))"

section \<open>Values\<close>

text \<open>\<open>strings.TrimSpace(s) == ""\<close>: only white space, in UTF-8.\<close>

definition ascii_space :: "char \<Rightarrow> bool" where
  "ascii_space c \<longleftrightarrow> c = CHR 0x20 \<or> (9 \<le> (of_char c :: nat) \<and> (of_char c :: nat) \<le> 13)"

definition space2 :: "char \<Rightarrow> char \<Rightarrow> bool" where
  "space2 a b \<longleftrightarrow> a = CHR 0xC2 \<and> (b = CHR 0x85 \<or> b = CHR 0xA0)"

definition space3 :: "char \<Rightarrow> char \<Rightarrow> char \<Rightarrow> bool" where
  "space3 a b c \<longleftrightarrow> a = CHR 0xE1 \<and> b = CHR 0x9A \<and> c = CHR 0x80
     \<or> a = CHR 0xE2 \<and> b = CHR 0x80 \<and>
         (128 \<le> (of_char c :: nat) \<and> (of_char c :: nat) \<le> 138 \<or> c = CHR 0xA8 \<or> c = CHR 0xA9 \<or> c = CHR 0xAF)
     \<or> a = CHR 0xE2 \<and> b = CHR 0x81 \<and> c = CHR 0x9F
     \<or> a = CHR 0xE3 \<and> b = CHR 0x80 \<and> c = CHR 0x80"

fun blank :: "string \<Rightarrow> bool" where
  "blank [] = True"
| "blank [a] = ascii_space a"
| "blank [a, b] = (ascii_space a \<and> blank [b] \<or> space2 a b)"
| "blank (a # b # c # s) =
     (ascii_space a \<and> blank (b # c # s) \<or> space2 a b \<and> blank (c # s) \<or> space3 a b c \<and> blank s)"

definition nullIfEmpty :: "string \<Rightarrow> string option" where
  "nullIfEmpty s = (if blank s then None else Some s)"

definition nullIfEmptyBytes :: "string \<Rightarrow> string option" where
  "nullIfEmptyBytes b = (if length b = 0 then None else Some b)"

text \<open>\<open>v, _ := t[k].(string)\<close>\<close>

definition stringMember :: "jobj \<Rightarrow> string \<Rightarrow> string" where
  "stringMember t k = (case kv_get t k of Some (JStr s) \<Rightarrow> s | _ \<Rightarrow> [])"

text \<open>\<open>int32(v)\<close> of a finite double: truncation towards zero.\<close>

definition truncFloat :: "bool \<times> int \<times> int \<Rightarrow> int" where
  "truncFloat p = (case p of (neg, q, k) \<Rightarrow>
     (if neg then - 1 else 1) * (if 0 \<le> k then q * 2 ^ nat k else q div 2 ^ nat (- k)))"

definition statusCodeOf :: "jobj \<Rightarrow> int32 option" where
  "statusCodeOf t = (case kv_get t ''statusCode'' of
     Some (JNum (Float64 w)) \<Rightarrow> Some (word_of_int (truncFloat (float_parts w))) | _ \<Rightarrow> None)"

text \<open>\<open>outputJSON, _ = json.Marshal(out)\<close> when there is an output; an error leaves no bytes.\<close>

definition outputOf :: "codec \<Rightarrow> jobj \<Rightarrow> string" where
  "outputOf c t = (case kv_get t ''output'' of
     None \<Rightarrow> []
   | Some out \<Rightarrow> (case marshal c out of Inl e \<Rightarrow> [] | Inr b \<Rightarrow> b))"

section \<open>Operations\<close>

definition upsertRun :: "dbEnv \<Rightarrow> string \<Rightarrow> string \<Rightarrow> string \<Rightarrow> string \<Rightarrow> db \<Rightarrow> goerr option \<times> db" where
  "upsertRun env txID name notifyURL phase d = execStmt env (UpsertRun txID name (nullIfEmpty notifyURL) phase) d"

definition upsertTask :: "dbEnv \<Rightarrow> string \<Rightarrow> jobj \<Rightarrow> db \<Rightarrow> goerr option \<times> db" where
  "upsertTask env txID t d =
     execStmt env (UpsertTask txID (stringMember t ''name'') (stringMember t ''phase'') (statusCodeOf t)
       (nullIfEmptyBytes (outputOf (de_codec env) t)) (nullIfEmpty (stringMember t ''error''))) d"

text \<open>The loop over \<open>status.tasks\<close>: elements that are not objects are passed over.\<close>

fun upsertTasks :: "dbEnv \<Rightarrow> string \<Rightarrow> json list \<Rightarrow> db \<Rightarrow> goerr option \<times> db" where
  "upsertTasks env txID [] d = (None, d)"
| "upsertTasks env txID (rt # rts) d = (case rt of
     JObj t \<Rightarrow> (case upsertTask env txID t d of
        (Some e, d1) \<Rightarrow> (Some e, d1)
      | (None, d1) \<Rightarrow> upsertTasks env txID rts d1)
   | _ \<Rightarrow> upsertTasks env txID rts d)"

text \<open>What is read from the object; the flags and errors of the helpers are dropped.\<close>

definition txIDOf :: "dbEnv \<Rightarrow> jobj \<Rightarrow> string" where
  "txIDOf env u = fst (de_nestedString env u [''status'', ''transactionID''])"

definition phaseOf :: "dbEnv \<Rightarrow> jobj \<Rightarrow> string" where
  "phaseOf env u = fst (de_nestedString env u [''status'', ''phase''])"

definition notifyURLOf :: "dbEnv \<Rightarrow> jobj \<Rightarrow> string" where
  "notifyURLOf env u = fst (de_nestedString env u [''spec'', ''notifyURL''])"

definition rawTasksOf :: "dbEnv \<Rightarrow> jobj \<Rightarrow> json list" where
  "rawTasksOf env u = fst (de_nestedSlice env u [''status'', ''tasks''])"

definition handleWorkflow :: "dbEnv \<Rightarrow> jobj \<Rightarrow> db \<Rightarrow> goerr option \<times> db" where
  "handleWorkflow env u d =
     (if txIDOf env u = [] then (None, d)
      else (case upsertRun env (txIDOf env u) (de_getName env u) (notifyURLOf env u) (phaseOf env u) d of
              (Some e, d1) \<Rightarrow> (Some e, d1)
            | (None, d1) \<Rightarrow> upsertTasks env (txIDOf env u) (rawTasksOf env u) d1))"

text \<open>
  The informer's handler: an argument that is not an unstructured object is passed over, an error
  is logged. Events are handled one after the other, each with its own time and failures.
\<close>

definition handle :: "dbEnv \<Rightarrow> jobj option \<Rightarrow> db \<Rightarrow> db" where
  "handle env obj d = (case obj of None \<Rightarrow> d | Some u \<Rightarrow> snd (handleWorkflow env u d))"

fun handleAll :: "dbEnv list \<Rightarrow> jobj option list \<Rightarrow> db \<Rightarrow> db" where
  "handleAll (env # envs) (x # xs) d = handleAll envs xs (handle env x d)"
| "handleAll envs xs d = d"

section \<open>Starting up\<close>

text \<open>\<open>log.Fatalf\<close> ends the process with a message.\<close>

datatype startup = Fatal string | Watching "db option"

definition mustEnv :: "(string \<Rightarrow> string) \<Rightarrow> string \<Rightarrow> string + string" where
  "mustEnv getenv k = (if getenv k = [] then Inl (''missing required env var '' @ k) else Inr (getenv k))"

text \<open>
  The cluster configuration: that of the pod, or else the file that \<open>KUBECONFIG\<close> names, or else the one
  in the home directory.
\<close>

record 'c kubeLib =
  InClusterConfig :: "goerr + 'c"
  BuildConfigFromFlags :: "string \<Rightarrow> goerr + 'c"
  NewForConfig :: "'c \<Rightarrow> goerr option"

definition kubeconfigPath :: "(string \<Rightarrow> string) \<Rightarrow> string" where
  "kubeconfigPath getenv =
     (if getenv ''KUBECONFIG'' = [] then getenv ''HOME'' @ ''/.kube/config'' else getenv ''KUBECONFIG'')"

definition buildDynamicClient :: "'c kubeLib \<Rightarrow> (string \<Rightarrow> string) \<Rightarrow> goerr option" where
  "buildDynamicClient kl getenv = (case InClusterConfig kl of
     Inr cfg \<Rightarrow> NewForConfig kl cfg
   | Inl e \<Rightarrow> (case BuildConfigFromFlags kl (kubeconfigPath getenv) of
       Inl e1 \<Rightarrow> Some e1
     | Inr cfg \<Rightarrow> NewForConfig kl cfg))"

text \<open>\<open>CREATE TABLE IF NOT EXISTS\<close>: \<open>None\<close> is a database without the tables.\<close>

definition ensureSchema :: "goerr option \<Rightarrow> db option \<Rightarrow> goerr option \<times> db option" where
  "ensureSchema failed d = (case failed of
     Some e \<Rightarrow> (Some e, d)
   | None \<Rightarrow> (None, Some (case d of None \<Rightarrow> emptyDb | Some d0 \<Rightarrow> d0)))"

text \<open>\<open>main\<close> up to the informer; \<open>pool\<close>, \<open>schema\<close> and \<open>handler\<close> are what the three library calls return.\<close>

definition watcherMain :: "'c kubeLib \<Rightarrow> (string \<Rightarrow> string) \<Rightarrow> (string \<Rightarrow> goerr option) \<Rightarrow> goerr option \<Rightarrow> goerr option
    \<Rightarrow> db option \<Rightarrow> startup" where
  "watcherMain kl getenv pool schema handler d =
     (case mustEnv getenv ''DATABASE_URL'' of
        Inl msg \<Rightarrow> Fatal msg
      | Inr dbURL \<Rightarrow>
     (case pool dbURL of
        Some e \<Rightarrow> Fatal (''cannot connect to postgres: '' @ errText e)
      | None \<Rightarrow>
     (case ensureSchema schema d of
        (Some e, d1) \<Rightarrow> Fatal (''cannot ensure schema: '' @ errText e)
      | (None, d1) \<Rightarrow>
     (case buildDynamicClient kl getenv of
        Some e \<Rightarrow> Fatal (''cannot build kube client: '' @ errText e)
      | None \<Rightarrow>
     (case handler of
        Some e \<Rightarrow> Fatal (''cannot add event handler: '' @ errText e)
      | None \<Rightarrow> Watching d1)))))"

section \<open>Invariant: no task without its run\<close>

definition db_inv :: "db \<Rightarrow> bool" where
  "db_inv d \<longleftrightarrow> (\<forall>tx n. db_tasks d (tx, n) \<noteq> None \<longrightarrow> db_runs d tx \<noteq> None)"

text \<open>The step over one element of \<open>status.tasks\<close>.\<close>

lemma upsertTasks_Cons [consumes 0, case_names Object Other]:
  obtains t where "rt = JObj t"
      "upsertTasks env tx (rt # rts) d = (case upsertTask env tx t d of
         (Some e, d1) \<Rightarrow> (Some e, d1) | (None, d1) \<Rightarrow> upsertTasks env tx rts d1)"
  | "\<And>t. rt \<noteq> JObj t" "upsertTasks env tx (rt # rts) d = upsertTasks env tx rts d"
  by (cases rt) (auto intro: that)

text \<open>
  The tasks are inserted only once the run is there, so that nothing depends on the foreign key: no statement is ever
  refused for it, and the reference holds without it.
\<close>

lemma upsertTask_run:
  assumes "db_runs d tx \<noteq> None" and "upsertTask env tx t d = (r, d1)"
  shows "db_runs d1 = db_runs d" and "db_inv d \<Longrightarrow> db_inv d1" and "r = Some e \<Longrightarrow> \<exists>s. de_fail env s = Some e"
  using assms by (auto simp: upsertTask_def db_inv_def split: option.splits if_splits) (blast+)?

lemma upsertTasks_run:
  assumes "db_runs d tx \<noteq> None" and "upsertTasks env tx rts d = (r, d')"
  shows "(db_inv d \<longrightarrow> db_inv d') \<and> (\<forall>e. r = Some e \<longrightarrow> (\<exists>s. de_fail env s = Some e))"
  using assms
proof (induction rts arbitrary: d)
  case (Cons rt rts)
  show ?case
  proof (cases rule: upsertTasks_Cons [where rt = rt and rts = rts and env = env and tx = tx and d = d])
    case (Object t)
    obtain q d1 where u: "upsertTask env tx t d = (q, d1)" by fastforce
    note step = upsertTask_run [OF Cons.prems(1) u]
    show ?thesis
    proof (cases q)
      case None
      have "db_runs d1 tx \<noteq> None" using step(1) Cons.prems(1) by simp
      moreover have "upsertTasks env tx rts d1 = (r, d')" using Cons.prems(2) u None unfolding Object(2) by simp
      ultimately show ?thesis using Cons.IH step(2) by blast
    next
      case (Some e)
      then have "r = Some e" "d' = d1" using Cons.prems(2) u unfolding Object(2) by simp_all
      with Some step(2,3) show ?thesis by blast
    qed
  next
    case Other
    with Cons.IH [OF Cons.prems(1)] Cons.prems(2) show ?thesis by simp
  qed
qed simp

lemma upsertRun_run:
  assumes "upsertRun env tx name url ph d = (r, d1)"
  shows "r = None \<Longrightarrow> db_runs d1 tx \<noteq> None" and "db_inv d \<Longrightarrow> db_inv d1"
    and "r = Some e \<Longrightarrow> \<exists>s. de_fail env s = Some e"
  using assms by (auto simp: upsertRun_def db_inv_def split: option.splits if_splits) (blast+)?

lemma handleWorkflow_run:
  assumes "handleWorkflow env x d = (r, d')"
  shows "(db_inv d \<longrightarrow> db_inv d') \<and> (\<forall>e. r = Some e \<longrightarrow> (\<exists>s. de_fail env s = Some e))"
proof (cases "txIDOf env x = []")
  case False
  obtain q d1 where u: "upsertRun env (txIDOf env x) (de_getName env x) (notifyURLOf env x) (phaseOf env x) d = (q, d1)"
    by fastforce
  note run = upsertRun_run [OF u]
  show ?thesis
  proof (cases q)
    case None
    then have "upsertTasks env (txIDOf env x) (rawTasksOf env x) d1 = (r, d')"
      using assms False u by (simp add: handleWorkflow_def)
    from upsertTasks_run [OF run(1) [OF None] this] run(2) show ?thesis by blast
  next
    case (Some e)
    then have "r = Some e" "d' = d1" using assms False u by (simp_all add: handleWorkflow_def)
    with Some run(2,3) show ?thesis by blast
  qed
qed (use assms in \<open>simp add: handleWorkflow_def\<close>)

lemma handle_inv: "db_inv d \<Longrightarrow> db_inv (handle env x d)"
  using handleWorkflow_run by (auto simp: handle_def split: option.splits) (metis prod.collapse)

lemma watcherMain_db: "watcherMain kl getenv pool schema handler d = Watching d1 \<Longrightarrow> d1 = Some (case d of None \<Rightarrow> emptyDb | Some d0 \<Rightarrow> d0)"
  by (auto simp: watcherMain_def ensureSchema_def split: sum.splits option.splits)

lemma handleAll_inv: "db_inv d \<Longrightarrow> db_inv (handleAll envs xs d)"
  by (induction envs xs d rule: handleAll.induct) (simp_all add: handle_inv)

text \<open>
  C35. The watcher keeps the tables consistent by the order of its statements: it starts on a database without the
  tables, or on one where every task has its run, and keeps every row there; then, whatever events are
  handled, whichever statements fail and whether or not the foreign key is enforced, no task is ever without the run
  of its transaction, and no event fails for the foreign key: an error is one that a statement had for a reason of its own.
\<close>

theorem watcher_keeps_reference:
  assumes "watcherMain kl getenv pool schema handler d = Watching d1" and "case d of None \<Rightarrow> True | Some d0 \<Rightarrow> db_inv d0"
  shows "\<exists>d2. d1 = Some d2 \<and> (\<forall>d0. d = Some d0 \<longrightarrow> d2 = d0) \<and> db_inv (handleAll envs xs d2)
    \<and> (\<forall>env x e. fst (handleWorkflow env x (handleAll envs xs d2)) = Some e \<longrightarrow> (\<exists>s. de_fail env s = Some e))"
proof -
  have "db_inv emptyDb" by (simp add: db_inv_def emptyDb_def)
  moreover have "fst (handleWorkflow env x v) = Some e \<Longrightarrow> \<exists>s. de_fail env s = Some e" for env x v e
    using handleWorkflow_run [of env x v] by (metis prod.collapse)
  ultimately show ?thesis using watcherMain_db [OF assms(1)] assms(2) by (auto simp: handleAll_inv split: option.splits)
qed

section \<open>What is recorded\<close>

text \<open>The objects among the elements of \<open>status.tasks\<close>, and the last one of a name.\<close>

fun objects :: "json list \<Rightarrow> jobj list" where
  "objects [] = []"
| "objects (JObj t # rts) = t # objects rts"
| "objects (_ # rts) = objects rts"

definition lastTask :: "json list \<Rightarrow> string \<Rightarrow> jobj option" where
  "lastTask rts n = List.find (\<lambda>t. stringMember t ''name'' = n) (rev (objects rts))"

definition rowOf :: "dbEnv \<Rightarrow> jobj \<Rightarrow> TaskRow" where
  "rowOf env t = taskRow (de_now env) (stringMember t ''phase'') (statusCodeOf t)
     (nullIfEmptyBytes (outputOf (de_codec env) t)) (nullIfEmpty (stringMember t ''error''))"

abbreviation taskStmt :: "dbEnv \<Rightarrow> string \<Rightarrow> jobj \<Rightarrow> stmt" where
  "taskStmt env tx t \<equiv> UpsertTask tx (stringMember t ''name'') (stringMember t ''phase'') (statusCodeOf t)
     (nullIfEmptyBytes (outputOf (de_codec env) t)) (nullIfEmpty (stringMember t ''error''))"

lemma find_append_some: "List.find P (xs @ [y]) = (case List.find P xs of Some z \<Rightarrow> Some z | None \<Rightarrow> if P y then Some y else None)"
  by (induction xs) auto

lemma lastTask_Nil [simp]: "lastTask [] n = None"
  by (simp add: lastTask_def)

lemma lastTask_Cons: "lastTask (JObj t # rts) n =
    (case lastTask rts n of Some z \<Rightarrow> Some z | None \<Rightarrow> if stringMember t ''name'' = n then Some t else None)"
  by (simp add: lastTask_def find_append_some)

lemma objects_other: "(\<And>t. rt \<noteq> JObj t) \<Longrightarrow> objects (rt # rts) = objects rts"
  by (cases rt) auto

lemma lastTask_other: "(\<And>t. rt \<noteq> JObj t) \<Longrightarrow> lastTask (rt # rts) n = lastTask rts n"
  by (simp add: lastTask_def objects_other)

lemma upsertTasks_spec:
  "upsertTasks env tx rts d = (None, d') \<longleftrightarrow>
     (\<forall>t \<in> set (objects rts). de_fail env (taskStmt env tx t) = None)
     \<and> (de_foreignKey env \<and> objects rts \<noteq> [] \<longrightarrow> db_runs d tx \<noteq> None) \<and> db_runs d' = db_runs d
     \<and> db_tasks d' = (\<lambda>(tx', n). case lastTask rts n of
           Some t \<Rightarrow> if tx' = tx then Some (rowOf env t) else db_tasks d (tx', n)
         | None \<Rightarrow> db_tasks d (tx', n))"
proof (induction rts arbitrary: d)
  case Nil
  show ?case by (auto simp: fun_eq_iff)
next
  case (Cons rt rts)
  show ?case
  proof (cases rule: upsertTasks_Cons [where rt = rt and rts = rts and env = env and tx = tx and d = d])
    case Other
    with Cons.IH show ?thesis by (simp add: objects_other lastTask_other)
  next
    case (Object t)
    show ?thesis
    proof (cases "de_fail env (taskStmt env tx t) = None \<and> (de_foreignKey env \<longrightarrow> db_runs d tx \<noteq> None)")
      case False
      then show ?thesis
        by (auto simp: Object upsertTask_def split: option.splits)
    next
      case True
      let ?d = "d\<lparr>db_tasks := (db_tasks d)((tx, stringMember t ''name'') \<mapsto> rowOf env t)\<rparr>"
      from True have "upsertTask env tx t d = (None, ?d)"
        by (simp add: upsertTask_def rowOf_def)
      then have step: "upsertTasks env tx (rt # rts) d = upsertTasks env tx rts ?d" unfolding Object(2) by simp
      have rows: "(\<lambda>(tx', n). case lastTask rts n of
            Some t \<Rightarrow> if tx' = tx then Some (rowOf env t) else db_tasks ?d (tx', n)
          | None \<Rightarrow> db_tasks ?d (tx', n)) =
          (\<lambda>(tx', n). case lastTask (rt # rts) n of
            Some t \<Rightarrow> if tx' = tx then Some (rowOf env t) else db_tasks d (tx', n)
          | None \<Rightarrow> db_tasks d (tx', n))"
        by (auto simp: Object(1) lastTask_Cons fun_eq_iff split: option.splits)
      have "(\<forall>t' \<in> set (objects (rt # rts)). de_fail env (taskStmt env tx t') = None) \<longleftrightarrow>
          (\<forall>t' \<in> set (objects rts). de_fail env (taskStmt env tx t') = None)"
        using True by (simp add: Object(1))
      moreover have "db_runs ?d = db_runs d" by simp
      ultimately show ?thesis unfolding step Cons.IH [of ?d] rows using True by simp
    qed
  qed
qed

lemma recorded:
  assumes "handleWorkflow env x d = (None, d')" and "txIDOf env x \<noteq> []"
  shows "db_runs d' = (db_runs d)(txIDOf env x \<mapsto>
           runRow (de_now env) (de_getName env x) (nullIfEmpty (notifyURLOf env x)) (phaseOf env x) (db_runs d (txIDOf env x)))
     \<and> (\<forall>tx n. db_tasks d' (tx, n) =
          (if tx = txIDOf env x \<and> lastTask (rawTasksOf env x) n \<noteq> None
           then map_option (rowOf env) (lastTask (rawTasksOf env x) n) else db_tasks d (tx, n)))"
proof -
  let ?tx = "txIDOf env x"
  let ?d = "d\<lparr>db_runs := (db_runs d)(?tx \<mapsto>
    runRow (de_now env) (de_getName env x) (nullIfEmpty (notifyURLOf env x)) (phaseOf env x) (db_runs d ?tx))\<rparr>"
  from assms have "upsertTasks env ?tx (rawTasksOf env x) ?d = (None, d')"
    by (auto simp: handleWorkflow_def upsertRun_def split: option.splits)
  then show ?thesis unfolding upsertTasks_spec by (auto split: option.splits)
qed

text \<open>
  C19. Handling a Workflow that has a transaction id without an error leaves its run with the current
  phase and URL, with the name and creation time it got on the first insert, one row per task name with the
  last status of that name, and everything of other transactions and of tasks no longer listed
  untouched.
\<close>

theorem watcher_records:
  assumes "handleWorkflow env x d = (None, d')" and "txIDOf env x \<noteq> []"
  shows "(\<exists>r. db_runs d' (txIDOf env x) = Some r \<and> rr_phase r = phaseOf env x
            \<and> rr_notify_url r = nullIfEmpty (notifyURLOf env x) \<and> rr_updated_at r = de_now env
            \<and> (case db_runs d (txIDOf env x) of
                 None \<Rightarrow> rr_workflow_name r = de_getName env x \<and> rr_created_at r = de_now env
               | Some old \<Rightarrow> rr_workflow_name r = rr_workflow_name old \<and> rr_created_at r = rr_created_at old))
     \<and> (\<forall>tx. tx \<noteq> txIDOf env x \<longrightarrow> db_runs d' tx = db_runs d tx)
     \<and> (\<forall>tx n. db_tasks d' (tx, n) =
          (if tx = txIDOf env x \<and> lastTask (rawTasksOf env x) n \<noteq> None
           then map_option (rowOf env) (lastTask (rawTasksOf env x) n) else db_tasks d (tx, n)))"
  using recorded [OF assms] by (auto simp: runRow_def split: option.splits)

text \<open>
  Handling an object again at the same time changes nothing: informer resyncs are harmless.
\<close>

theorem watcher_idempotent:
  assumes "handleWorkflow env x d = (None, d')"
  shows "handleWorkflow env x d' = (None, d')"
proof (cases "txIDOf env x = []")
  case True
  with assms show ?thesis by (simp add: handleWorkflow_def)
next
  case False
  let ?tx = "txIDOf env x"
  let ?upd = "\<lambda>d. d\<lparr>db_runs := (db_runs d)(?tx \<mapsto>
    runRow (de_now env) (de_getName env x) (nullIfEmpty (notifyURLOf env x)) (phaseOf env x) (db_runs d ?tx))\<rparr>"
  have run: "de_fail env (UpsertRun ?tx (de_getName env x) (nullIfEmpty (notifyURLOf env x)) (phaseOf env x)) = None"
    and t: "upsertTasks env ?tx (rawTasksOf env x) (?upd d) = (None, d')"
    using assms False by (auto simp: handleWorkflow_def upsertRun_def split: option.splits)
  have "?upd d' = d'"
    using t by (auto simp: upsertTasks_spec runRow_def fun_upd_idem split: option.splits)
  then have "handleWorkflow env x d' = upsertTasks env ?tx (rawTasksOf env x) d'"
    using run False by (simp add: handleWorkflow_def upsertRun_def)
  also have "\<dots> = (None, d')"
    using t unfolding upsertTasks_spec by (auto simp: fun_eq_iff split: option.splits)
  finally show ?thesis .
qed

text \<open>
  C38. A status code that arrives as an \<open>int64\<close>, which is how the API machinery decodes every integral
  number, is not recorded: the row of the task has NULL there.
\<close>

theorem int64_status_code_dropped:
  assumes "handleWorkflow env x d = (None, d')" and "txIDOf env x \<noteq> []"
    and "lastTask (rawTasksOf env x) n = Some t" and "kv_get t ''statusCode'' = Some (JNum (Int64 c))"
  shows "\<exists>r. db_tasks d' (txIDOf env x, n) = Some r \<and> tr_status_code r = None"
  using recorded [OF assms(1,2)] assms(3,4) by (simp add: rowOf_def taskRow_def statusCodeOf_def)

end
