(* ===== verification/Flow_Demo.thy ===== *)
theory Flow_Demo
  imports Kube_Demo Db_Watcher
begin

text \<open>
  Concrete Workflows on the cluster in memory, with children kept by a \<open>CreateOrUpdate\<close> on its
  HTTPTask table and a notify endpoint that answers a given code; and a concrete event of the
  database watcher.
\<close>

section \<open>Parameters of the Workflow controller\<close>

definition blankTask :: "key \<Rightarrow> HTTPTask" where
  "blankTask k = \<lparr>ko_meta = (demoMeta (snd k) False [])\<lparr>om_namespace := fst k\<rparr>,
     ko_spec = \<lparr>ht_endpoint = [], ht_method = [], ht_headers = [], ht_input = [], ht_inputFrom = []\<rparr>,
     ko_status = \<lparr>hs_output = [], hs_statusCode = None, hs_observedInputHash = [], hs_conditions = []\<rparr>\<rparr>"

definition createOrUpdateTask :: "key \<Rightarrow> (HTTPTask \<Rightarrow> goerr + HTTPTask) \<Rightarrow> cluster \<Rightarrow> (goerr + HTTPTask) \<times> cluster" where
  "createOrUpdateTask k f w = (case tasksOf w k of
     None \<Rightarrow> (case f (blankTask k) of
         Inl e \<Rightarrow> (Inl e, w)
       | Inr t \<Rightarrow> (Inr t, w\<lparr>cw_tasks := (cw_tasks w)\<lparr>tb_objs := t # tb_objs (cw_tasks w)\<rparr>\<rparr>))
   | Some old \<Rightarrow> (case f old of
         Inl e \<Rightarrow> (Inl e, w)
       | Inr t \<Rightarrow> (if t = old then (Inr old, w) else kUpdate refTasks t w)))"

definition refFlowEnv :: "int64 \<Rightarrow> cluster wfEnv" where
  "refFlowEnv code = \<lparr>we_dashboardBaseURL = ''http://d'', we_createOrUpdate = createOrUpdateTask,
     we_setController = (\<lambda>flow t. Inr (t\<lparr>ko_meta := (ko_meta t)\<lparr>om_controller := Some (om_uid (ko_meta flow))\<rparr>\<rparr>)),
     we_marshalStatus = (\<lambda>st. Inr (ws_phase st)), we_newRequest = (\<lambda>m url. None),
     we_do = (\<lambda>rq w. (Inr \<lparr>hr_status = code, hr_body = Inr []\<rparr>, w\<lparr>cw_sent := cw_sent w @ [rq]\<rparr>))\<rparr>"

lemma tasks_update_frame: "flowsOf (snd (kUpdate refTasks t w)) = flowsOf w"
  by (simp add: refTasks_def tableClient_def split: prod.splits)

lemma create_frame: "flowsOf (snd (createOrUpdateTask k f w)) = flowsOf w"
  by (simp add: createOrUpdateTask_def tasks_update_frame split: option.splits sum.splits)

interpretation flow_world: workflow_world refFlows flowsOf flowIdx "refFlowEnv code"
  by unfold_locales (simp_all add: refFlowEnv_def create_frame)

text \<open>The requests sent are those of the log.\<close>

lemma tasks_update_sent: "cw_sent (snd (kUpdate refTasks t w)) = cw_sent w"
  by (simp add: refTasks_def tableClient_def split: prod.splits)

lemma create_sent: "cw_sent (snd (createOrUpdateTask k f w)) = cw_sent w"
  by (simp add: createOrUpdateTask_def tasks_update_sent split: option.splits sum.splits)

interpretation flow_posts: posting_world refFlows flowsOf flowIdx "refFlowEnv code" cw_sent
proof
  show "cw_sent (snd (kStatusUpdate refFlows x v)) = cw_sent v" for x v
    by (simp add: refFlows_def tableClient_def split: prod.splits)
qed (simp_all add: refFlowEnv_def create_sent)

text \<open>What the table of tasks promises of \<open>CreateOrUpdate\<close>.\<close>

lemma create_status:
  assumes "createOrUpdateTask k f w = (Inr child, w')" and "tasksOf w k = Some t"
    and "\<forall>x y. f x = Inr y \<longrightarrow> key_of y = key_of x \<and> ko_status y = ko_status x"
  shows "ko_status child = ko_status t"
proof -
  from assms(1,2) obtain y where y: "f t = Inr y" "if y = t then child = t else kUpdate refTasks y w = (Inr child, w')"
    by (auto simp: createOrUpdateTask_def split: sum.splits if_splits)
  show ?thesis
  proof (cases "y = t")
    case False
    with y have u: "kUpdate refTasks y w = (Inr child, w')" by simp
    have "key_of y = k" using assms(3) y(1) tasks.store_key [OF assms(2)] by auto
    with tasks.update_ok [OF u] assms(2) show ?thesis by auto
  qed (use y in simp)
qed

lemma create_other:
  assumes "createOrUpdateTask k f w = (r, w')" and "\<forall>x y. f x = Inr y \<longrightarrow> key_of y = key_of x" and "l \<noteq> k"
  shows "tasksOf w' l = tasksOf w l"
proof (cases "tasksOf w k")
  case None
  show ?thesis
  proof (cases "f (blankTask k)")
    case (Inr t)
    have "key_of t = k" using assms(2) Inr by (cases k) (auto simp: blankTask_def demoMeta_def)
    with assms None Inr show ?thesis by (auto simp: createOrUpdateTask_def)
  qed (use assms(1) None in \<open>simp add: createOrUpdateTask_def\<close>)
next
  case (Some t)
  show ?thesis
  proof (cases "\<exists>y. f t = Inr y \<and> y \<noteq> t")
    case True
    then obtain y where y: "f t = Inr y" "y \<noteq> t" by blast
    then have u: "kUpdate refTasks y w = (r, w')" using assms(1) Some by (simp add: createOrUpdateTask_def)
    have "l \<noteq> key_of y" using assms(2,3) y(1) tasks.store_key [OF Some] by auto
    then show ?thesis by (rule tasks.write_frame(1) [OF u])
  next
    case False
    with assms(1) Some show ?thesis by (cases "f t") (simp_all add: createOrUpdateTask_def)
  qed
qed

interpretation flow_kids: flow_children refFlows flowsOf flowIdx "refFlowEnv code" tasksOf
proof
  show "we_createOrUpdate (refFlowEnv code) k f v = (Inr child, v') \<Longrightarrow> tasksOf v k = Some t \<Longrightarrow>
      \<forall>x y. f x = Inr y \<longrightarrow> key_of y = key_of x \<and> ko_status y = ko_status x \<Longrightarrow> ko_status child = ko_status t"
    for k f v child v' t by (rule create_status) (simp_all add: refFlowEnv_def)
  show "we_createOrUpdate (refFlowEnv code) k f v = (r, v') \<Longrightarrow> \<forall>x y. f x = Inr y \<longrightarrow> key_of y = key_of x \<Longrightarrow> l \<noteq> k
      \<Longrightarrow> tasksOf v' l = tasksOf v l" for k f v r v' l
    by (rule create_other) (simp_all add: refFlowEnv_def)
qed (auto simp: refFlowEnv_def)

section \<open>A workflow whose only step has succeeded\<close>

definition demoStep :: "string \<Rightarrow> WorkflowFieldMapping list \<Rightarrow> WorkflowTaskSpec" where
  "demoStep n ms = \<lparr>wt_name = n, wt_endpoint = ''http://h'', wt_method = [], wt_headers = [], wt_input = [], wt_inputFrom = ms\<rparr>"

definition demoFlow :: Workflow where
  "demoFlow = \<lparr>ko_meta = demoMeta ''f'' False [], ko_spec = \<lparr>wf_tasks = [demoStep ''a'' []], wf_notifyURL = ''http://n''\<rparr>,
     ko_status = \<lparr>ws_transactionID = [], ws_dashboardURL = [], ws_phase = [], ws_tasks = [], ws_notifiedPhase = [],
                  ws_conditions = []\<rparr>\<rparr>"

definition readyChild :: HTTPTask where
  "readyChild = (blankTask (''ns'', ''f-a''))
     \<lparr>ko_meta := (demoMeta ''f-a'' False [])\<lparr>om_controller := Some ''u-f''\<rparr>,
      ko_spec := childSpec demoFlow (demoStep ''a'' []),
      ko_status := \<lparr>hs_output = ''{}'', hs_statusCode = Some 200, hs_observedInputHash = [],
        hs_conditions = [\<lparr>co_type = ''Ready'', co_status = ''True'', co_reason = ''Computed'', co_message = [], co_generation = 1\<rparr>]\<rparr>\<rparr>"

definition flowWorld :: cluster where
  "flowWorld = emptyCluster\<lparr>cw_flows := tableWith [demoFlow], cw_tasks := tableWith [readyChild]\<rparr>"

lemma flow_stored: "flowsOf flowWorld (''ns'', ''f'') = Some demoFlow"
  by (simp add: flowWorld_def tableWith_def demoFlow_def demoMeta_def)

lemma flow_child: "tasksOf flowWorld (''ns'', ''f-a'') = Some readyChild"
  by (simp add: flowWorld_def tableWith_def readyChild_def demoMeta_def)

abbreviation demoAcc :: StepAcc where
  "demoAcc \<equiv> addStep (childStatus (demoStep ''a'' []) readyChild) noSteps"

lemma demoAcc_phase: "wfPhase demoAcc = ''Succeeded''"
  by (simp add: wfPhase_def addStep_def childStatus_def childPhase_def readyChild_def)

text \<open>The child is up to date, so \<open>CreateOrUpdate\<close> leaves it.\<close>

lemma steps_demo:
  assumes "tasksOf w (''ns'', ''f-a'') = Some readyChild" and "ns_of fl = ''ns''" and "name_of fl = ''f''"
    and "om_uid (ko_meta fl) = ''u-f''"
  shows "reconcileSteps (refFlowEnv code) fl [demoStep ''a'' []] noSteps w = (Inr demoAcc, w)"
proof -
  have n: "childName fl (wt_name (demoStep ''a'' [])) = ''f-a''"
    by (simp add: childName_def assms(3) demoStep_def)
  have "mutateChild (refFlowEnv code) fl (demoStep ''a'' []) readyChild = Inr readyChild"
    by (simp add: mutateChild_def refFlowEnv_def readyChild_def assms(4) childSpec_def mappedInputFrom_def demoStep_def demoMeta_def)
  then have "we_createOrUpdate (refFlowEnv code) (''ns'', ''f-a'') (mutateChild (refFlowEnv code) fl (demoStep ''a'' [])) w
      = (Inr readyChild, w)"
    using assms(1) by (simp add: refFlowEnv_def createOrUpdateTask_def)
  then show ?thesis by (simp add: n assms(2))
qed

text \<open>The reference server accepts a status computed from the stored Workflow.\<close>

lemma flows_status_accepts:
  assumes "flowsOf w (key_of x) = Some z" and "om_resourceVersion (ko_meta x) = om_resourceVersion (ko_meta z)"
  obtains y w' where "kStatusUpdate refFlows x w = (Inr y, w')" "cw_tasks w' = cw_tasks w"
    "om_resourceVersion (ko_meta y) = dec_int (int (tb_version (cw_flows w)))" "om_uid (ko_meta y) = om_uid (ko_meta z)"
  using assms by (auto simp: refFlows_def tableClient_def tableStatus_def stamped_def intro: that)

abbreviation flow_run :: "int64 \<Rightarrow> outcome \<times> cluster" where
  "flow_run code \<equiv> WorkflowReconcile (refFlowEnv code) refFlows (''ns'', ''f'') flowWorld"

lemma flow_published:
  obtains y w2 where "flow_run code = notifyIfDue (refFlowEnv code) refFlows ''Succeeded'' y w2"
    "flowsOf w2 (''ns'', ''f'') = Some y" "cw_tasks w2 = cw_tasks flowWorld"
    "ko_spec y = ko_spec demoFlow" "ws_notifiedPhase (ko_status y) = []" "om_uid (ko_meta y) = ''u-f''"
    "ws_phase (ko_status y) = ''Succeeded''" "\<forall>k. k \<noteq> (''ns'', ''f'') \<longrightarrow> flowsOf w2 k = None"
proof -
  define fl where "fl = withIdentity (refFlowEnv code) demoFlow"
  have fl: "ns_of fl = ''ns''" "name_of fl = ''f''" "om_uid (ko_meta fl) = ''u-f''"
    "om_resourceVersion (ko_meta fl) = om_resourceVersion (ko_meta demoFlow)"
    by (simp_all add: fl_def withIdentity_def demoFlow_def demoMeta_def)
  have steps: "wf_tasks (ko_spec demoFlow) = [demoStep ''a'' []]" by (simp add: demoFlow_def)
  have run: "reconcileSteps (refFlowEnv code) fl (wf_tasks (ko_spec demoFlow)) noSteps flowWorld = (Inr demoAcc, flowWorld)"
    unfolding steps by (rule steps_demo [OF flow_child fl(1-3)])
  have "flowsOf flowWorld (key_of (withSteps demoAcc fl)) = Some demoFlow"
    "om_resourceVersion (ko_meta (withSteps demoAcc fl)) = om_resourceVersion (ko_meta demoFlow)"
    using flow_stored fl by (simp_all add: withSteps_def)
  from flows_status_accepts [OF this] obtain y w2 where u: "kStatusUpdate refFlows (withSteps demoAcc fl) flowWorld = (Inr y, w2)"
    and t: "cw_tasks w2 = cw_tasks flowWorld" and uid: "om_uid (ko_meta y) = om_uid (ko_meta demoFlow)" .
  have get: "kGet refFlows (''ns'', ''f'') flowWorld = Inr demoFlow"
    using flow_stored by (simp add: refFlows_def tableClient_def tableGet_def)
  have st: "flowsOf flowWorld (key_of (withSteps demoAcc fl)) = Some demoFlow"
    using flow_stored fl by (simp add: withSteps_def)
  note p = flows.status_stored [OF u st]
  show thesis
  proof (rule that)
    show "flow_run code = notifyIfDue (refFlowEnv code) refFlows ''Succeeded'' y w2"
      using get run u demoAcc_phase by (simp add: WorkflowReconcile_def fl_def)
    show "flowsOf w2 (''ns'', ''f'') = Some y" using p(6) fl by (simp add: withSteps_def)
    show "ko_spec y = ko_spec demoFlow" using p(3) .
    show "ws_notifiedPhase (ko_status y) = []"
      using p(2) by (simp add: withSteps_fields withIdentity_fields fl_def) (simp add: demoFlow_def)
    show "ws_phase (ko_status y) = ''Succeeded''" using p(2) demoAcc_phase by (simp add: withSteps_fields)
    show "om_uid (ko_meta y) = ''u-f''" using uid by (simp add: demoFlow_def demoMeta_def)
    show "\<forall>k. k \<noteq> (''ns'', ''f'') \<longrightarrow> flowsOf w2 k = None"
    proof (intro allI impI)
      fix k
      assume k: "k \<noteq> (''ns'', ''f'')"
      have "flowsOf w2 k = flowsOf flowWorld k"
        by (rule flows.write_frame(2) [OF u]) (use k fl in \<open>simp add: withSteps_def\<close>)
      also have "\<dots> = None" using k by (auto simp: flowWorld_def tableWith_def demoFlow_def demoMeta_def)
      finally show "flowsOf w2 k = None" .
    qed
  qed (rule t)
qed

lemma notify_ok: "notify (refFlowEnv 200) y w = (None, w\<lparr>cw_sent := cw_sent w @ [notifyRequest y (ws_phase (ko_status y))]\<rparr>)"
  by (simp add: notify_def refFlowEnv_def)

lemma notify_refused: "\<exists>e w'. notify (refFlowEnv 500) y w = (Some e, w')"
  by (simp add: notify_def refFlowEnv_def)

lemma demo_due: "isTerminal ''Succeeded''" "wf_notifyURL (ko_spec demoFlow) \<noteq> []"
  by (simp_all add: isTerminal_def demoFlow_def)

lemma flow_run_ok:
  obtains z where "flow_run 200 = (Ret Done None, snd (flow_run 200))" "flowsOf (snd (flow_run 200)) (''ns'', ''f'') = Some z"
    "cw_tasks (snd (flow_run 200)) = cw_tasks flowWorld" "om_uid (ko_meta z) = ''u-f''"
    "ko_spec z = ko_spec demoFlow" "ws_phase (ko_status z) = ''Succeeded''"
    "\<forall>k. k \<noteq> (''ns'', ''f'') \<longrightarrow> flowsOf (snd (flow_run 200)) k = None"
proof -
  obtain y w2 where run: "flow_run 200 = notifyIfDue (refFlowEnv 200) refFlows ''Succeeded'' y w2"
    and y: "flowsOf w2 (''ns'', ''f'') = Some y" "ko_spec y = ko_spec demoFlow" "ws_notifiedPhase (ko_status y) = []"
      "om_uid (ko_meta y) = ''u-f''" "ws_phase (ko_status y) = ''Succeeded''"
    and t: "cw_tasks w2 = cw_tasks flowWorld" and only: "\<forall>k. k \<noteq> (''ns'', ''f'') \<longrightarrow> flowsOf w2 k = None"
    by (rule flow_published [of 200])
  define w3 where "w3 = w2\<lparr>cw_sent := cw_sent w2 @ [notifyRequest y (ws_phase (ko_status y))]\<rparr>"
  have k: "key_of (markNotified y ''Succeeded'') = (''ns'', ''f'')"
    using flows.store_key [OF y(1)] by (simp add: markNotified_def)
  have st: "flowsOf w3 (key_of (markNotified y ''Succeeded'')) = Some y"
    unfolding k w3_def using y(1) by simp
  obtain z w4 where u: "kStatusUpdate refFlows (markNotified y ''Succeeded'') w3 = (Inr z, w4)"
    and z: "cw_tasks w4 = cw_tasks w3" "om_uid (ko_meta z) = om_uid (ko_meta y)"
    by (rule flows_status_accepts [OF st]) (simp_all add: markNotified_def)
  have "notify (refFlowEnv 200) y w2 = (None, w3)" unfolding w3_def by (rule notify_ok)
  with u demo_due y(2,3) have eq: "flow_run 200 = (Ret Done None, w4)"
    unfolding run notifyIfDue_def by simp
  have rest: "\<forall>k. k \<noteq> (''ns'', ''f'') \<longrightarrow> flowsOf w4 k = None"
  proof (intro allI impI)
    fix l
    assume l: "l \<noteq> (''ns'', ''f'')"
    have "flowsOf w4 l = flowsOf w3 l" by (rule flows.write_frame(2) [OF u]) (use l k in simp)
    also have "\<dots> = flowsOf w2 l" by (simp add: w3_def)
    also have "\<dots> = None" using only l by blast
    finally show "flowsOf w4 l = None" .
  qed
  note p = flows.status_stored(2,3,6) [OF u st]
  show thesis
    by (rule that [of z]) (use eq z y t p k rest in \<open>simp_all add: w3_def markNotified_def\<close>)
qed

lemma flow_run_only: "flowsOf (snd (flow_run 200)) k = Some z \<Longrightarrow> k = (''ns'', ''f'')"
  using flow_run_ok by (metis option.distinct(1))

lemma flow_run_eq: "flow_run 200 = (Ret Done None, snd (flow_run 200))"
    "flow_run 500 = (Ret (RequeueAfter 10) None, snd (flow_run 500))"
proof -
  show "flow_run 200 = (Ret Done None, snd (flow_run 200))" by (rule flow_run_ok)
  obtain y w2 where run: "flow_run 500 = notifyIfDue (refFlowEnv 500) refFlows ''Succeeded'' y w2"
    and y: "ko_spec y = ko_spec demoFlow" "ws_notifiedPhase (ko_status y) = []"
    by (rule flow_published [of 500])
  obtain e w3 where "notify (refFlowEnv 500) y w2 = (Some e, w3)" using notify_refused by blast
  with demo_due y have "flow_run 500 = (Ret (RequeueAfter 10) None, w3)"
    unfolding run notifyIfDue_def by simp
  then show "flow_run 500 = (Ret (RequeueAfter 10) None, snd (flow_run 500))" by simp
qed

theorem workflow_reconciled_witness:
  "\<exists>z. flowsOf (snd (flow_run 200)) (''ns'', ''f'') = Some z \<and> map wk_name (ws_tasks (ko_status z)) = [''a'']
     \<and> ws_transactionID (ko_status z) = ''u-f''"
  using workflow_reconciled [OF flow_world.workflow_world_axioms flow_stored flow_run_eq(1)]
  by (auto simp: demoFlow_def demoStep_def demoMeta_def transactionOf_def)

theorem workflow_gathers_witness:
  "\<exists>z. flowsOf (snd (flow_run 200)) (''ns'', ''f'') = Some z
     \<and> map (\<lambda>ts. (wk_phase ts, wk_statusCode ts, wk_output ts)) (ws_tasks (ko_status z)) = [(''Succeeded'', Some 200, ''{}'')]"
proof -
  have steps: "wf_tasks (ko_spec demoFlow) = [demoStep ''a'' []]" by (simp add: demoFlow_def)
  have d: "distinct (map wt_name (wf_tasks (ko_spec demoFlow)))" by (simp add: steps)
  have n: "ns_of demoFlow = ''ns''" "childName demoFlow ''a'' = ''f-a''" "wt_name (demoStep ''a'' []) = ''a''"
    by (simp_all add: demoFlow_def demoMeta_def childName_def demoStep_def)
  have kids: "\<forall>step \<in> set (wf_tasks (ko_spec demoFlow)).
      tasksOf flowWorld (ns_of demoFlow, childName demoFlow (wt_name step)) = Some ((\<lambda>_. readyChild) step)"
    using flow_child n by (simp add: steps)
  from workflow_gathers [OF flow_kids.flow_children_axioms flow_stored flow_run_eq(1) d kids]
  show ?thesis by (auto simp: steps childStatus_def childPhase_def readyChild_def)
qed


theorem workflow_notification_retried_witness:
  "\<exists>w' z. flow_run 500 = (Ret (RequeueAfter 10) None, w') \<and> flowsOf w' (''ns'', ''f'') = Some z
     \<and> ws_phase (ko_status z) = ''Succeeded'' \<and> ws_notifiedPhase (ko_status z) = []"
proof -
  let ?env = "refFlowEnv 500"
  have get: "kGet refFlows (''ns'', ''f'') flowWorld = Inr demoFlow"
    using flow_stored by (simp add: refFlows_def tableClient_def tableGet_def)
  have fl: "ns_of (withIdentity ?env demoFlow) = ''ns''" "name_of (withIdentity ?env demoFlow) = ''f''"
      "om_uid (ko_meta (withIdentity ?env demoFlow)) = ''u-f''"
    by (simp_all add: withIdentity_def demoFlow_def demoMeta_def)
  have "wf_tasks (ko_spec demoFlow) = [demoStep ''a'' []]" by (simp add: demoFlow_def)
  then have steps: "reconcileSteps ?env (withIdentity ?env demoFlow) (wf_tasks (ko_spec demoFlow)) noSteps flowWorld = (Inr demoAcc, flowWorld)"
    using steps_demo [OF flow_child fl] by simp
  have "flowsOf flowWorld (key_of (withSteps demoAcc (withIdentity ?env demoFlow))) = Some demoFlow"
    "om_resourceVersion (ko_meta (withSteps demoAcc (withIdentity ?env demoFlow))) = om_resourceVersion (ko_meta demoFlow)"
    using flow_stored fl by (simp_all add: withSteps_def) (simp add: withIdentity_def)
  from flows_status_accepts [OF this] obtain y w2 where
    u: "kStatusUpdate refFlows (withSteps demoAcc (withIdentity ?env demoFlow)) flowWorld = (Inr y, w2)" by metis
  have due: "isTerminal (wfPhase demoAcc)" "ws_notifiedPhase (ko_status demoFlow) \<noteq> wfPhase demoAcc"
    unfolding demoAcc_phase by (simp_all add: isTerminal_def demoFlow_def)
  have down: "\<And>rq v resp. fst (we_do ?env rq v) = Inr resp \<Longrightarrow> sint (hr_status resp) \<ge> 300" by (auto simp: refFlowEnv_def)
  from workflow_notification_retried [OF flow_world.workflow_world_axioms get demo_due(2) steps due u down]
  show ?thesis unfolding demoAcc_phase by (auto simp: demoFlow_def)
qed

section \<open>Children\<close>

definition secondStep :: WorkflowTaskSpec where
  "secondStep = demoStep ''b'' [\<lparr>wm_sourceStep = ''a'', wm_sourceField = ''s'', wm_targetField = ''t''\<rparr>]"

definition secondChild :: HTTPTask where
  "secondChild = (blankTask (''ns'', ''f-b''))\<lparr>ko_spec := childSpec demoFlow secondStep\<rparr>"

definition childWorld :: cluster where
  "childWorld = emptyCluster\<lparr>cw_tasks := tableWith [readyChild, secondChild]\<rparr>"

theorem workflow_children_indexed_witness:
  "(''ns'', ''f-b'') \<in> set (findDependentTasks refTasks readyChild childWorld)"
proof -
  have n: "ns_of demoFlow = ''ns''" "name_of secondChild = ''f-b''"
    by (simp_all add: demoFlow_def secondChild_def blankTask_def demoMeta_def)
  have sp: "ko_spec secondChild = childSpec demoFlow secondStep" by (simp add: secondChild_def)
  have m: "\<lparr>wm_sourceStep = ''a'', wm_sourceField = ''s'', wm_targetField = ''t''\<rparr> \<in> set (wt_inputFrom secondStep)"
    by (simp add: secondStep_def demoStep_def)
  have src: "key_of readyChild = (ns_of demoFlow, childName demoFlow
      (wm_sourceStep \<lparr>wm_sourceStep = ''a'', wm_sourceField = ''s'', wm_targetField = ''t''\<rparr>))"
    by (simp add: readyChild_def blankTask_def demoFlow_def demoMeta_def childName_def)
  have st: "tasksOf childWorld (ns_of demoFlow, name_of secondChild) = Some secondChild"
    by (simp add: childWorld_def tableWith_def readyChild_def secondChild_def blankTask_def demoFlow_def demoMeta_def)
  obtain items where l: "kList refTasks (Some (ns_of readyChild)) taskSourceRefIndexKey
      (sourceRefIndexValue ''math.example.com/v1alpha1'' ''HTTPTask'' (name_of readyChild)) childWorld = Inr items"
    by (simp add: refTasks_def tableClient_def tableList_def)
  from workflow_children_indexed [OF sp m src tasks.kube_api_axioms taskIdx_key st l] show ?thesis by (simp add: n)
qed

section \<open>The dashboard\<close>

definition knownFlow :: Workflow where
  "knownFlow = demoFlow\<lparr>ko_status := (ko_status demoFlow)\<lparr>ws_transactionID := ''tx''\<rparr>\<rparr>"

theorem lookup_by_transaction_witness:
  "case lookupWorkflow refFlows ''tx'' (emptyCluster\<lparr>cw_flows := tableWith [knownFlow]\<rparr>) of
     Inr flow \<Rightarrow> ws_transactionID (ko_status flow) = ''tx'' | Inl e \<Rightarrow> False"
proof -
  let ?w = "emptyCluster\<lparr>cw_flows := tableWith [knownFlow]\<rparr>"
  obtain items where l: "kList refFlows None TransactionIndexKey ''tx'' ?w = Inr items"
    by (simp add: refFlows_def tableClient_def tableList_def)
  have "flowsOf ?w (''ns'', ''f'') = Some knownFlow \<and> ws_transactionID (ko_status knownFlow) = ''tx''"
    by (simp add: tableWith_def knownFlow_def demoFlow_def demoMeta_def)
  with lookup_by_transaction [OF flows.kube_api_axioms flowIdx_key l] show ?thesis
    by (auto split: sum.splits)
qed

section \<open>The database watcher\<close>

text \<open>Readers that walk an object and answer with the empty value for a missing or ill-typed field.\<close>

fun walk :: "jobj \<Rightarrow> string list \<Rightarrow> json option" where
  "walk m [] = Some (JObj m)"
| "walk m (k # ks) = (case kv_get m k of
     None \<Rightarrow> None
   | Some v \<Rightarrow> (if ks = [] then Some v else (case v of JObj m' \<Rightarrow> walk m' ks | _ \<Rightarrow> None)))"

definition walkString :: "jobj \<Rightarrow> string list \<Rightarrow> string \<times> bool \<times> goerr option" where
  "walkString m ks = (case walk m ks of
     None \<Rightarrow> ([], False, None)
   | Some (JStr s) \<Rightarrow> (s, True, None)
   | Some v \<Rightarrow> ([], False, Some (GoErr ''accessor error'')))"

definition walkSlice :: "jobj \<Rightarrow> string list \<Rightarrow> json list \<times> bool \<times> goerr option" where
  "walkSlice m ks = (case walk m ks of
     None \<Rightarrow> ([], False, None)
   | Some (JArr xs) \<Rightarrow> (xs, True, None)
   | Some v \<Rightarrow> ([], False, Some (GoErr ''accessor error'')))"

definition dbTask :: jobj where
  "dbTask = [(''name'', JStr ''a''), (''phase'', JStr ''Running''), (''statusCode'', JNum (Int64 200))]"

definition demoObj :: jobj where
  "demoObj = [(''metadata'', JObj [(''name'', JStr ''f'')]), (''spec'', JObj []),
     (''status'', JObj [(''phase'', JStr ''Running''), (''tasks'', JArr [JObj dbTask, JNull]),
        (''transactionID'', JStr ''tx'')])]"

definition demoDb :: dbEnv where
  "demoDb = \<lparr>de_getName = (\<lambda>u. fst (walkString u [''metadata'', ''name''])), de_nestedString = walkString,
     de_nestedSlice = walkSlice, de_codec = go_codec, de_now = 7, de_foreignKey = False, de_fail = (\<lambda>_. None)\<rparr>"

lemma demo_tx: "txIDOf demoDb demoObj = ''tx''"
  by (simp add: txIDOf_def demoDb_def demoObj_def walkString_def)

lemma demo_tasks: "rawTasksOf demoDb demoObj = [JObj dbTask, JNull]"
  by (simp add: rawTasksOf_def demoDb_def demoObj_def walkSlice_def)

lemma demo_handled: "handleWorkflow demoDb demoObj emptyDb = (None, snd (handleWorkflow demoDb demoObj emptyDb))"
proof -
  have "de_fail demoDb s = None" for s by (simp add: demoDb_def)
  then have "fst (handleWorkflow demoDb demoObj emptyDb) = None"
    by (simp add: handleWorkflow_def upsertRun_def upsertTask_def demo_tx demo_tasks)
  then show ?thesis by (metis prod.collapse)
qed

lemma demo_last: "lastTask (rawTasksOf demoDb demoObj) ''a'' = Some dbTask"
  by (simp add: demo_tasks lastTask_def stringMember_def dbTask_def)

theorem watcher_records_witness:
  "\<exists>r. db_tasks (snd (handleWorkflow demoDb demoObj emptyDb)) (''tx'', ''a'') = Some r \<and> tr_phase r = ''Running''"
  using watcher_records [OF demo_handled] by (simp add: demo_tx demo_last rowOf_def taskRow_def stringMember_def dbTask_def)

theorem watcher_idempotent_witness:
  "let d = snd (handleWorkflow demoDb demoObj emptyDb) in handleWorkflow demoDb demoObj d = (None, d)"
  using watcher_idempotent [OF demo_handled] by (simp add: Let_def)

theorem int64_status_code_dropped_witness:
  "\<exists>r. db_tasks (snd (handleWorkflow demoDb demoObj emptyDb)) (''tx'', ''a'') = Some r \<and> tr_status_code r = None"
  using int64_status_code_dropped [OF demo_handled _ demo_last] by (simp add: demo_tx dbTask_def)

definition demoKube :: "unit kubeLib" where
  "demoKube = \<lparr>InClusterConfig = Inl (GoErr ''not in cluster''), BuildConfigFromFlags = (\<lambda>path. Inr ()),
     NewForConfig = (\<lambda>cfg. None)\<rparr>"

theorem watcher_keeps_reference_witness:
  "watcherMain demoKube (\<lambda>k. ''x'') (\<lambda>url. None) None None None = Watching (Some emptyDb)
   \<and> db_inv (handleAll [demoDb] [Some demoObj] emptyDb)"
proof -
  have w: "watcherMain demoKube (\<lambda>k. ''x'') (\<lambda>url. None) None None None = Watching (Some emptyDb)"
    by (simp add: watcherMain_def mustEnv_def ensureSchema_def buildDynamicClient_def demoKube_def)
  from watcher_keeps_reference [OF w] w show ?thesis by (simp del: handleAll.simps)
qed

end
