(* ===== verification/Task_Steps.thy ===== *)
theory Task_Steps
  imports HTTPTask_Props Workflow_Props
begin

text \<open>
  The HTTPTask and Workflow controllers at work together: a step relation in which both reconcilers run in any
  order on any keys, with any outcome, between requests of users. A task that carries the finalizer stays in the store
  for as long as some task of its namespace takes a field from it, although workflows rewrite their tasks meanwhile.
\<close>

section \<open>The step relation\<close>

record 'w flowCluster =
  fc_util :: kutil
  fc_http :: "'w httpEnv"
  fc_flowEnv :: "'w wfEnv"
  fc_tasks :: "('w, HTTPTask) kclient"
  fc_flows :: "('w, Workflow) kclient"

text \<open>\<open>user\<close> is what others do to the world.\<close>

inductive tstep :: "'w flowCluster \<Rightarrow> ('w \<Rightarrow> 'w \<Rightarrow> bool) \<Rightarrow> 'w \<Rightarrow> 'w \<Rightarrow> bool"
  for e :: "'w flowCluster" and user :: "'w \<Rightarrow> 'w \<Rightarrow> bool" where
  task_step: "HTTPTaskReconcile (fc_util e) (fc_http e) (fc_tasks e) k w = (r, w') \<Longrightarrow> tstep e user w w'"
| flow_step: "WorkflowReconcile (fc_flowEnv e) (fc_flows e) k w = (r, w') \<Longrightarrow> tstep e user w w'"
| others_step: "user w w' \<Longrightarrow> tstep e user w w'"

inductive_cases tstepE: "tstep e user w w'"

lemma tstep_cases [consumes 1, case_names Task Flow Others]:
  assumes "tstep e user w w'"
  obtains k where "w' = snd (HTTPTaskReconcile (fc_util e) (fc_http e) (fc_tasks e) k w)"
  | k where "w' = snd (WorkflowReconcile (fc_flowEnv e) (fc_flows e) k w)"
  | "user w w'"
  using assms by (auto elim!: tstepE intro: that) (metis snd_conv)+

section \<open>What a reconcile can change\<close>

text \<open>The work of a task writes statuses and sends requests, nothing else.\<close>

lemma fail_preserves:
  assumes "\<And>x v. P v \<Longrightarrow> P (snd (kStatusUpdate cl x v))" and "P w"
  shows "P (snd (fail u cl task reason msg w))" and "P (snd (waiting u cl task reason msg w))"
proof -
  let ?x = "setTaskCondition u (taskCondition task ''False'' reason msg) task"
  obtain q v where q: "kStatusUpdate cl ?x w = (q, v)" by fastforce
  have "P v" using assms(1) [OF assms(2), of ?x] q by simp
  with q show "P (snd (fail u cl task reason msg w))" "P (snd (waiting u cl task reason msg w))"
    by (simp_all add: fail_def waiting_def split: sum.splits)
qed

lemma callEndpoint_preserves:
  assumes "\<And>x v. P v \<Longrightarrow> P (snd (kStatusUpdate cl x v))" and "\<And>rq v. P v \<Longrightarrow> P (snd (he_do he rq v))" and "P w"
  shows "P (snd (callEndpoint u he cl task bytes w))"
proof -
  obtain q v where q: "he_do he (taskRequest he task bytes) w = (q, v)" by fastforce
  have v: "P v" using assms(2) [OF assms(3), of "taskRequest he task bytes"] q by simp
  have store: "P (snd (case kStatusUpdate cl x v of (Inl e, w2) \<Rightarrow> (Ret Done (Some e), w2) | (Inr y, w2) \<Rightarrow> (Ret Done None, w2)))" for x
    using assms(1) [OF v, of x] by (auto split: prod.splits sum.splits)
  show ?thesis
    using q v store assms(3)
    by (auto simp: callEndpoint_def intro!: fail_preserves(1) [where P = P] assms(1) split: option.splits sum.splits)
qed

lemma runTaskBody_preserves:
  assumes "\<And>x v. P v \<Longrightarrow> P (snd (kStatusUpdate cl x v))" and "\<And>rq v. P v \<Longrightarrow> P (snd (he_do he rq v))" and "P w"
  shows "P (snd (runTaskBody u he cl task w))"
proof -
  have send: "P (snd (sendBody u he cl task bytes w))" for bytes
  proof -
    let ?x = "setTaskCondition u (taskCondition task ''False'' ''Running'' (''calling '' @ ht_endpoint (ko_spec task))) task"
    obtain q v where q: "kStatusUpdate cl ?x w = (q, v)" by fastforce
    have "P v" using assms(1) [OF assms(3), of ?x] q by simp
    then show ?thesis unfolding sendBody_def q
      using assms callEndpoint_preserves [where P = P, OF assms(1,2)] by (cases q) auto
  qed
  note ends = fail_preserves [where P = P, OF assms(1,3)]
  show ?thesis
    unfolding runTaskBody_def using assms(3) ends send by (auto split: bodyResult.splits sum.splits)
qed

text \<open>A Workflow writes its children and its status, and posts.\<close>

lemma reconcileSteps_preserves:
  assumes "\<And>step v. P v \<Longrightarrow> P (snd (we_createOrUpdate env (ns_of flow, childName flow (wt_name step)) (mutateChild env flow step) v))"
    and "P w"
  shows "P (snd (reconcileSteps env flow steps acc w))"
  using assms(2)
proof (induction steps arbitrary: acc w)
  case (Cons step steps)
  obtain q v where q: "we_createOrUpdate env (ns_of flow, childName flow (wt_name step)) (mutateChild env flow step) w = (q, v)"
    by fastforce
  have "P v" using assms(1) [OF Cons.prems, of step] q by simp
  with q Cons.IH show ?case by (cases q) simp_all
qed simp

lemma Workflow_preserves:
  assumes "\<And>flow step v. P v \<Longrightarrow> P (snd (we_createOrUpdate env (ns_of flow, childName flow (wt_name step)) (mutateChild env flow step) v))"
    and "\<And>x v. P v \<Longrightarrow> P (snd (kStatusUpdate cl x v))" and "\<And>rq v. P v \<Longrightarrow> P (snd (we_do env rq v))" and "P w"
  shows "P (snd (WorkflowReconcile env cl k w))"
proof (cases "kGet cl k w")
  case (Inr flow)
  have notify: "P (snd (notify env x v))" if "P v" for x v
  proof (cases "we_marshalStatus env (ko_status x)")
    case (Inr body)
    obtain q v' where q: "we_do env (notifyRequest x body) v = (q, v')" by fastforce
    have "P v'" using assms(3) [OF that, of "notifyRequest x body"] q by simp
    with Inr q that show ?thesis by (cases q) (auto simp: notify_def split: option.splits)
  qed (simp add: notify_def that)
  have due: "P (snd (notifyIfDue env cl phase x v))" if "P v" for phase x v
  proof -
    obtain q v1 where q: "notify env x v = (q, v1)" by fastforce
    obtain r v2 where r: "kStatusUpdate cl (markNotified x phase) v1 = (r, v2)" by fastforce
    have v1: "P v1" using notify [OF that, of x] q by simp
    have "P v2" using assms(2) [OF v1, of "markNotified x phase"] r by simp
    with v1 q r that show ?thesis by (cases q; cases r) (simp_all add: notifyIfDue_def)
  qed
  obtain a w1 where a: "reconcileSteps env (withIdentity env flow) (wf_tasks (ko_spec flow)) noSteps w = (a, w1)" by fastforce
  have w1: "P w1" using reconcileSteps_preserves [where P = P, OF assms(1,4), of "withIdentity env flow"] a by (metis snd_conv)
  show ?thesis
  proof (cases a)
    case acc: (Inr acc)
    obtain s w2 where s: "kStatusUpdate cl (withSteps acc (withIdentity env flow)) w1 = (s, w2)" by fastforce
    have "P w2" using assms(2) [OF w1, of "withSteps acc (withIdentity env flow)"] s by simp
    with Inr a acc s due show ?thesis by (cases s) (simp_all add: WorkflowReconcile_def)
  qed (use Inr a w1 in \<open>simp add: WorkflowReconcile_def\<close>)
qed (simp add: WorkflowReconcile_def assms(4))

section \<open>The contract of the cluster\<close>

text \<open>\<open>secured\<close>: the task \<open>(ns, n)\<close> is stored with the finalizer; \<open>taken\<close>: some task takes a field from it.\<close>

definition secured :: "('w \<Rightarrow> key \<Rightarrow> HTTPTask option) \<Rightarrow> key \<Rightarrow> 'w \<Rightarrow> bool" where
  "secured tasks k w \<longleftrightarrow> (\<exists>t. tasks w k = Some t \<and> taskInUseFinalizer \<in> set (finalizers_of t))"

definition taken :: "('w \<Rightarrow> key \<Rightarrow> HTTPTask option) \<Rightarrow> key \<Rightarrow> 'w \<Rightarrow> bool" where
  "taken tasks k w \<longleftrightarrow> (\<exists>d t m. tasks w (fst k, d) = Some t \<and> m \<in> set (ht_inputFrom (ko_spec t))
     \<and> sourceRefIs (am_sourceRef m) ''math.example.com/v1alpha1'' ''HTTPTask'' (snd k))"

text \<open>
  The HTTPTask client serves one API; \<open>CreateOrUpdate\<close> leaves the finalizers of a stored task when the mutate
  function does, and \<open>SetControllerReference\<close> touches neither name nor finalizers; nothing else writes tasks.
\<close>

locale task_cluster =
  fixes e :: "'w flowCluster" and tasks :: "'w \<Rightarrow> key \<Rightarrow> HTTPTask option" and idx :: "string \<Rightarrow> HTTPTask \<Rightarrow> string list"
  assumes util: "kube_util (fc_util e)"
    and task_api: "kube_api (fc_tasks e) tasks idx"
    and task_index: "idx taskSourceRefIndexKey = taskIndex"
    and child_kept: "(\<forall>x y. f x = Inr y \<longrightarrow> key_of y = key_of x \<and> finalizers_of y = finalizers_of x)
      \<Longrightarrow> secured tasks l w \<Longrightarrow> secured tasks l (snd (we_createOrUpdate (fc_flowEnv e) k f w))"
    and controller_ref: "we_setController (fc_flowEnv e) flow x = Inr y
      \<Longrightarrow> key_of y = key_of x \<and> finalizers_of y = finalizers_of x"
    and do_frame: "tasks (snd (he_do (fc_http e) rq w)) = tasks w" "tasks (snd (we_do (fc_flowEnv e) rq w)) = tasks w"
    and flow_frame: "tasks (snd (kStatusUpdate (fc_flows e) z w)) = tasks w"
begin

lemma status_secured: "secured tasks l w \<Longrightarrow> secured tasks l (snd (kStatusUpdate (fc_tasks e) x w))"
proof -
  assume "secured tasks l w"
  then obtain t where t: "tasks w l = Some t" "taskInUseFinalizer \<in> set (finalizers_of t)" by (auto simp: secured_def)
  obtain q v where q: "kStatusUpdate (fc_tasks e) x w = (q, v)" by fastforce
  show ?thesis
  proof (cases "l = key_of x \<and> (\<exists>y. q = Inr y)")
    case True
    then obtain y where "kStatusUpdate (fc_tasks e) x w = (Inr y, v)" and st: "tasks w (key_of x) = Some t"
      using q t(1) by auto
    from kube_api.status_stored [OF task_api this] True t(2) q show ?thesis by (auto simp: secured_def)
  next
    case False
    then have "tasks v l = tasks w l"
      using q kube_api.write_frame(2) [OF task_api q] kube_api.status_err [OF task_api] by (cases q) auto
    with t q show ?thesis by (simp add: secured_def)
  qed
qed

lemma do_secured:
  "secured tasks l (snd (he_do (fc_http e) rq w)) \<longleftrightarrow> secured tasks l w"
  "secured tasks l (snd (we_do (fc_flowEnv e) rq w)) \<longleftrightarrow> secured tasks l w"
  "secured tasks l (snd (kStatusUpdate (fc_flows e) z w)) \<longleftrightarrow> secured tasks l w"
  by (simp_all add: secured_def do_frame flow_frame)

lemma work_secured: "secured tasks l w \<Longrightarrow> secured tasks l (snd (runTaskBody (fc_util e) (fc_http e) (fc_tasks e) x w))"
  by (rule runTaskBody_preserves [where P = "secured tasks l"]) (auto intro: status_secured simp: do_secured)

lemma other_secured:
  assumes "secured tasks l w" and "l \<noteq> k"
  shows "secured tasks l (snd (HTTPTaskReconcile (fc_util e) (fc_http e) (fc_tasks e) k w))"
proof (cases "kGet (fc_tasks e) k w")
  case (Inr x)
  have k: "key_of x = k" by (rule kube_api.store_key [OF task_api kube_api.get_current [OF task_api Inr]])
  have upd: "secured tasks l (snd (kUpdate (fc_tasks e) y w))" if "key_of y = k" for y
    using kube_api.write_frame(1) [OF task_api, of y w "fst (kUpdate (fc_tasks e) y w)" "snd (kUpdate (fc_tasks e) y w)" l]
      assms that by (simp add: secured_def)
  let ?rem = "with_finalizers (\<lambda>fs. RemoveFinalizer (fc_util e) fs taskInUseFinalizer) x"
  let ?add = "with_finalizers (\<lambda>fs. AddFinalizer (fc_util e) fs taskInUseFinalizer) x"
  obtain q v q' v' where q: "kUpdate (fc_tasks e) ?rem w = (q, v)" "kUpdate (fc_tasks e) ?add w = (q', v')" by fastforce
  have "secured tasks l v" "secured tasks l v'" using upd [of ?rem] upd [of ?add] k q by simp_all
  with Inr q assms(1) work_secured show ?thesis
    by (auto simp: HTTPTaskReconcile_guarded guarded_def handleDeletion_def ensureFinalizer_def split: sum.splits)
qed (simp add: HTTPTaskReconcile_def assms(1))

lemma own_secured:
  assumes "secured tasks k w" and "taken tasks k w"
  shows "secured tasks k (snd (HTTPTaskReconcile (fc_util e) (fc_http e) (fc_tasks e) k w))"
proof -
  obtain t where t: "tasks w k = Some t" "taskInUseFinalizer \<in> set (finalizers_of t)"
    using assms(1) by (auto simp: secured_def)
  have k: "key_of t = k" by (rule kube_api.store_key [OF task_api t(1)])
  note kind = protected_kind.intro [OF util task_api]
  show ?thesis
  proof (cases "deleting t")
    case True
    from assms(2) obtain d dep m where d: "tasks w (fst k, d) = Some dep" "m \<in> set (ht_inputFrom (ko_spec dep))"
      "sourceRefIs (am_sourceRef m) ''math.example.com/v1alpha1'' ''HTTPTask'' (snd k)" unfolding taken_def by blast
    have "taskInUse (fc_tasks e) t w \<noteq> Inr False"
      using used_by_task [OF task_api task_index d(1) task_refers [OF d(2,3)]] k by (metis fst_conv snd_conv)
    from protected_kind.deletion_blocked [OF kind t(1) True t(2), where inUse = "taskInUse (fc_tasks e)", OF this] assms(1)
    show ?thesis unfolding HTTPTaskReconcile_guarded by metis
  next
    case False
    obtain r w' where run: "guarded (fc_util e) (fc_tasks e) taskInUseFinalizer (taskInUse (fc_tasks e))
        (runTaskBody (fc_util e) (fc_http e) (fc_tasks e)) k w = (r, w')" by fastforce
    have "secured tasks k w'"
    proof (rule protected_kind.live_guarded [OF kind t(1) False run])
      assume "tasks w' = tasks w"
      with assms(1) show ?thesis by (simp add: secured_def)
    next
      fix y w1
      assume "runTaskBody (fc_util e) (fc_http e) (fc_tasks e) y w1 = (r, w')"
        and "taskInUseFinalizer \<in> set (finalizers_of t) \<Longrightarrow> w1 = w \<and> y = t"
      with t(2) work_secured [OF assms(1), of y] show ?thesis by simp
    qed
    with run show ?thesis unfolding HTTPTaskReconcile_guarded by simp
  qed
qed

lemma mutate_keeps:
  "mutateChild (fc_flowEnv e) flow step x = Inr y \<Longrightarrow> key_of y = key_of x \<and> finalizers_of y = finalizers_of x"
  unfolding mutateChild_def by (drule controller_ref) simp

lemma flow_secured: "secured tasks l w \<Longrightarrow> secured tasks l (snd (WorkflowReconcile (fc_flowEnv e) (fc_flows e) k w))"
proof (rule Workflow_preserves [where P = "secured tasks l"])
  show "secured tasks l v \<Longrightarrow> secured tasks l (snd (we_createOrUpdate (fc_flowEnv e) (ns_of flow, childName flow (wt_name step))
      (mutateChild (fc_flowEnv e) flow step) v))" for flow step v
    by (rule child_kept) (use mutate_keeps in blast)
qed (simp_all add: do_secured)

lemma step_secured:
  assumes "tstep e user w w'" and "secured tasks l w" and "taken tasks l w"
    and "\<And>v v'. user v v' \<Longrightarrow> secured tasks l v \<Longrightarrow> secured tasks l v'"
  shows "secured tasks l w'"
  using assms(1)
proof (cases rule: tstep_cases)
  case (Task k)
  with own_secured other_secured assms(2,3) show ?thesis by (cases "l = k") auto
next
  case (Flow k)
  with flow_secured assms(2) show ?thesis by simp
next
  case Others
  with assms(2,4) show ?thesis by blast
qed

lemma run_secured:
  assumes "(\<lambda>v v'. taken tasks l v \<and> tstep e user v v')\<^sup>*\<^sup>* w w'" and "secured tasks l w"
    and "\<And>v v'. user v v' \<Longrightarrow> secured tasks l v \<Longrightarrow> secured tasks l v'"
  shows "secured tasks l w'"
  using assms(1)
proof (induction rule: rtranclp_induct)
  case (step v v')
  then show ?case using step_secured [of user v v'] assms(3) by blast
qed (rule assms(2))

end

section \<open>Guarantee\<close>

text \<open>
  C18. Over any run of the HTTPTask and Workflow controllers, in any order, with any failures and between any requests
  of users that leave the finalizer, a task with the finalizer stays in the store with it for as long as
  some task of its namespace takes a field from it: workflows that rewrite the task meanwhile cannot undo that.
\<close>

theorem source_task_survives:
  assumes "task_cluster e tasks idx" and "(\<lambda>v v'. taken tasks k v \<and> tstep e user v v')\<^sup>*\<^sup>* w w'"
    and "secured tasks k w" and "\<And>v v'. user v v' \<Longrightarrow> secured tasks k v \<Longrightarrow> secured tasks k v'"
  shows "\<exists>t. tasks w' k = Some t \<and> taskInUseFinalizer \<in> set (finalizers_of t)"
  using task_cluster.run_secured [OF assms(1,2,3)] assms(4) unfolding secured_def by blast

end
