(* ===== verification/Flow_Answer.thy ===== *)
theory Flow_Answer
  imports HTTPTask_Props Workflow_Props
begin

text \<open>
  From the endpoint to the dashboard: what the HTTPTask controller records of an answer is what the Workflow
  controller reads as the state of the step.
\<close>

text \<open>The two controllers look for the same condition.\<close>

lemma findReadyCondition_is: "findReadyCondition cs = findCondition ''Ready'' cs"
  by (induction cs) simp_all

lemma recorded_childStatus:
  assumes "kube_util u" and "ko_status y = ko_status (recordResponse u running hash code out)"
  shows "wk_output (childStatus step y) = out" and "wk_statusCode (childStatus step y) = Some (ucast code)"
    and "wk_phase (childStatus step y) = (if 200 \<le> sint code \<and> sint code < 300 then ''Succeeded'' else ''Failed'')"
proof -
  have c: "findReadyCondition (hs_conditions (ko_status y)) = Some
      (if sint code < 200 \<or> sint code \<ge> 300
       then taskCondition running ''False'' ''NonSuccessStatus'' (''endpoint returned HTTP '' @ dec_int (sint code))
       else taskCondition running ''True'' ''Computed''
              (''called '' @ ht_endpoint (ko_spec running) @ '', got HTTP '' @ dec_int (sint code)))"
    unfolding findReadyCondition_is assms(2) recordResponse_def setTaskCondition_def
    by (simp add: kube_util.set_condition [OF assms(1)] taskCondition_def)
  show "wk_phase (childStatus step y) = (if 200 \<le> sint code \<and> sint code < 300 then ''Succeeded'' else ''Failed'')"
    unfolding childStatus_def c by (simp add: childPhase_def taskCondition_def)
  show "wk_output (childStatus step y) = out" "wk_statusCode (childStatus step y) = Some (ucast code)"
    unfolding childStatus_def assms(2) by (simp_all add: recordResponse_fields)
qed

text \<open>
  C4. An answer reaches the Workflow: when the child of a step sends its body, the endpoint answers and the
  reconcile of the child reports success, the next successful reconcile of the Workflow publishes for that step the
  response body, its code, and the phase Succeeded for a 2xx code and Failed for any other.
\<close>

theorem answer_reaches_workflow:
  assumes "kube_util u" and "kube_api cT tasks idxT"
    and "tasks w (ns_of flow, childName flow (wt_name step)) = Some task" and "\<not> deleting task"
    and "taskInUseFinalizer \<in> set (finalizers_of task)"
    and "buildBody (he_codec he) cT task w = BodyOk body" and "marshal (he_codec he) (bodyJson body) = Inr bytes"
    and "\<not> (hs_observedInputHash (ko_status task) = sha256hex bytes \<and> hs_output (ko_status task) \<noteq> [])"
    and "he_newRequest he (taskMethod task) (ht_endpoint (ko_spec task)) = None"
    and "\<And>rq v. \<exists>v'. he_do he rq v = (Inr resp, v') \<and> tasks v' = tasks v" and "hr_body resp = Inr out"
    and "HTTPTaskReconcile u he cT (ns_of flow, childName flow (wt_name step)) w = (Ret Done None, w1)"
    and "flow_children cF flows idxF env tasks" and "flows w1 k = Some flow"
    and "step \<in> set (wf_tasks (ko_spec flow))" and "distinct (map wt_name (wf_tasks (ko_spec flow)))"
    and "\<forall>s \<in> set (wf_tasks (ko_spec flow)). tasks w (ns_of flow, childName flow (wt_name s)) \<noteq> None"
    and "WorkflowReconcile env cF k w1 = (Ret Done None, w2)"
  shows "\<exists>z ts. flows w2 k = Some z \<and> ts \<in> set (ws_tasks (ko_status z)) \<and> wk_name ts = wt_name step
    \<and> wk_output ts = out \<and> wk_statusCode ts = Some (ucast (hr_status resp))
    \<and> wk_phase ts = (if 200 \<le> sint (hr_status resp) \<and> sint (hr_status resp) < 300 then ''Succeeded'' else ''Failed'')"
proof -
  let ?k = "\<lambda>s. (ns_of flow, childName flow (wt_name s))"
  obtain y running where y: "tasks w1 (?k step) = Some y"
      "ko_status y = ko_status (recordResponse u running (sha256hex bytes) (hr_status resp) out)"
    and frame: "\<And>l. l \<noteq> ?k step \<Longrightarrow> tasks w1 l = tasks w l"
    using sent_and_recorded [OF assms(1-12)] by metis
  have kids: "\<forall>s \<in> set (wf_tasks (ko_spec flow)). tasks w1 (?k s) = Some (the (tasks w1 (?k s)))"
  proof
    fix s
    assume "s \<in> set (wf_tasks (ko_spec flow))"
    with assms(17) y(1) frame [of "?k s"] have "tasks w1 (?k s) \<noteq> None" by (cases "?k s = ?k step") auto
    then show "tasks w1 (?k s) = Some (the (tasks w1 (?k s)))" by simp
  qed
  from gathered_steps [OF assms(13,14,18,16) kids] obtain z where z: "flows w2 k = Some z"
    "ws_tasks (ko_status z) = map (\<lambda>s. childStatus s (the (tasks w1 (?k s)))) (wf_tasks (ko_spec flow))" by blast
  have "childStatus step y \<in> set (ws_tasks (ko_status z))" using z(2) assms(15) y(1) by force
  moreover have "wk_name (childStatus step y) = wt_name step" by (simp add: childStatus_def)
  ultimately show ?thesis
    using z(1) recorded_childStatus [OF assms(1) y(2), of step] by blast
qed

end
