(* ===== verification/Cluster_Steps.thy ===== *)
theory Cluster_Steps
  imports Add_Ctl Subtract_Ctl Square_Ctl
begin

text \<open>
  The arithmetic controllers at work together: a step relation in which the Add, Subtract and Square
  reconcilers run in any order on any keys, with any outcome, between requests of users. The finalizer protocol
  is an invariant of it: an Add that carries the finalizer stays in the store for as long as a Square
  refers to it.
\<close>

section \<open>The step relation\<close>

record 'w arith =
  ac_util :: kutil
  ac_lib :: schemaLib
  ac_get :: "'w dynGet"
  ac_mgr :: "'w manager"
  ac_adds :: "('w, Add) kclient"
  ac_subtracts :: "('w, Subtract) kclient"
  ac_squares :: "('w, Square) kclient"

text \<open>A state: the world and the watcher of the Square controller. \<open>user\<close> is what others do to the world.\<close>

inductive astep :: "'w arith \<Rightarrow> ('w \<Rightarrow> 'w \<Rightarrow> bool) \<Rightarrow> 'w \<times> DynamicWatcher \<Rightarrow> 'w \<times> DynamicWatcher \<Rightarrow> bool"
  for e :: "'w arith" and user :: "'w \<Rightarrow> 'w \<Rightarrow> bool" where
  add_step: "AddReconcile (ac_util e) (ac_adds e) (ac_squares e) k w = (r, w') \<Longrightarrow> astep e user (w, dw) (w', dw)"
| subtract_step: "SubtractReconcile (ac_util e) (ac_subtracts e) (ac_squares e) k w = (r, w') \<Longrightarrow> astep e user (w, dw) (w', dw)"
| square_step: "SquareReconcile (ac_util e) (ac_lib e) (ac_get e) (ac_mgr e) (ac_squares e) k dw w = (r, dw', w')
    \<Longrightarrow> astep e user (w, dw) (w', dw')"
| user_step: "user w w' \<Longrightarrow> astep e user (w, dw) (w', dw)"

inductive_cases astepE: "astep e user (w, dw) s'"

lemma astep_cases [consumes 1, case_names Add Subtract Square User]:
  assumes "astep e user (w, dw) (w', dw')"
  obtains k where "w' = snd (AddReconcile (ac_util e) (ac_adds e) (ac_squares e) k w)"
  | k where "w' = snd (SubtractReconcile (ac_util e) (ac_subtracts e) (ac_squares e) k w)"
  | k where "w' = snd (snd (SquareReconcile (ac_util e) (ac_lib e) (ac_get e) (ac_mgr e) (ac_squares e) k dw w))"
  | "user w w'"
  using assms by (auto elim!: astepE intro: that) (metis snd_conv)+

section \<open>What a reconcile can change\<close>

text \<open>A property that every write of a client keeps is kept by a reconcile that only writes through it.\<close>

lemma publish_preserves:
  assumes "\<And>x v. P v \<Longrightarrow> P (snd (kStatusUpdate cl x v))" and "P w"
  shows "P (snd (publishResult cl calc result_of published x w))"
proof -
  obtain q v where "kStatusUpdate cl (x\<lparr>ko_status := published x\<rparr>) w = (q, v)" by fastforce
  with assms(1) [OF assms(2), of "x\<lparr>ko_status := published x\<rparr>"] assms(2) show ?thesis
    by (simp add: publishResult_def split: sum.splits)
qed

lemma returnUpdate_snd: "snd (returnUpdate cl x w) = snd (kStatusUpdate cl x w)"
  by (simp add: returnUpdate_def split: prod.splits sum.splits)

lemma Square_preserves:
  assumes "\<And>x v. P v \<Longrightarrow> P (snd (kStatusUpdate cl x v))" and "\<And>g v. P v \<Longrightarrow> P (snd (ctlWatch mgr g v))" and "P w"
  shows "P (snd (snd (SquareReconcile u lib get mgr cl k dw w)))"
proof (cases "kGet cl k w")
  case (Inr square)
  have transfer: "P (snd (squareTransfer u lib get cl square v))" if "P v" for v
    using assms(1) that
    by (auto simp: squareTransfer_def squarePublish_def returnUpdate_snd split: sum.splits option.splits)
  show ?thesis
  proof (cases "ParseGroupVersion lib (sr_apiVersion (sq_sourceRef (ko_spec square)))")
    case (Inl e)
    with Inr assms(1,3) show ?thesis
      by (simp add: SquareReconcile_def split_beta returnUpdate_snd)
  next
    case gv: (Inr gv)
    obtain er dw1 w1 where en: "Ensure mgr (WithKind gv (sr_kind (sq_sourceRef (ko_spec square)))) dw w = (er, dw1, w1)"
      by (metis prod_cases3)
    have "P w1" using en assms(2) [OF assms(3), of "WithKind gv (sr_kind (sq_sourceRef (ko_spec square)))"] assms(3)
      by (auto simp: Ensure_def split: if_splits option.splits prod.splits)
    then show ?thesis using Inr gv en transfer assms(1)
      by (simp add: SquareReconcile_def split_beta returnUpdate_snd split: option.splits)
  qed
qed (simp add: SquareReconcile_def assms(3))

text \<open>The Add \<open>(ns, n)\<close> carries the finalizer and the Square \<open>(ns, q)\<close> refers to it.\<close>

definition held :: "('w \<Rightarrow> key \<Rightarrow> Add option) \<Rightarrow> ('w \<Rightarrow> key \<Rightarrow> Square option) \<Rightarrow> string \<Rightarrow> string \<Rightarrow> string \<Rightarrow> 'w \<Rightarrow> bool" where
  "held adds squares ns n q w \<longleftrightarrow> (\<exists>add sq. adds w (ns, n) = Some add \<and> inUseFinalizer \<in> set (finalizers_of add)
     \<and> squares w (ns, q) = Some sq \<and> sourceRefIs (sq_sourceRef (ko_spec sq)) SchemeGroupVersion ''Add'' n)"

section \<open>The contract of the cluster\<close>

text \<open>
  The clients of the three kinds serve one API each, and a write to one kind or a new watch leaves the stored
  objects of the others.
\<close>

locale arith_cluster =
  fixes e :: "'w arith" and adds :: "'w \<Rightarrow> key \<Rightarrow> Add option" and subtracts :: "'w \<Rightarrow> key \<Rightarrow> Subtract option"
    and squares :: "'w \<Rightarrow> key \<Rightarrow> Square option"
    and idxA :: "string \<Rightarrow> Add \<Rightarrow> string list" and idxB :: "string \<Rightarrow> Subtract \<Rightarrow> string list"
    and idxS :: "string \<Rightarrow> Square \<Rightarrow> string list"
  assumes util: "kube_util (ac_util e)"
    and add_api: "kube_api (ac_adds e) adds idxA"
    and subtract_api: "kube_api (ac_subtracts e) subtracts idxB"
    and square_api: "kube_api (ac_squares e) squares idxS"
    and square_index: "idxS sourceRefIndexKey = squareIndex"
    and add_frame: "squares (snd (kUpdate (ac_adds e) x w)) = squares w" "squares (snd (kStatusUpdate (ac_adds e) x w)) = squares w"
    and subtract_frame: "squares (snd (kUpdate (ac_subtracts e) y w)) = squares w"
      "squares (snd (kStatusUpdate (ac_subtracts e) y w)) = squares w"
      "adds (snd (kUpdate (ac_subtracts e) y w)) = adds w" "adds (snd (kStatusUpdate (ac_subtracts e) y w)) = adds w"
    and square_frame: "adds (snd (kStatusUpdate (ac_squares e) z w)) = adds w"
    and watch_frame: "adds (snd (ctlWatch (ac_mgr e) g w)) = adds w" "squares (snd (ctlWatch (ac_mgr e) g w)) = squares w"
begin

lemma add_kind: "calc_kind (ac_util e) (ac_adds e) adds idxA addValue ad_result (addStatus (ac_util e))"
  by (rule add_calc_kind [OF util add_api])

lemma add_keeps_squares: "squares (snd (AddReconcile (ac_util e) (ac_adds e) (ac_squares e) k w)) = squares w"
  unfolding AddReconcile_guarded
  by (rule guarded_preserves [where P = "\<lambda>v. squares v = squares w"])
    (auto intro!: publish_preserves [where P = "\<lambda>v. squares v = squares w"] simp: add_frame)

lemma subtract_keeps:
  "squares (snd (SubtractReconcile (ac_util e) (ac_subtracts e) (ac_squares e) k w)) = squares w"
  "adds (snd (SubtractReconcile (ac_util e) (ac_subtracts e) (ac_squares e) k w)) = adds w"
  unfolding SubtractReconcile_guarded
  by (rule guarded_preserves [where P = "\<lambda>v. squares v = squares w"],
      auto intro!: publish_preserves [where P = "\<lambda>v. squares v = squares w"] simp: subtract_frame)
    (rule guarded_preserves [where P = "\<lambda>v. adds v = adds w"],
      auto intro!: publish_preserves [where P = "\<lambda>v. adds v = adds w"] simp: subtract_frame)

lemma square_keeps_adds:
  "adds (snd (snd (SquareReconcile (ac_util e) (ac_lib e) (ac_get e) (ac_mgr e) (ac_squares e) k dw w))) = adds w"
  by (rule Square_preserves [where P = "\<lambda>v. adds v = adds w"]) (simp_all add: square_frame watch_frame)

text \<open>A reconcile of Squares never changes what a Square refers to.\<close>

lemma square_keeps_spec:
  assumes "squares w l = Some sq"
  shows "\<exists>sq'. squares (snd (snd (SquareReconcile (ac_util e) (ac_lib e) (ac_get e) (ac_mgr e) (ac_squares e) k dw w))) l
    = Some sq' \<and> ko_spec sq' = ko_spec sq"
proof (rule Square_preserves [where P = "\<lambda>v. \<exists>sq'. squares v l = Some sq' \<and> ko_spec sq' = ko_spec sq"])
  fix x v
  assume v: "\<exists>sq'. squares v l = Some sq' \<and> ko_spec sq' = ko_spec sq"
  obtain q v' where q: "kStatusUpdate (ac_squares e) x v = (q, v')" by fastforce
  show "\<exists>sq'. squares (snd (kStatusUpdate (ac_squares e) x v)) l = Some sq' \<and> ko_spec sq' = ko_spec sq"
  proof (cases "l = key_of x \<and> (\<exists>y. q = Inr y)")
    case True
    with q v kube_api.status_stored [OF square_api] show ?thesis by fastforce
  next
    case False
    then have "squares v' l = squares v l"
      using q kube_api.write_frame(2) [OF square_api q] kube_api.status_err [OF square_api]
      by (cases q) auto
    with v q show ?thesis by simp
  qed
qed (use assms in \<open>auto simp: watch_frame\<close>)

lemma add_step_held:
  assumes "held adds squares ns n q w" and "n \<noteq> []"
  shows "held adds squares ns n q (snd (AddReconcile (ac_util e) (ac_adds e) (ac_squares e) k w))"
proof -
  let ?w = "snd (AddReconcile (ac_util e) (ac_adds e) (ac_squares e) k w)"
  obtain add sq where a: "adds w (ns, n) = Some add" "inUseFinalizer \<in> set (finalizers_of add)"
    and s: "squares w (ns, q) = Some sq" "sourceRefIs (sq_sourceRef (ko_spec sq)) SchemeGroupVersion ''Add'' n"
    using assms(1) unfolding held_def by blast
  have key: "key_of add = (ns, n)" by (rule kube_api.store_key [OF add_api a(1)])
  have "\<exists>y. adds ?w (ns, n) = Some y \<and> inUseFinalizer \<in> set (finalizers_of y)"
  proof (cases "k = (ns, n)")
    case True
    have "addInUse (ac_squares e) add w \<noteq> Inr False"
      using used_by_square [OF square_api square_index s(1) square_refers [OF s(2) assms(2)]] key by simp
    with calc_kind.keeps_finalizer [OF add_kind a, of "addInUse (ac_squares e)"] True show ?thesis
      unfolding AddReconcile_guarded by blast
  next
    case False
    with calc_kind.reconcile_frame [OF add_kind, of "(ns, n)" k inUseFinalizer "addInUse (ac_squares e)" w] a show ?thesis
      unfolding AddReconcile_guarded by auto
  qed
  moreover have "squares ?w (ns, q) = Some sq" using add_keeps_squares s(1) by simp
  ultimately show ?thesis using s(2) unfolding held_def by blast
qed

lemma step_held:
  assumes "astep e user (w, dw) (w', dw')" and "held adds squares ns n q w" and "n \<noteq> []"
    and "\<And>v v'. user v v' \<Longrightarrow> held adds squares ns n q v \<Longrightarrow> held adds squares ns n q v'"
  shows "held adds squares ns n q w'"
  using assms(1)
proof (cases rule: astep_cases)
  case (Add k)
  with add_step_held [OF assms(2,3), of k] show ?thesis by simp
next
  case (Subtract k)
  with subtract_keeps [of k w] assms(2) show ?thesis by (simp add: held_def)
next
  case (Square k)
  from assms(2) obtain add sq where a: "adds w (ns, n) = Some add" "inUseFinalizer \<in> set (finalizers_of add)"
    and s: "squares w (ns, q) = Some sq" "sourceRefIs (sq_sourceRef (ko_spec sq)) SchemeGroupVersion ''Add'' n"
    unfolding held_def by blast
  from square_keeps_spec [OF s(1), of k dw] Square obtain sq' where
    "squares w' (ns, q) = Some sq'" "ko_spec sq' = ko_spec sq" by auto
  moreover have "adds w' = adds w" using square_keeps_adds [of k dw w] Square by simp
  ultimately show ?thesis using a s(2) unfolding held_def by auto
next
  case User
  with assms(2,4) show ?thesis by blast
qed

lemma run_held:
  assumes "(astep e user)\<^sup>*\<^sup>* s s'" and "held adds squares ns n q (fst s)" and "n \<noteq> []"
    and "\<And>v v'. user v v' \<Longrightarrow> held adds squares ns n q v \<Longrightarrow> held adds squares ns n q v'"
  shows "held adds squares ns n q (fst s')"
  using assms(1)
proof (induction rule: rtranclp_induct)
  case base
  show ?case by (rule assms(2))
next
  case (step y z)
  then show ?case using step_held [of user "fst y" "snd y" "fst z" "snd z"] assms(3,4) by simp
qed

end

section \<open>Guarantee\<close>

text \<open>
  C17. Over any run of the three controllers, in any order, with any failures and between any requests of
  users that neither take the finalizer off nor change or remove the reference, an Add that carries the
  finalizer and that a Square refers to stays in the store with its finalizer.
\<close>

theorem referenced_add_survives:
  assumes "arith_cluster e adds subtracts squares idxA idxB idxS" and "(astep e user)\<^sup>*\<^sup>* (w, dw) (w', dw')"
    and "held adds squares ns n q w" and "n \<noteq> []"
    and "\<And>v v'. user v v' \<Longrightarrow> held adds squares ns n q v \<Longrightarrow> held adds squares ns n q v'"
  shows "\<exists>add. adds w' (ns, n) = Some add \<and> inUseFinalizer \<in> set (finalizers_of add)"
  using arith_cluster.run_held [OF assms(1,2) _ assms(4,5)] assms(3) unfolding held_def by force

end
