(* ===== verification/Cluster_Demo.thy ===== *)
theory Cluster_Demo
  imports Kube_Demo Cluster_Steps
begin

text \<open>
  The cluster in memory satisfies the contract of the step relation, and a run in which a user deletes an Add that
  a Square refers to before the Add is reconciled.
\<close>

definition refArith :: "cluster arith" where
  "refArith = \<lparr>ac_util = refUtil, ac_lib = refLib, ac_get = refDyn, ac_mgr = refMgr, ac_adds = refAdds,
     ac_subtracts = refSubtracts, ac_squares = refSquares\<rparr>"

interpretation ref_cluster: arith_cluster refArith addsOf subtractsOf squaresOf noIndex noIndex squareIdx
proof (rule arith_cluster.intro)
  show "kube_util (ac_util refArith)" "kube_api (ac_adds refArith) addsOf noIndex"
    "kube_api (ac_subtracts refArith) subtractsOf noIndex" "kube_api (ac_squares refArith) squaresOf squareIdx"
    by (simp_all add: refArith_def ref_util.kube_util_axioms adds.kube_api_axioms subtracts.kube_api_axioms squares.kube_api_axioms)
qed (simp_all add: squareIdx_key refArith_def refAdds_def refSubtracts_def refSquares_def tableClient_def refMgr_def split: prod.splits)

text \<open>A user deletes every Add: those with finalizers are marked.\<close>

definition markDeleted :: "cluster \<Rightarrow> cluster" where
  "markDeleted w = w\<lparr>cw_adds := (cw_adds w)\<lparr>tb_objs := map (\<lambda>x. x\<lparr>ko_meta := (ko_meta x)\<lparr>om_deleted := True\<rparr>\<rparr>)
     (filter (\<lambda>x. finalizers_of x \<noteq> []) (tb_objs (cw_adds w)))\<rparr>\<rparr>"

abbreviation deletes :: "cluster \<Rightarrow> cluster \<Rightarrow> bool" where
  "deletes v v' \<equiv> v' = markDeleted v"

lemma marked_kept:
  "findObj xs k = Some x \<Longrightarrow> finalizers_of x \<noteq> [] \<Longrightarrow>
   findObj (map (\<lambda>x. x\<lparr>ko_meta := (ko_meta x)\<lparr>om_deleted := True\<rparr>\<rparr>) (filter (\<lambda>x. finalizers_of x \<noteq> []) xs)) k
     = Some (x\<lparr>ko_meta := (ko_meta x)\<lparr>om_deleted := True\<rparr>\<rparr>)"
  by (induction xs) (auto split: if_splits)

lemma deletes_held: "deletes v v' \<Longrightarrow> held addsOf squaresOf ns n q v \<Longrightarrow> held addsOf squaresOf ns n q v'"
proof -
  assume v': "deletes v v'" and "held addsOf squaresOf ns n q v"
  from this(2) obtain add sq where a: "addsOf v (ns, n) = Some add" "inUseFinalizer \<in> set (finalizers_of add)"
    and s: "squaresOf v (ns, q) = Some sq" "sourceRefIs (sq_sourceRef (ko_spec sq)) SchemeGroupVersion ''Add'' n"
    unfolding held_def by blast
  have "finalizers_of add \<noteq> []" using a(2) by auto
  from marked_kept [OF a(1) this] a(2) s show ?thesis by (simp add: held_def markDeleted_def v')
qed

abbreviation heldWorld :: cluster where
  "heldWorld \<equiv> addWorld False [inUseFinalizer] [demoSquare ''Add'' ''a'' noResult]"

abbreviation afterDelete :: cluster where
  "afterDelete \<equiv> snd (AddReconcile refUtil refAdds refSquares (''ns'', ''a'') (markDeleted heldWorld))"

theorem referenced_add_survives_witness:
  "(astep refArith deletes)\<^sup>*\<^sup>* (heldWorld, NewDynamicWatcher) (afterDelete, NewDynamicWatcher)
   \<and> (\<exists>add. addsOf afterDelete (''ns'', ''a'') = Some add \<and> inUseFinalizer \<in> set (finalizers_of add))"
proof -
  have "astep refArith deletes (heldWorld, NewDynamicWatcher) (markDeleted heldWorld, NewDynamicWatcher)"
    by (rule user_step) (rule refl)
  moreover have "astep refArith deletes (markDeleted heldWorld, NewDynamicWatcher) (afterDelete, NewDynamicWatcher)"
    by (rule add_step [where k = "(''ns'', ''a'')"]) (simp add: refArith_def prod_eq_iff)
  ultimately have run: "(astep refArith deletes)\<^sup>*\<^sup>* (heldWorld, NewDynamicWatcher) (afterDelete, NewDynamicWatcher)" by auto
  have "held addsOf squaresOf ''ns'' ''a'' ''q'' heldWorld"
    unfolding held_def
  proof (intro exI conjI)
    show "addsOf heldWorld (''ns'', ''a'') = Some (demoAdd False [inUseFinalizer])" by (rule addsOf_world)
    show "squaresOf heldWorld (''ns'', ''q'') = Some (demoSquare ''Add'' ''a'' noResult)"
      by (simp add: addWorld_def tableWith_def demoSquare_def demoMeta_def)
  qed (simp_all add: demoAdd_def demoSquare_def demoMeta_def sourceRefIs_def)
  from referenced_add_survives [OF ref_cluster.arith_cluster_axioms run this _ deletes_held] run show ?thesis by auto
qed

end
