(* ===== verification/Flow_Runs.thy ===== *)
theory Flow_Runs
  imports Task_Demo Flow_Demo Task_Steps Flow_Answer Cluster_Demo
begin

text \<open>
  Runs of both the HTTPTask and the Workflow controller on the cluster in memory: a child that is answered and then
  gathered, and a user who deletes tasks that others take fields from.
\<close>

section \<open>A child that is answered\<close>

definition quietFlow :: Workflow where
  "quietFlow = demoFlow\<lparr>ko_spec := (ko_spec demoFlow)\<lparr>wf_notifyURL := []\<rparr>\<rparr>"

definition newChild :: HTTPTask where
  "newChild = (blankTask (''ns'', ''f-a''))\<lparr>ko_meta := demoMeta ''f-a'' False [taskInUseFinalizer],
     ko_spec := childSpec quietFlow (demoStep ''a'' [])\<rparr>"

definition quietWorld :: cluster where
  "quietWorld = emptyCluster\<lparr>cw_flows := tableWith [quietFlow], cw_tasks := tableWith [newChild]\<rparr>"

abbreviation child_run :: "outcome \<times> cluster" where
  "child_run \<equiv> HTTPTaskReconcile refUtil (refHttp okResponse) refTasks (''ns'', ''f-a'') quietWorld"

lemma quiet_names: "ns_of quietFlow = ''ns''" "childName quietFlow ''a'' = ''f-a''" "wt_name (demoStep ''a'' []) = ''a''"
  "wf_tasks (ko_spec quietFlow) = [demoStep ''a'' []]"
  by (simp_all add: quietFlow_def demoFlow_def demoMeta_def childName_def demoStep_def)

lemma new_child: "tasksOf quietWorld (''ns'', ''f-a'') = Some newChild" "\<not> deleting newChild"
  "taskInUseFinalizer \<in> set (finalizers_of newChild)" "hs_output (ko_status newChild) = []"
  by (simp_all add: quietWorld_def tableWith_def newChild_def blankTask_def demoMeta_def)

lemma child_body: "buildBody go_codec refTasks newChild quietWorld = BodyOk (Some [])"
  by (simp add: buildBody_def initialBody_def newChild_def childSpec_def mappedInputFrom_def demoStep_def)

lemma child_bytes: "marshal go_codec (bodyJson (Some [])) = Inr ''{}''"
  by code_simp

lemma child_done: "child_run = (Ret Done None, snd child_run)"
proof -
  have "fst child_run = Ret Done None"
    by (rule reconcile_accepted [OF new_child(1-3) child_body child_bytes new_child(4)]) (simp add: okResponse_def)
  then show ?thesis by (metis prod.collapse)
qed

lemma child_facts:
  "buildBody (he_codec (refHttp okResponse)) refTasks newChild quietWorld = BodyOk (Some [])"
  "marshal (he_codec (refHttp okResponse)) (bodyJson (Some [])) = Inr ''{}''"
  "\<not> (hs_observedInputHash (ko_status newChild) = sha256hex ''{}'' \<and> hs_output (ko_status newChild) \<noteq> [])"
  "he_newRequest (refHttp okResponse) (taskMethod newChild) (ht_endpoint (ko_spec newChild)) = None"
proof -
  show "buildBody (he_codec (refHttp okResponse)) refTasks newChild quietWorld = BodyOk (Some [])"
    by (simp add: refHttp_def child_body)
  show "marshal (he_codec (refHttp okResponse)) (bodyJson (Some [])) = Inr ''{}''"
    by (simp add: refHttp_def child_bytes del: bodyJson.simps)
qed (simp_all add: refHttp_def new_child)

lemma child_answered: "\<exists>y. tasksOf (snd child_run) (''ns'', ''f-a'') = Some y"
  using sent_and_recorded [OF ref_util.kube_util_axioms tasks.kube_api_axioms new_child(1-3) child_facts send_facts(6,7) child_done]
  by metis

text \<open>The tasks' reconciler does not touch Workflows.\<close>

lemma task_keeps_flows: "flowsOf (snd (HTTPTaskReconcile u (refHttp resp) refTasks k w)) = flowsOf w"
  unfolding HTTPTaskReconcile_guarded
  by (rule guarded_preserves [where P = "\<lambda>v. flowsOf v = flowsOf w"])
    (auto intro!: runTaskBody_preserves [where P = "\<lambda>v. flowsOf v = flowsOf w"]
      simp: refTasks_def tableClient_def refHttp_def split: prod.splits)

lemma quiet_stored: "flowsOf (snd child_run) (''ns'', ''f'') = Some quietFlow"
  unfolding task_keeps_flows by (simp add: quietWorld_def tableWith_def quietFlow_def demoFlow_def demoMeta_def)

text \<open>An existing child is always accepted by \<open>CreateOrUpdate\<close>, and a Workflow without a URL then reports success.\<close>

lemma create_accepts:
  assumes "tasksOf w k = Some t"
  shows "\<exists>c w'. createOrUpdateTask k (mutateChild (refFlowEnv code) flow step) w = (Inr c, w')"
proof -
  have k: "key_of t = k" by (rule tasks.store_key [OF assms])
  define t' where "t' = t\<lparr>ko_spec := childSpec flow step, ko_meta := (ko_meta t)\<lparr>om_controller := Some (om_uid (ko_meta flow))\<rparr>\<rparr>"
  have m: "mutateChild (refFlowEnv code) flow step t = Inr t'" by (simp add: mutateChild_def refFlowEnv_def t'_def)
  have "key_of t' = k" "om_resourceVersion (ko_meta t') = om_resourceVersion (ko_meta t)" using k by (simp_all add: t'_def)
  then have "\<exists>c w'. kUpdate refTasks t' w = (Inr c, w')"
    using assms by (simp add: refTasks_def tableClient_def tableUpdate_def)
  with assms m show ?thesis by (auto simp: createOrUpdateTask_def)
qed

abbreviation quiet_run :: "outcome \<times> cluster" where
  "quiet_run \<equiv> WorkflowReconcile (refFlowEnv 200) refFlows (''ns'', ''f'') (snd child_run)"

lemma quiet_done: "quiet_run = (Ret Done None, snd quiet_run)"
proof -
  define fl where "fl = withIdentity (refFlowEnv 200) quietFlow"
  have fl: "ns_of fl = ''ns''" "childName fl ''a'' = ''f-a''" "name_of fl = ''f''"
    "om_resourceVersion (ko_meta fl) = om_resourceVersion (ko_meta quietFlow)" "ko_spec fl = ko_spec quietFlow"
    using quiet_names by (simp_all add: fl_def withIdentity_def childName_def quietFlow_def demoFlow_def demoMeta_def)
  obtain y where "tasksOf (snd child_run) (''ns'', ''f-a'') = Some y" using child_answered by blast
  from create_accepts [OF this, of 200 fl "demoStep ''a'' []"] obtain c w1 where
    c: "createOrUpdateTask (''ns'', ''f-a'') (mutateChild (refFlowEnv 200) fl (demoStep ''a'' [])) (snd child_run) = (Inr c, w1)"
    by blast
  define acc where "acc = addStep (childStatus (demoStep ''a'' []) c) noSteps"
  have coe: "we_createOrUpdate (refFlowEnv 200) = createOrUpdateTask" by (simp add: refFlowEnv_def)
  have steps: "reconcileSteps (refFlowEnv 200) fl (wf_tasks (ko_spec quietFlow)) noSteps (snd child_run) = (Inr acc, w1)"
    by (simp add: quiet_names fl coe c acc_def)
  have "flowsOf w1 = flowsOf (snd child_run)"
    using create_frame [of "(''ns'', ''f-a'')" _ "snd child_run"] c by (metis snd_conv)
  then have st: "flowsOf w1 (key_of (withSteps acc fl)) = Some quietFlow"
    using quiet_stored fl by (simp add: withSteps_def)
  have "om_resourceVersion (ko_meta (withSteps acc fl)) = om_resourceVersion (ko_meta quietFlow)"
    using fl by (simp add: withSteps_def)
  from flows_status_accepts [OF st this] obtain z w2 where u: "kStatusUpdate refFlows (withSteps acc fl) w1 = (Inr z, w2)" by metis
  have "wf_notifyURL (ko_spec z) = []" using flows.status_stored(3) [OF u st] by (simp add: quietFlow_def)
  moreover have "kGet refFlows (''ns'', ''f'') (snd child_run) = Inr quietFlow"
    using quiet_stored by (simp add: refFlows_def tableClient_def tableGet_def)
  ultimately have "quiet_run = (Ret Done None, w2)"
    using steps u by (simp add: WorkflowReconcile_def fl_def notifyIfDue_def)
  then show ?thesis by simp
qed

theorem answer_reaches_workflow_witness:
  "\<exists>z ts. flowsOf (snd quiet_run) (''ns'', ''f'') = Some z \<and> ts \<in> set (ws_tasks (ko_status z))
     \<and> wk_output ts = ''{}'' \<and> wk_statusCode ts = Some 200 \<and> wk_phase ts = ''Succeeded''"
proof -
  let ?k = "(ns_of quietFlow, childName quietFlow (wt_name (demoStep ''a'' [])))"
  have k: "?k = (''ns'', ''f-a'')" by (simp add: quiet_names)
  note task = new_child(1) [folded k] and run = child_done [folded k]
  have steps: "demoStep ''a'' [] \<in> set (wf_tasks (ko_spec quietFlow))" "distinct (map wt_name (wf_tasks (ko_spec quietFlow)))"
    by (simp_all add: quiet_names)
  have kids: "\<forall>s \<in> set (wf_tasks (ko_spec quietFlow)). tasksOf quietWorld (ns_of quietFlow, childName quietFlow (wt_name s)) \<noteq> None"
    using new_child(1) by (simp add: quiet_names)
  from answer_reaches_workflow [OF ref_util.kube_util_axioms tasks.kube_api_axioms task new_child(2,3) child_facts
      send_facts(6,7) run flow_kids.flow_children_axioms quiet_stored [folded k] steps kids quiet_done [folded k]]
  show ?thesis unfolding k by (auto simp: okResponse_def)
qed

section \<open>Tasks deleted while others take fields from them\<close>

definition refFlowCluster :: "cluster flowCluster" where
  "refFlowCluster = \<lparr>fc_util = refUtil, fc_http = refHttp okResponse, fc_flowEnv = refFlowEnv 200, fc_tasks = refTasks,
     fc_flows = refFlows\<rparr>"

text \<open>\<open>CreateOrUpdate\<close> on the table of tasks leaves the finalizers.\<close>

lemma create_secured:
  assumes "\<forall>x y. f x = Inr y \<longrightarrow> key_of y = key_of x \<and> finalizers_of y = finalizers_of x" and "secured tasksOf l w"
  shows "secured tasksOf l (snd (createOrUpdateTask k f w))"
proof (cases "l = k")
  case False
  have "tasksOf (snd (createOrUpdateTask k f w)) l = tasksOf w l"
    by (rule create_other [OF prod.collapse [symmetric] _ False]) (use assms(1) in blast)
  with assms(2) show ?thesis by (simp add: secured_def)
next
  case True
  with assms(2) obtain t where t: "tasksOf w k = Some t" "taskInUseFinalizer \<in> set (finalizers_of t)"
    by (auto simp: secured_def)
  show ?thesis
  proof (cases "\<exists>y. f t = Inr y \<and> y \<noteq> t")
    case True
    then obtain y where y: "f t = Inr y" "y \<noteq> t" by blast
    have fin: "key_of y = k" "taskInUseFinalizer \<in> set (finalizers_of y)"
      using assms(1) y(1) t(2) tasks.store_key [OF t(1)] by auto
    obtain r v where u: "kUpdate refTasks y w = (r, v)" by fastforce
    have "secured tasksOf k v"
    proof (cases r)
      case (Inl e)
      with tasks.update_err u assms(2) \<open>l = k\<close> show ?thesis by (auto simp: secured_def)
    next
      case (Inr x)
      with tasks.update_ok [of y w x v] u fin show ?thesis by (fastforce simp: secured_def)
    qed
    with t(1) y u \<open>l = k\<close> show ?thesis by (simp add: createOrUpdateTask_def)
  next
    case False
    with t(1) assms(2) show ?thesis by (cases "f t") (simp_all add: createOrUpdateTask_def)
  qed
qed

interpretation ref_tasks: task_cluster refFlowCluster tasksOf taskIdx
proof (rule task_cluster.intro)
  show "kube_util (fc_util refFlowCluster)" "kube_api (fc_tasks refFlowCluster) tasksOf taskIdx"
    by (simp_all add: refFlowCluster_def ref_util.kube_util_axioms tasks.kube_api_axioms)
  show "\<forall>x y. f x = Inr y \<longrightarrow> key_of y = key_of x \<and> finalizers_of y = finalizers_of x \<Longrightarrow> secured tasksOf l w
      \<Longrightarrow> secured tasksOf l (snd (we_createOrUpdate (fc_flowEnv refFlowCluster) k f w))" for f l w k
    using create_secured by (simp add: refFlowCluster_def refFlowEnv_def)
  show "we_setController (fc_flowEnv refFlowCluster) flow x = Inr y \<Longrightarrow> key_of y = key_of x \<and> finalizers_of y = finalizers_of x"
    for flow x y by (auto simp: refFlowCluster_def refFlowEnv_def)
qed (simp_all add: taskIdx_key refFlowCluster_def refHttp_def refFlowEnv_def refFlows_def tableClient_def split: prod.splits)

text \<open>A user deletes every task: those with finalizers are marked.\<close>

definition markTasks :: "cluster \<Rightarrow> cluster" where
  "markTasks w = w\<lparr>cw_tasks := (cw_tasks w)\<lparr>tb_objs := map (\<lambda>x. x\<lparr>ko_meta := (ko_meta x)\<lparr>om_deleted := True\<rparr>\<rparr>)
     (filter (\<lambda>x. finalizers_of x \<noteq> []) (tb_objs (cw_tasks w)))\<rparr>\<rparr>"

lemma marked_stored:
  "tasksOf w k = Some t \<Longrightarrow> finalizers_of t \<noteq> []
   \<Longrightarrow> tasksOf (markTasks w) k = Some (t\<lparr>ko_meta := (ko_meta t)\<lparr>om_deleted := True\<rparr>\<rparr>)"
  using marked_kept by (simp add: markTasks_def)

lemma marks_secured: "secured tasksOf k v \<Longrightarrow> secured tasksOf k (markTasks v)"
proof -
  assume "secured tasksOf k v"
  then obtain t where t: "tasksOf v k = Some t" "taskInUseFinalizer \<in> set (finalizers_of t)" by (auto simp: secured_def)
  then have "finalizers_of t \<noteq> []" by auto
  from marked_stored [OF t(1) this] t(2) show ?thesis by (simp add: secured_def)
qed

lemma dependent_takes:
  assumes "tasksOf w (''ns'', ''t'') = Some t" and "ko_spec t = ko_spec (dependentTask emptyStatus)"
  shows "taken tasksOf (''ns'', ''src'') w"
  unfolding taken_def
proof (intro exI conjI)
  show "tasksOf w (fst (''ns'', ''src''), ''t'') = Some t" using assms(1) by simp
  show "taskFrom ''src'' ''s'' ''x.y'' \<in> set (ht_inputFrom (ko_spec t))"
    by (simp add: assms(2) dependentTask_def demoTask_def)
qed (simp add: taskFrom_def sourceRefIs_def)

lemma two_steps: "R x y \<Longrightarrow> R y z \<Longrightarrow> R\<^sup>*\<^sup>* x z"
  by (simp add: rtranclp.rtrancl_into_rtrancl)

abbreviation markedWorld :: cluster where
  "markedWorld \<equiv> markTasks (bodyWorld emptyStatus)"

abbreviation afterMark :: cluster where
  "afterMark \<equiv> snd (HTTPTaskReconcile refUtil (refHttp okResponse) refTasks (''ns'', ''src'') markedWorld)"

theorem source_task_survives_witness:
  "(tstep refFlowCluster (\<lambda>v v'. v' = markTasks v))\<^sup>*\<^sup>* (bodyWorld emptyStatus) afterMark
   \<and> (\<exists>t. tasksOf afterMark (''ns'', ''src'') = Some t \<and> taskInUseFinalizer \<in> set (finalizers_of t))"
proof -
  let ?user = "\<lambda>v v'. v' = markTasks v"
  let ?R = "\<lambda>v v'. taken tasksOf (''ns'', ''src'') v \<and> tstep refFlowCluster ?user v v'"
  have user: "tstep refFlowCluster ?user (bodyWorld emptyStatus) markedWorld" by (rule others_step) (rule refl)
  have task: "tstep refFlowCluster ?user markedWorld afterMark"
    by (rule task_step [where k = "(''ns'', ''src'')"]) (simp add: refFlowCluster_def prod_eq_iff)
  have "finalizers_of (dependentTask emptyStatus) \<noteq> []" by (simp add: dependentTask_def demoTask_def demoMeta_def)
  then have "taken tasksOf (''ns'', ''src'') markedWorld"
    by (intro dependent_takes [OF marked_stored [OF dependent_stored]]) simp_all
  with task have second: "?R markedWorld afterMark" by (intro conjI)
  have first: "?R (bodyWorld emptyStatus) markedWorld" by (intro conjI dependent_takes [OF dependent_stored refl] user)
  note run = two_steps [where R = ?R and x = "bodyWorld emptyStatus" and y = markedWorld and z = afterMark, OF first second]
  have plain: "(tstep refFlowCluster ?user)\<^sup>*\<^sup>* (bodyWorld emptyStatus) afterMark"
    by (rule two_steps [where y = markedWorld, OF user task])
  have "tasksOf (bodyWorld emptyStatus) (''ns'', ''src'') = Some sourceTask" by (rule tasks.get_current [OF demo_source])
  then have "secured tasksOf (''ns'', ''src'') (bodyWorld emptyStatus)"
    by (simp add: secured_def sourceTask_def demoTask_def demoMeta_def)
  from source_task_survives [OF ref_tasks.task_cluster_axioms run this] marks_secured
  have "\<exists>t. tasksOf afterMark (''ns'', ''src'') = Some t \<and> taskInUseFinalizer \<in> set (finalizers_of t)" by blast
  with plain show ?thesis by (rule conjI)
qed

end
