(* ===== verification/Dashboard.thy ===== *)
theory Dashboard
  imports Status_Server
begin

text \<open>
  The script of the page in \<open>src/internal/statusserver/server.go\<close>: what it makes of a status, and how it follows the
  JSON snapshot and the event stream. \<open>JSON.parse\<close> and the browser's reading of an event are parameters.
\<close>

section \<open>A status in the browser\<close>

text \<open>The members of a decoded status that the script reads; \<open>None\<close> is \<open>undefined\<close>.\<close>

record jsTask =
  jt_name :: string
  jt_phase :: string
  jt_error :: "string option"

record jsStatus =
  js_phase :: "string option"
  js_tasks :: "jsTask list option"

text \<open>What the tags of the Go types leave of a status: \<open>omitempty\<close> drops an empty string and an empty slice.\<close>

definition omitempty :: "'a list \<Rightarrow> 'a list option" where
  "omitempty xs = (if xs = [] then None else Some xs)"

definition taskView :: "WorkflowTaskStatus \<Rightarrow> jsTask" where
  "taskView t = \<lparr>jt_name = wk_name t, jt_phase = wk_phase t, jt_error = omitempty (wk_error t)\<rparr>"

definition statusView :: "WorkflowStatus \<Rightarrow> jsStatus" where
  "statusView st = \<lparr>js_phase = omitempty (ws_phase st), js_tasks = map_option (map taskView) (omitempty (ws_tasks st))\<rparr>"

section \<open>The page\<close>

record listItem =
  li_class :: string
  li_text :: string
  li_err :: "string option"

record page =
  pg_bannerClass :: string
  pg_bannerText :: string
  pg_items :: "listItem list"

definition loadedPage :: page where
  "loadedPage = \<lparr>pg_bannerClass = ''phase-banner Pending'', pg_bannerText = ''Loading...'', pg_items = []\<rparr>"

text \<open>A string or \<open>undefined\<close> in a concatenation, and \<open>x || d\<close> on one.\<close>

definition jsConcat :: "string \<Rightarrow> string option \<Rightarrow> string" where
  "jsConcat s x = s @ (case x of None \<Rightarrow> ''undefined'' | Some t \<Rightarrow> t)"

definition jsOr :: "'a list option \<Rightarrow> 'a list \<Rightarrow> 'a list" where
  "jsOr x d = (case x of None \<Rightarrow> d | Some t \<Rightarrow> if t = [] then d else t)"

definition renderTask :: "jsTask \<Rightarrow> listItem" where
  "renderTask t = \<lparr>li_class = jt_phase t, li_text = ''['' @ jt_phase t @ ''] '' @ jt_name t,
     li_err = (if jsOr (jt_error t) [] \<noteq> [] then jt_error t else None)\<rparr>"

definition render :: "jsStatus \<Rightarrow> page \<Rightarrow> page" where
  "render status p = p
     \<lparr>pg_bannerClass := jsConcat ''phase-banner '' (js_phase status),
      pg_bannerText := (if js_phase status = Some ''Succeeded'' then ''COMPLETED''
                        else if js_phase status = Some ''Failed'' then ''FAILED''
                        else jsOr (js_phase status) ''Pending''),
      pg_items := (case js_tasks status of None \<Rightarrow> [] | Some ts \<Rightarrow> map renderTask ts)\<rparr>"

section \<open>Events\<close>

text \<open>
  The answer to \<open>fetch\<close>, a message of the event source, its end. A text that is no status (the plain text of a 404,
  say) makes the promise reject or the handler throw: nothing is rendered.
\<close>

datatype pageEvent = Fetched string | Message string | StreamError

record browser =
  br_parse :: "string \<Rightarrow> jsStatus option"
  br_data :: "string \<Rightarrow> string"

definition renderText :: "browser \<Rightarrow> string \<Rightarrow> page \<Rightarrow> page" where
  "renderText br s p = (case br_parse br s of None \<Rightarrow> p | Some status \<Rightarrow> render status p)"

text \<open>The page and whether its event source is open.\<close>

fun pageStep :: "browser \<Rightarrow> pageEvent \<Rightarrow> page \<times> bool \<Rightarrow> page \<times> bool" where
  "pageStep br (Fetched body) (p, open_es) = (renderText br body p, open_es)"
| "pageStep br (Message c) (p, open_es) = ((if open_es then renderText br (br_data br c) p else p), open_es)"
| "pageStep br StreamError (p, open_es) = (p, False)"

definition runPage :: "browser \<Rightarrow> pageEvent list \<Rightarrow> page \<times> bool" where
  "runPage br evs = fold (pageStep br) evs (loadedPage, True)"

text \<open>\<open>render\<close> leaves nothing of the page it replaces.\<close>

lemma render_forgets: "render status p = render status q"
  by (simp add: render_def)

lemma messages_last:
  assumes "\<forall>c \<in> set cs. br_parse br (br_data br c) = Some (v c)" and "cs \<noteq> []"
  shows "fold (pageStep br) (map Message cs) (p, True) = (render (v (last cs)) loadedPage, True)"
  using assms
proof (induction cs arbitrary: p)
  case (Cons c cs)
  show ?case
  proof (cases "cs = []")
    case True
    with Cons.prems show ?thesis by (simp add: renderText_def render_forgets [of _ p loadedPage])
  next
    case False
    with Cons show ?thesis by simp
  qed
qed simp

section \<open>What the user sees at the end\<close>

lemma last_sent:
  assumes "[] \<notin> set ps" and "ps \<noteq> []"
  shows "tl (remdups_adj ([] # ps)) \<noteq> [] \<and> last (tl (remdups_adj ([] # ps))) = last ps \<and> set (tl (remdups_adj ([] # ps))) \<subseteq> set ps"
proof -
  obtain q qs where q: "ps = q # qs" using assms(2) by (cases ps) auto
  with assms(1) have "remdups_adj ([] # ps) = [] # remdups_adj ps" by simp
  with q show ?thesis by (simp add: last_remdups_adj)
qed

text \<open>
  The fetch and the stream read each status once; \<open>statusText\<close> says that a status is encoded as a text the browser
  decodes to its view, also when it arrives as an event.
\<close>

definition statusText :: "serverEnv \<Rightarrow> browser \<Rightarrow> Workflow \<Rightarrow> bool" where
  "statusText env br flow \<longleftrightarrow> payloadOf env flow \<noteq> [] \<and> br_data br (chunk (payloadOf env flow)) = payloadOf env flow
     \<and> br_parse br (payloadOf env flow) = Some (statusView (ko_status flow))"

lemma follows_stream:
  assumes "\<forall>flow \<in> set (seenFlows cl txID evs). statusText env br flow" and "seenFlows cl txID evs \<noteq> []"
  shows "fold (pageStep br) (map Message (fst (streamLoop env cl txID [] evs))) (p, True)
    = (render (statusView (ko_status (last (seenFlows cl txID evs)))) loadedPage, True)"
proof -
  let ?ps = "map (payloadOf env) (seenFlows cl txID evs)"
  let ?sent = "tl (remdups_adj ([] # ?ps))"
  have "[] \<notin> set ?ps" "?ps \<noteq> []" using assms by (auto simp: statusText_def)
  note sent = last_sent [OF this]
  have chunks: "fst (streamLoop env cl txID [] evs) = map chunk ?sent" by (rule streamLoop_spec)
  have read: "\<forall>c \<in> set (map chunk ?sent). br_parse br (br_data br c) = Some (the (br_parse br (br_data br c)))"
    using sent assms(1) by (fastforce simp: statusText_def)
  have "last (map chunk ?sent) = chunk (payloadOf env (last (seenFlows cl txID evs)))"
    using sent assms(2) by (simp add: last_map)
  moreover have "statusText env br (last (seenFlows cl txID evs))" using assms by simp
  ultimately show ?thesis
    unfolding chunks using messages_last [OF read] sent by (simp add: statusText_def)
qed

text \<open>
  C21. A user who stays on the page sees how the Workflow ended: after any answer to the snapshot request, the events of a stream
  that has seen a terminal phase leave the page with the banner COMPLETED or FAILED of that phase and with one line per
  step, in order, with its phase, name and error, and closing the stream changes nothing of that.
\<close>

theorem page_shows_outcome:
  assumes "\<forall>flow \<in> set (seenFlows cl txID evs). statusText env br flow"
    and "seenFlows cl txID evs = flows @ [flow]" and "terminalFlow flow"
    and "runPage br (Fetched body # map Message (fst (streamLoop env cl txID [] evs)) @ [StreamError]) = (p, es)"
  shows "pg_bannerText p = (if ws_phase (ko_status flow) = ''Succeeded'' then ''COMPLETED'' else ''FAILED'')
    \<and> pg_items p = map (\<lambda>t. \<lparr>li_class = wk_phase t, li_text = ''['' @ wk_phase t @ ''] '' @ wk_name t,
        li_err = omitempty (wk_error t)\<rparr>) (ws_tasks (ko_status flow)) \<and> \<not> es"
proof -
  have "runPage br (Fetched body # map Message (fst (streamLoop env cl txID [] evs)) @ [StreamError])
      = (render (statusView (ko_status flow)) loadedPage, False)"
    using follows_stream [OF assms(1), of "renderText br body loadedPage"] assms(2) by (simp add: runPage_def)
  with assms(4) have p: "p = render (statusView (ko_status flow)) loadedPage" "\<not> es" by simp_all
  have "renderTask (taskView t) = \<lparr>li_class = wk_phase t, li_text = ''['' @ wk_phase t @ ''] '' @ wk_name t,
      li_err = omitempty (wk_error t)\<rparr>" for t
    by (simp add: renderTask_def taskView_def jsOr_def omitempty_def)
  then have "pg_items p = map (\<lambda>t. \<lparr>li_class = wk_phase t, li_text = ''['' @ wk_phase t @ ''] '' @ wk_name t,
      li_err = omitempty (wk_error t)\<rparr>) (ws_tasks (ko_status flow))"
    by (simp add: p render_def statusView_def omitempty_def [of "ws_tasks (ko_status flow)"])
  moreover have "pg_bannerText p = (if ws_phase (ko_status flow) = ''Succeeded'' then ''COMPLETED'' else ''FAILED'')"
    using assms(3) by (auto simp: p render_def statusView_def omitempty_def terminalFlow_def)
  ultimately show ?thesis using p(2) by blast
qed

text \<open>
  Nothing orders the two requests of the page: a snapshot that is answered after the stream has ended replaces what
  the stream showed, and a status that has changed since stays on the page.
\<close>

lemma late_snapshot:
  assumes "br_parse br body = Some status"
  shows "fst (runPage br (evs @ [Fetched body])) = render status loadedPage"
proof -
  obtain p es where p: "fold (pageStep br) evs (loadedPage, True) = (p, es)" by fastforce
  have "fst (runPage br (evs @ [Fetched body])) = render status p" using assms p by (simp add: runPage_def renderText_def)
  then show ?thesis unfolding render_forgets [of status p loadedPage] .
qed

end
