(* ===== verification/Dashboard_Demo.thy ===== *)
theory Dashboard_Demo
  imports Dashboard Flow_Demo Go_Json
begin

text \<open>
  A page that follows a Workflow from its first step to its end, with the JSON codec of Go on both sides. The texts hold
  the members that the script reads.
\<close>

definition taskJson :: "WorkflowTaskStatus \<Rightarrow> json" where
  "taskJson t = JObj ((if wk_error t = [] then [] else [(''error'', JStr (wk_error t))])
     @ [(''name'', JStr (wk_name t)), (''phase'', JStr (wk_phase t))])"

definition statusJson :: "WorkflowStatus \<Rightarrow> json" where
  "statusJson st = JObj ((if ws_phase st = [] then [] else [(''phase'', JStr (ws_phase st))])
     @ (if ws_tasks st = [] then [] else [(''tasks'', JArr (map taskJson (ws_tasks st)))]))"

definition jsonServer :: serverEnv where
  "jsonServer = \<lparr>sv_marshalStatus = (\<lambda>st. marshal go_codec (statusJson st)), sv_render = (\<lambda>s. s)\<rparr>"

fun readStr :: "json option \<Rightarrow> string option" where
  "readStr (Some (JStr s)) = Some s"
| "readStr _ = None"

fun readTask :: "json \<Rightarrow> jsTask list" where
  "readTask (JObj m) = (case (readStr (kv_get m ''name''), readStr (kv_get m ''phase'')) of
     (Some n, Some p) \<Rightarrow> [\<lparr>jt_name = n, jt_phase = p, jt_error = readStr (kv_get m ''error'')\<rparr>] | _ \<Rightarrow> [])"
| "readTask _ = []"

definition jsonBrowser :: browser where
  "jsonBrowser = \<lparr>br_parse = (\<lambda>s. case unmarshal go_codec s of
       Inr (JObj m) \<Rightarrow> Some \<lparr>js_phase = readStr (kv_get m ''phase''),
         js_tasks = (case kv_get m ''tasks'' of Some (JArr xs) \<Rightarrow> Some (concat (map readTask xs)) | _ \<Rightarrow> None)\<rparr>
     | _ \<Rightarrow> None),
     br_data = (\<lambda>c. butlast (butlast (drop 6 c)))\<rparr>"

definition shownStatus :: "string \<Rightarrow> string \<Rightarrow> WorkflowStatus" where
  "shownStatus ph err = \<lparr>ws_transactionID = ''tx'', ws_dashboardURL = [], ws_phase = ph,
     ws_tasks = [\<lparr>wk_name = ''a'', wk_phase = ph, wk_statusCode = None, wk_output = [], wk_error = err\<rparr>],
     ws_notifiedPhase = [], ws_conditions = []\<rparr>"

definition shownFlow :: "string \<Rightarrow> string \<Rightarrow> Workflow" where
  "shownFlow ph err = demoFlow\<lparr>ko_status := shownStatus ph err\<rparr>"

definition shownWorld :: "string \<Rightarrow> string \<Rightarrow> cluster" where
  "shownWorld ph err = emptyCluster\<lparr>cw_flows := tableWith [shownFlow ph err]\<rparr>"

lemma shown_lookup: "lookupWorkflow refFlows ''tx'' (shownWorld ph err) = Inr (shownFlow ph err)"
  by (simp add: lookupWorkflow_def refFlows_def tableClient_def tableList_def flowIdx_def workflowIndex_def shownWorld_def
      tableWith_def shownFlow_def shownStatus_def)

abbreviation shownTicks :: "cluster streamEvent list" where
  "shownTicks \<equiv> [Tick (shownWorld ''Running'' []), Tick (shownWorld ''Running'' []), Tick (shownWorld ''Failed'' ''boom'')]"

lemma shown_seen:
  "seenFlows refFlows ''tx'' shownTicks = [shownFlow ''Running'' [], shownFlow ''Running'' []] @ [shownFlow ''Failed'' ''boom'']"
  by (simp add: shown_lookup terminalFlow_def) (simp add: shownFlow_def shownStatus_def)

lemma shown_parts: "ko_status (shownFlow ph err) = shownStatus ph err" "ws_phase (shownStatus ph err) = ph"
  by (simp_all add: shownFlow_def shownStatus_def)

lemma running_text: "statusText jsonServer jsonBrowser (shownFlow ''Running'' [])"
  unfolding statusText_def payloadOf_def shown_parts by code_simp

lemma failed_text: "statusText jsonServer jsonBrowser (shownFlow ''Failed'' ''boom'')"
  unfolding statusText_def payloadOf_def shown_parts by code_simp

theorem page_shows_outcome_witness:
  "\<exists>p es. runPage jsonBrowser (Fetched ''no workflow'' # map Message (fst (streamLoop jsonServer refFlows ''tx'' [] shownTicks))
       @ [StreamError]) = (p, es)
     \<and> pg_bannerText p = ''FAILED'' \<and> pg_items p = [\<lparr>li_class = ''Failed'', li_text = ''[Failed] a'', li_err = Some ''boom''\<rparr>]"
proof -
  obtain p es where run: "runPage jsonBrowser (Fetched ''no workflow''
      # map Message (fst (streamLoop jsonServer refFlows ''tx'' [] shownTicks)) @ [StreamError]) = (p, es)" by fastforce
  have texts: "\<forall>flow \<in> set (seenFlows refFlows ''tx'' shownTicks). statusText jsonServer jsonBrowser flow"
    unfolding shown_seen using running_text failed_text by simp
  have "terminalFlow (shownFlow ''Failed'' ''boom'')" by (simp add: terminalFlow_def shown_parts)
  from page_shows_outcome [OF texts shown_seen this run]
  have "pg_bannerText p = ''FAILED'' \<and> pg_items p = [\<lparr>li_class = ''Failed'', li_text = ''[Failed] a'', li_err = Some ''boom''\<rparr>]"
    by (simp add: shown_parts) (simp add: shownStatus_def omitempty_def)
  with run show ?thesis by blast
qed

end
