(* ===== verification/Go_Memory.thy ===== *)
theory Go_Memory
  imports Go_Prelude
begin

text \<open>
  The memory that deep copies work on: typed cells behind pointers, slices and maps. A \<open>view\<close> says of a Go type
  when a value of it is well formed in a memory, what a reader that follows every pointer sees
  of it, and which cells that reader goes through. The locale \<open>deep_copy\<close> is the contract of a \<open>DeepCopyInto\<close>: the
  copy looks the same and goes through new cells only. The lemmas say how the contract passes from the fields of a
  struct to the struct, and to pointers, slices and maps.
\<close>

section \<open>Memory\<close>

type_synonym loc = nat

record 'c memory =
  mcell :: "loc \<Rightarrow> 'c"
  mnext :: loc

definition alloc :: "'c \<Rightarrow> 'c memory \<Rightarrow> loc \<times> 'c memory" where
  "alloc c m = (mnext m, m\<lparr>mcell := (mcell m)(mnext m := c), mnext := Suc (mnext m)\<rparr>)"

definition put_cell :: "loc \<Rightarrow> 'c \<Rightarrow> 'c memory \<Rightarrow> 'c memory" where
  "put_cell a c m = m\<lparr>mcell := (mcell m)(a := c)\<rparr>"

text \<open>Only new cells differ.\<close>

definition grows :: "'c memory \<Rightarrow> 'c memory \<Rightarrow> bool" where
  "grows m m' \<longleftrightarrow> mnext m \<le> mnext m' \<and> (\<forall>a < mnext m. mcell m' a = mcell m a)"

lemma grows_refl [simp]: "grows m m"
  by (simp add: grows_def)

lemma grows_trans: "grows m m1 \<Longrightarrow> grows m1 m2 \<Longrightarrow> grows m m2"
  by (auto simp: grows_def)

lemma grows_alloc: "alloc c m = (a, m') \<Longrightarrow> grows m m'"
  by (auto simp: alloc_def grows_def)

lemma grows_put: "grows m m' \<Longrightarrow> mnext m \<le> a \<Longrightarrow> grows m (put_cell a c m')"
  by (auto simp: grows_def put_cell_def)

lemma put_cell_simps [simp]:
  "mcell (put_cell a c m) = (mcell m)(a := c)" "mnext (put_cell a c m) = mnext m"
  by (simp_all add: put_cell_def)

section \<open>Views\<close>

text \<open>What can be seen of a value: every pointer followed, nil told from empty.\<close>

datatype 'v obs =
    ONil
  | OInt int32
  | OStr string
  | OLib 'v
  | OMap "string kvs"
  | ORef "'v obs"
  | OSeq "'v obs list"
  | OStruct "'v obs list"

record ('a, 'c, 'v) view =
  ok :: "'c memory \<Rightarrow> 'a \<Rightarrow> bool"
  see :: "'c memory \<Rightarrow> 'a \<Rightarrow> 'v obs"
  foot :: "'c memory \<Rightarrow> 'a \<Rightarrow> loc set"

text \<open>What is seen of a value depends only on the cells it goes through.\<close>

locale memory_view =
  fixes V :: "('a, 'c, 'v) view"
  assumes inside: "ok V m x \<Longrightarrow> foot V m x \<subseteq> {..< mnext m}"
    and local: "ok V m x \<Longrightarrow> mnext m \<le> mnext m' \<Longrightarrow> (\<forall>a \<in> foot V m x. mcell m' a = mcell m a)
      \<Longrightarrow> ok V m' x \<and> see V m' x = see V m x \<and> foot V m' x = foot V m x"
begin

lemma grown:
  assumes "ok V m x" and "grows m m'"
  shows "ok V m' x \<and> see V m' x = see V m x \<and> foot V m' x = foot V m x"
proof (rule local [OF assms(1)])
  show "\<forall>a \<in> foot V m x. mcell m' a = mcell m a"
    using inside [OF assms(1)] assms(2) unfolding grows_def by blast
qed (use assms(2) in \<open>simp add: grows_def\<close>)

end

text \<open>\<open>y\<close> in \<open>m'\<close> is a copy of \<open>x\<close> in \<open>m\<close>: it looks the same and shares nothing that was there before.\<close>

definition copy_of :: "('a, 'c, 'v) view \<Rightarrow> 'c memory \<Rightarrow> 'a \<Rightarrow> 'c memory \<Rightarrow> 'a \<Rightarrow> bool" where
  "copy_of V m x m' y \<longleftrightarrow> grows m m' \<and> ok V m' y \<and> see V m' y = see V m x \<and> foot V m' y \<subseteq> {mnext m ..< mnext m'}"

context memory_view
begin

lemma copy_later: "copy_of V m x m1 y \<Longrightarrow> grows m1 m2 \<Longrightarrow> copy_of V m x m2 y"
  using grown [of m1 y m2] by (auto simp: copy_of_def intro: grows_trans) (auto simp: grows_def)

lemma copy_earlier: "copy_of V m1 x m2 y \<Longrightarrow> grows m m1 \<Longrightarrow> ok V m x \<Longrightarrow> copy_of V m x m2 y"
  using grown [of m x m1] by (auto simp: copy_of_def intro: grows_trans) (auto simp: grows_def)

text \<open>A copy and its original are apart: what is written through one of them is not seen through the other.\<close>

lemma copy_apart:
  assumes "copy_of V m x m1 y" and "ok V m x" and "mnext m1 \<le> mnext m2"
  shows "(\<forall>a < mnext m1. a \<notin> foot V m1 y \<longrightarrow> mcell m2 a = mcell m1 a) \<Longrightarrow> see V m2 x = see V m1 x"
    and "(\<forall>a < mnext m1. a \<notin> foot V m1 x \<longrightarrow> mcell m2 a = mcell m1 a) \<Longrightarrow> see V m2 y = see V m1 y"
proof -
  have g: "grows m m1" and y: "ok V m1 y" and f: "foot V m1 y \<subseteq> {mnext m ..< mnext m1}"
    using assms(1) by (auto simp: copy_of_def)
  have x: "ok V m1 x" "foot V m1 x \<subseteq> {..< mnext m}"
    using grown [OF assms(2) g] inside [OF assms(2)] by auto
  {
    assume c: "\<forall>a < mnext m1. a \<notin> foot V m1 y \<longrightarrow> mcell m2 a = mcell m1 a"
    have "mcell m2 a = mcell m1 a" if "a \<in> foot V m1 x" for a
    proof -
      have "a < mnext m" using that x(2) by blast
      moreover from this have "a < mnext m1" using g by (simp add: grows_def)
      moreover have "a \<notin> foot V m1 y" using f \<open>a < mnext m\<close> by (metis atLeastLessThan_iff not_less subsetD)
      ultimately show ?thesis using c by blast
    qed
    then show "see V m2 x = see V m1 x" using local [OF x(1) assms(3)] by blast
  next
    assume c: "\<forall>a < mnext m1. a \<notin> foot V m1 x \<longrightarrow> mcell m2 a = mcell m1 a"
    have "mcell m2 a = mcell m1 a" if "a \<in> foot V m1 y" for a
    proof -
      have "mnext m \<le> a" "a < mnext m1" using that f by auto
      moreover from this have "a \<notin> foot V m1 x" using x(2) by (metis lessThan_iff not_less subsetD)
      ultimately show ?thesis using c by blast
    qed
    then show "see V m2 y = see V m1 y" using local [OF y assms(3)] by blast
  }
qed

end

section \<open>The contract\<close>

locale deep_copy = memory_view V
  for V :: "('a, 'c, 'v) view" +
  fixes into :: "'a \<Rightarrow> 'c memory \<Rightarrow> 'a \<times> 'c memory"
  assumes copied: "ok V m x \<Longrightarrow> into x m = (y, m') \<Longrightarrow> copy_of V m x m' y"
begin

text \<open>A field that is copied while others before it and after it are.\<close>

lemma field_copied:
  assumes "into x m1 = (y, m2)" and "ok V m x" and "grows m m1"
  shows "copy_of V m x m2 y" and "grows m1 m2"
proof -
  have c: "copy_of V m1 x m2 y" using copied [OF _ assms(1)] grown [OF assms(2,3)] by blast
  from copy_earlier [OF c assms(3,2)] show "copy_of V m x m2 y" .
  from c show "grows m1 m2" by (simp add: copy_of_def)
qed

end

section \<open>Structs\<close>

text \<open>A part without pointers, a field, and a struct as the list of its fields.\<close>

definition plain :: "('a \<Rightarrow> 'v obs) \<Rightarrow> ('a, 'c, 'v) view" where
  "plain f = \<lparr>ok = (\<lambda>m x. True), see = (\<lambda>m x. f x), foot = (\<lambda>m x. {})\<rparr>"

definition field :: "('s \<Rightarrow> 'a) \<Rightarrow> ('a, 'c, 'v) view \<Rightarrow> ('s, 'c, 'v) view" where
  "field sel V = \<lparr>ok = (\<lambda>m x. ok V m (sel x)), see = (\<lambda>m x. see V m (sel x)), foot = (\<lambda>m x. foot V m (sel x))\<rparr>"

definition structView :: "('s, 'c, 'v) view list \<Rightarrow> ('s, 'c, 'v) view" where
  "structView Vs = \<lparr>ok = (\<lambda>m x. \<forall>V \<in> set Vs. ok V m x), see = (\<lambda>m x. OStruct (map (\<lambda>V. see V m x) Vs)),
     foot = (\<lambda>m x. \<Union>V \<in> set Vs. foot V m x)\<rparr>"

lemma view_plain [intro]: "memory_view (plain f)"
  by unfold_locales (simp_all add: plain_def)

lemma view_field [intro]: "memory_view V \<Longrightarrow> memory_view (field sel V)"
  by (rule memory_view.intro) (auto simp: field_def dest: memory_view.inside memory_view.local)

lemma view_struct [intro]:
  fixes Vs :: "('s, 'c, 'v) view list"
  assumes "\<forall>V \<in> set Vs. memory_view V"
  shows "memory_view (structView Vs)"
proof
  fix m :: "'c memory" and x
  assume o: "ok (structView Vs) m x"
  then show "foot (structView Vs) m x \<subseteq> {..< mnext m}"
    using assms memory_view.inside by (fastforce simp: structView_def)
  fix m' :: "'c memory"
  assume n: "mnext m \<le> mnext m'" and "\<forall>a \<in> foot (structView Vs) m x. mcell m' a = mcell m a"
  then have "ok V m' x \<and> see V m' x = see V m x \<and> foot V m' x = foot V m x" if "V \<in> set Vs" for V
    using that o assms memory_view.local [of V m x m'] by (simp add: structView_def)
  then show "ok (structView Vs) m' x \<and> see (structView Vs) m' x = see (structView Vs) m x
      \<and> foot (structView Vs) m' x = foot (structView Vs) m x"
    by (simp add: structView_def)
qed

named_theorems copy_simps \<open>copies of structs from copies of their fields\<close>

lemma copy_of_plain [copy_simps]: "copy_of (plain f) m x m' y \<longleftrightarrow> grows m m' \<and> f x = f y"
  by (auto simp: copy_of_def plain_def)

lemma copy_of_field [copy_simps]: "copy_of (field sel V) m x m' y \<longleftrightarrow> copy_of V m (sel x) m' (sel y)"
  by (simp add: copy_of_def field_def)

lemma copy_of_struct [copy_simps]:
  "copy_of (structView Vs) m x m' y \<longleftrightarrow> grows m m' \<and> (\<forall>V \<in> set Vs. copy_of V m x m' y)"
  by (auto simp: copy_of_def structView_def)

lemma ok_struct [copy_simps]:
  "ok (structView Vs) m x \<longleftrightarrow> (\<forall>V \<in> set Vs. ok V m x)" "ok (field sel V) m x \<longleftrightarrow> ok V m (sel x)" "ok (plain f) m x"
  by (simp_all add: structView_def field_def plain_def)

text \<open>\<open>*out = *in\<close>: enough for a type without pointers.\<close>

definition assign :: "'a \<Rightarrow> 'c memory \<Rightarrow> 'a \<times> 'c memory" where
  "assign x m = (x, m)"

lemma assign_copies: "deep_copy (plain f) assign"
  by (rule deep_copy.intro) (auto simp: deep_copy_axioms_def assign_def copy_of_plain)

text \<open>One, two and three fields copied one after the other, and the struct they belong to.\<close>

lemma copies1: "deep_copy V f \<Longrightarrow> f x m = (y, m') \<Longrightarrow> ok V m x \<Longrightarrow> grows m m' \<and> copy_of V m x m' y"
  using deep_copy.copied [of V f m x y m'] by (auto simp: copy_of_def)

lemma copies2:
  assumes "deep_copy V1 f1" "deep_copy V2 f2"
    and "f1 x m = (x', m1)" "f2 y m1 = (y', m2)" and "ok V1 m x" "ok V2 m y"
  shows "grows m m2 \<and> copy_of V1 m x m2 x' \<and> copy_of V2 m y m2 y'"
proof -
  note a = deep_copy.field_copied [OF assms(1,3,5) grows_refl]
  note b = deep_copy.field_copied [OF assms(2,4,6) a(2)]
  show ?thesis
    using a b memory_view.copy_later [OF deep_copy.axioms(1) [OF assms(1)] a(1) b(2)] by (auto intro: grows_trans)
qed

lemma copies3:
  assumes "deep_copy V1 f1" "deep_copy V2 f2" "deep_copy V3 f3"
    and "f1 x m = (x', m1)" "f2 y m1 = (y', m2)" "f3 z m2 = (z', m3)" and "ok V1 m x" "ok V2 m y" "ok V3 m z"
  shows "grows m m3 \<and> copy_of V1 m x m3 x' \<and> copy_of V2 m y m3 y' \<and> copy_of V3 m z m3 z'"
proof -
  note ab = copies2 [OF assms(1,2,4,5,7,8)]
  note c = deep_copy.field_copied [OF assms(3,6,9) conjunct1 [OF ab]]
  show ?thesis
    using ab c memory_view.copy_later [OF deep_copy.axioms(1) [OF assms(1)] _ c(2)]
      memory_view.copy_later [OF deep_copy.axioms(1) [OF assms(2)] _ c(2)] by (auto intro: grows_trans)
qed

lemma struct_copies:
  assumes "\<forall>V \<in> set Vs. memory_view V"
    and "\<And>m x y m'. \<forall>V \<in> set Vs. ok V m x \<Longrightarrow> into x m = (y, m') \<Longrightarrow> grows m m' \<and> (\<forall>V \<in> set Vs. copy_of V m x m' y)"
  shows "deep_copy (structView Vs) into"
  by (intro deep_copy.intro deep_copy_axioms.intro view_struct)
    (use assms in \<open>auto simp: copy_of_struct ok_struct\<close>)

section \<open>Cells of a type\<close>

text \<open>How the cells of one type sit among the cells of a memory.\<close>

record ('a, 'c) cellType =
  mk :: "'a \<Rightarrow> 'c"
  un :: "'c \<Rightarrow> 'a option"

locale cell_type =
  fixes K :: "('a, 'c) cellType"
  assumes un_mk [simp]: "un K (mk K x) = Some x"

section \<open>Pointers\<close>

text \<open>A pointer to a cell whose content is seen through \<open>V\<close>.\<close>

definition ptrView :: "('a, 'c) cellType \<Rightarrow> ('a, 'c, 'v) view \<Rightarrow> (loc option, 'c, 'v) view" where
  "ptrView K V =
     \<lparr>ok = (\<lambda>m p. case p of None \<Rightarrow> True | Some a \<Rightarrow> a < mnext m \<and>
        (case un K (mcell m a) of None \<Rightarrow> False | Some x \<Rightarrow> ok V m x)),
      see = (\<lambda>m p. case p of None \<Rightarrow> ONil | Some a \<Rightarrow>
        (case un K (mcell m a) of None \<Rightarrow> ONil | Some x \<Rightarrow> ORef (see V m x))),
      foot = (\<lambda>m p. case p of None \<Rightarrow> {} | Some a \<Rightarrow>
        insert a (case un K (mcell m a) of None \<Rightarrow> {} | Some x \<Rightarrow> foot V m x))\<rparr>"

text \<open>
  \<open>if in == nil { return nil }; out := new(T); in.DeepCopyInto(out); return out\<close>. The new cell starts with what
  the first statement of every \<open>DeepCopyInto\<close>, \<open>*out = *in\<close>, puts there. A pointer to something else than a \<open>T\<close> does
  not exist in Go; it is left alone.
\<close>

definition newCopy :: "('a, 'c) cellType \<Rightarrow> ('a \<Rightarrow> 'c memory \<Rightarrow> 'a \<times> 'c memory) \<Rightarrow> loc option \<Rightarrow> 'c memory
    \<Rightarrow> loc option \<times> 'c memory" where
  "newCopy K into p m = (case p of
     None \<Rightarrow> (None, m)
   | Some a \<Rightarrow> (case un K (mcell m a) of
       None \<Rightarrow> (None, m)
     | Some x \<Rightarrow> (case alloc (mk K x) m of (b, m1) \<Rightarrow>
         (case into x m1 of (y, m2) \<Rightarrow> (Some b, put_cell b (mk K y) m2)))))"

lemma view_ptr [intro]:
  fixes V :: "('a, 'c, 'v) view"
  assumes "memory_view V"
  shows "memory_view (ptrView K V)"
proof
  fix m :: "'c memory" and p
  assume o: "ok (ptrView K V) m p"
  then show "foot (ptrView K V) m p \<subseteq> {..< mnext m}"
    using memory_view.inside [OF assms] by (fastforce simp: ptrView_def split: option.splits)
  fix m' :: "'c memory"
  assume "mnext m \<le> mnext m'" and "\<forall>a \<in> foot (ptrView K V) m p. mcell m' a = mcell m a"
  with o show "ok (ptrView K V) m' p \<and> see (ptrView K V) m' p = see (ptrView K V) m p
      \<and> foot (ptrView K V) m' p = foot (ptrView K V) m p"
    using memory_view.local [OF assms, of m _ m'] by (auto simp: ptrView_def split: option.splits)
qed

lemma newCopy_copies:
  assumes "cell_type K" and "deep_copy V into"
  shows "deep_copy (ptrView K V) (newCopy K into)"
proof (intro deep_copy.intro deep_copy_axioms.intro view_ptr)
  show v: "memory_view V" by (rule deep_copy.axioms(1) [OF assms(2)])
  fix m p q m'
  assume o: "ok (ptrView K V) m p" and c: "newCopy K into p m = (q, m')"
  show "copy_of (ptrView K V) m p m' q"
  proof (cases p)
    case None
    with c show ?thesis by (simp add: newCopy_def copy_of_def ptrView_def)
  next
    case (Some a)
    with o obtain x where x: "un K (mcell m a) = Some x" "a < mnext m" "ok V m x"
      by (auto simp: ptrView_def split: option.splits)
    obtain b m1 where al: "alloc (mk K x) m = (b, m1)" by fastforce
    obtain y m2 where y: "into x m1 = (y, m2)" by fastforce
    have q: "q = Some b" "m' = put_cell b (mk K y) m2"
      using c Some x(1) al y by (simp_all add: newCopy_def)
    have b: "b = mnext m" "mnext m1 = Suc (mnext m)" using al by (auto simp: alloc_def)
    note f = deep_copy.field_copied [OF assms(2) y x(3) grows_alloc [OF al]]
    have c1: "copy_of V m1 x m2 y"
      using deep_copy.copied [OF assms(2) _ y] memory_view.grown [OF v x(3) grows_alloc [OF al]] by blast
    have foot: "foot V m2 y \<subseteq> {mnext m1 ..< mnext m2}" using c1 by (simp add: copy_of_def)
    have loc: "ok V m' y \<and> see V m' y = see V m2 y \<and> foot V m' y = foot V m2 y"
    proof (rule memory_view.local [OF v])
      show "ok V m2 y" using f(1) by (simp add: copy_of_def)
      show "\<forall>a \<in> foot V m2 y. mcell m' a = mcell m2 a" using foot b q(2) by auto
    qed (simp add: q(2))
    have "b < mnext m2" using f(2) b by (auto simp: grows_def)
    moreover have "grows m m'" unfolding q(2)
      by (rule grows_put) (use f(1) b in \<open>auto simp: copy_of_def\<close>)
    ultimately show ?thesis
      using Some x f(1) loc foot b q(1) cell_type.un_mk [OF assms(1), of y] q(2)
      by (auto simp: copy_of_def ptrView_def)
  qed
qed

section \<open>Maps\<close>

text \<open>
  A \<open>map[string]string\<close> variable: nil or a cell with the bindings. The copy makes a map and ranges over the old
  one; the keys differ, so the order of ranging does not matter.
\<close>

definition mapView :: "(string kvs, 'c) cellType \<Rightarrow> (loc option, 'c, 'v) view" where
  "mapView K = ptrView K \<lparr>ok = (\<lambda>m kvs. kv_ok kvs), see = (\<lambda>m kvs. OMap kvs), foot = (\<lambda>m kvs. {})\<rparr>"

definition mapAssign :: "(string kvs, 'c) cellType \<Rightarrow> loc \<Rightarrow> string \<Rightarrow> string \<Rightarrow> 'c memory \<Rightarrow> 'c memory" where
  "mapAssign K b k v m = (case un K (mcell m b) of
     None \<Rightarrow> m
   | Some kvs \<Rightarrow> put_cell b (mk K (kv_put k v kvs)) m)"

definition copyMap :: "(string kvs, 'c) cellType \<Rightarrow> loc option \<Rightarrow> 'c memory \<Rightarrow> loc option \<times> 'c memory" where
  "copyMap K p m = (case p of
     None \<Rightarrow> (None, m)
   | Some a \<Rightarrow> (case un K (mcell m a) of
       None \<Rightarrow> (None, m)
     | Some kvs \<Rightarrow> (case alloc (mk K []) m of (b, m1) \<Rightarrow>
         (Some b, fold (\<lambda>(k, v). mapAssign K b k v) kvs m1))))"

lemma fold_mapAssign:
  assumes "cell_type K" and "mcell m b = mk K xs"
  shows "fold (\<lambda>(k, v). mapAssign K b k v) kvs m = put_cell b (mk K (fold (\<lambda>(k, v). kv_put k v) kvs xs)) m"
  using assms(2)
proof (induction kvs arbitrary: m xs)
  case Nil
  then show ?case by (simp add: put_cell_def fun_upd_idem)
next
  case (Cons kv kvs)
  obtain k v where kv: "kv = (k, v)" by fastforce
  have "mapAssign K b k v m = put_cell b (mk K (kv_put k v xs)) m"
    by (simp add: mapAssign_def Cons.prems cell_type.un_mk [OF assms(1)])
  with Cons.IH [of "put_cell b (mk K (kv_put k v xs)) m" "kv_put k v xs"] kv show ?case
    by (simp add: put_cell_def)
qed

lemma copyMap_newCopy: "cell_type K \<Longrightarrow> copyMap K = newCopy K (\<lambda>kvs m. (kv_of kvs, m))"
  by (auto simp: fun_eq_iff copyMap_def newCopy_def alloc_def kv_of_def fold_mapAssign split: option.splits)

lemma copyMap_copies:
  assumes "cell_type K"
  shows "deep_copy (mapView K) (copyMap K)"
proof -
  have "deep_copy \<lparr>ok = (\<lambda>m kvs. kv_ok kvs), see = (\<lambda>m kvs. OMap kvs), foot = (\<lambda>m kvs. {})\<rparr> (\<lambda>kvs m. (kv_of kvs, m))"
    by unfold_locales (auto simp: copy_of_def kv_of_same kv_ok_of)
  from newCopy_copies [OF assms this] show ?thesis
    unfolding mapView_def copyMap_newCopy [OF assms] .
qed

section \<open>Slices\<close>

text \<open>A slice: nil, or an array, an offset and a length.\<close>

datatype slice = NilSlice | Slice loc nat nat

definition window :: "nat \<Rightarrow> nat \<Rightarrow> 'a list \<Rightarrow> 'a list" where
  "window off n xs = take n (drop off xs)"

definition sliceView :: "('a list, 'c) cellType \<Rightarrow> ('a, 'c, 'v) view \<Rightarrow> (slice, 'c, 'v) view" where
  "sliceView K V =
     \<lparr>ok = (\<lambda>m s. case s of NilSlice \<Rightarrow> True | Slice a off n \<Rightarrow> a < mnext m \<and>
        (case un K (mcell m a) of None \<Rightarrow> False
         | Some xs \<Rightarrow> off + n \<le> length xs \<and> (\<forall>x \<in> set (window off n xs). ok V m x))),
      see = (\<lambda>m s. case s of NilSlice \<Rightarrow> ONil | Slice a off n \<Rightarrow>
        (case un K (mcell m a) of None \<Rightarrow> ONil | Some xs \<Rightarrow> OSeq (map (see V m) (window off n xs)))),
      foot = (\<lambda>m s. case s of NilSlice \<Rightarrow> {} | Slice a off n \<Rightarrow>
        insert a (case un K (mcell m a) of None \<Rightarrow> {} | Some xs \<Rightarrow> (\<Union>x \<in> set (window off n xs). foot V m x)))\<rparr>"

text \<open>\<open>(*in)[i]\<close> and \<open>(*out)[i] = v\<close>.\<close>

definition elemAt :: "('a list, 'c) cellType \<Rightarrow> loc \<Rightarrow> nat \<Rightarrow> 'c memory \<Rightarrow> 'a option" where
  "elemAt K a i m = (case un K (mcell m a) of
     None \<Rightarrow> None
   | Some xs \<Rightarrow> if i < length xs then Some (xs ! i) else None)"

definition setElem :: "('a list, 'c) cellType \<Rightarrow> loc \<Rightarrow> nat \<Rightarrow> 'a \<Rightarrow> 'c memory \<Rightarrow> 'c memory" where
  "setElem K b i v m = (case un K (mcell m b) of
     None \<Rightarrow> m
   | Some xs \<Rightarrow> put_cell b (mk K (xs[i := v])) m)"

text \<open>\<open>for i := range *in { (*in)[i].DeepCopyInto(&(*out)[i]) }\<close> from index \<open>i\<close> on, with \<open>n\<close> elements left.\<close>

fun copyElems :: "('a list, 'c) cellType \<Rightarrow> ('a \<Rightarrow> 'c memory \<Rightarrow> 'a \<times> 'c memory) \<Rightarrow> loc \<Rightarrow> nat \<Rightarrow> loc \<Rightarrow> nat \<Rightarrow> nat
    \<Rightarrow> 'c memory \<Rightarrow> 'c memory" where
  "copyElems K into a off b i 0 m = m"
| "copyElems K into a off b i (Suc n) m = (case elemAt K a (off + i) m of
     None \<Rightarrow> m
   | Some x \<Rightarrow> (case into x m of (y, m1) \<Rightarrow> copyElems K into a off b (Suc i) n (setElem K b i y m1)))"

definition copySlice :: "('a list, 'c) cellType \<Rightarrow> 'a \<Rightarrow> ('a \<Rightarrow> 'c memory \<Rightarrow> 'a \<times> 'c memory) \<Rightarrow> slice \<Rightarrow> 'c memory
    \<Rightarrow> slice \<times> 'c memory" where
  "copySlice K zero into s m = (case s of
     NilSlice \<Rightarrow> (NilSlice, m)
   | Slice a off n \<Rightarrow> (case alloc (mk K (replicate n zero)) m of (b, m1) \<Rightarrow>
       (Slice b 0 n, copyElems K into a off b 0 n m1)))"

lemma view_slice [intro]:
  fixes V :: "('a, 'c, 'v) view"
  assumes "memory_view V"
  shows "memory_view (sliceView K V)"
proof
  fix m :: "'c memory" and s
  assume o: "ok (sliceView K V) m s"
  then show "foot (sliceView K V) m s \<subseteq> {..< mnext m}"
    using memory_view.inside [OF assms] by (fastforce simp: sliceView_def split: option.splits slice.splits)
  fix m' :: "'c memory"
  assume n: "mnext m \<le> mnext m'" and c: "\<forall>a \<in> foot (sliceView K V) m s. mcell m' a = mcell m a"
  show "ok (sliceView K V) m' s \<and> see (sliceView K V) m' s = see (sliceView K V) m s
      \<and> foot (sliceView K V) m' s = foot (sliceView K V) m s"
  proof (cases s)
    case (Slice a off k)
    with o obtain xs where xs: "un K (mcell m a) = Some xs" "a < mnext m" "off + k \<le> length xs"
      "\<forall>x \<in> set (window off k xs). ok V m x" by (auto simp: sliceView_def split: option.splits)
    have a: "mcell m' a = mcell m a" using c Slice by (simp add: sliceView_def)
    have "ok V m' x \<and> see V m' x = see V m x \<and> foot V m' x = foot V m x" if "x \<in> set (window off k xs)" for x
      using memory_view.local [OF assms _ n] xs(1,4) c Slice that by (auto simp: sliceView_def)
    with Slice xs a n show ?thesis by (simp add: sliceView_def)
  qed (simp add: sliceView_def)
qed

text \<open>\<open>y\<close> is a copy of \<open>x\<close> that shares nothing with the cells up to the new array, and stays one.\<close>

definition elem_copy :: "('a, 'c, 'v) view \<Rightarrow> 'c memory \<Rightarrow> 'c memory \<Rightarrow> 'a \<Rightarrow> 'a \<Rightarrow> bool" where
  "elem_copy V m0 m x y \<longleftrightarrow> ok V m y \<and> see V m y = see V m0 x \<and> foot V m y \<subseteq> {Suc (mnext m0) ..< mnext m}"

lemma elem_copy_kept:
  assumes "memory_view V" and "elem_copy V m0 m x y" and "grows m m1"
  shows "elem_copy V m0 (put_cell (mnext m0) c m1) x y"
proof -
  have e: "ok V m y" "see V m y = see V m0 x" "foot V m y \<subseteq> {Suc (mnext m0) ..< mnext m}"
    using assms(2) by (auto simp: elem_copy_def)
  have "ok V (put_cell (mnext m0) c m1) y \<and> see V (put_cell (mnext m0) c m1) y = see V m y
      \<and> foot V (put_cell (mnext m0) c m1) y = foot V m y"
    by (rule memory_view.local [OF assms(1) e(1)]) (use assms(3) e(3) in \<open>auto simp: grows_def\<close>)
  with e assms(3) show ?thesis by (auto simp: elem_copy_def grows_def)
qed

lemma elem_copied:
  assumes "deep_copy V into" and "into x m = (y, m1)" and "ok V m0 x" and "grows m0 m" and "mnext m0 < mnext m"
  shows "elem_copy V m0 m1 x y" and "grows m m1"
proof -
  have v: "memory_view V" by (rule deep_copy.axioms(1) [OF assms(1)])
  have c: "copy_of V m x m1 y"
    using deep_copy.copied [OF assms(1) _ assms(2)] memory_view.grown [OF v assms(3,4)] by blast
  then show "grows m m1" by (simp add: copy_of_def)
  from c memory_view.grown [OF v assms(3,4)] assms(5) show "elem_copy V m0 m1 x y"
    by (auto simp: copy_of_def elem_copy_def)
qed

text \<open>The loop: \<open>pre\<close> has been copied to \<open>ys\<close>, \<open>rest\<close> is to come.\<close>

lemma copyElems_spec:
  fixes V :: "('a, 'c, 'v) view"
  assumes "cell_type K" and "deep_copy V into" and "un K (mcell m0 a) = Some xs" and "a < mnext m0"
    and "window off k xs = pre @ rest" and "off + k \<le> length xs" and "\<forall>x \<in> set (window off k xs). ok V m0 x"
    and "grows m0 m" and "mnext m0 < mnext m" and "mcell m (mnext m0) = mk K (ys @ zs)" and "length zs = length rest"
    and "list_all2 (elem_copy V m0 m) pre ys"
  shows "\<exists>ys'. grows m0 (copyElems K into a off (mnext m0) (length pre) (length rest) m)
    \<and> mnext m0 < mnext (copyElems K into a off (mnext m0) (length pre) (length rest) m)
    \<and> mcell (copyElems K into a off (mnext m0) (length pre) (length rest) m) (mnext m0) = mk K ys'
    \<and> list_all2 (elem_copy V m0 (copyElems K into a off (mnext m0) (length pre) (length rest) m)) (pre @ rest) ys'"
  using assms(5,8-)
proof (induction rest arbitrary: pre m ys zs)
  case Nil
  then show ?case by auto
next
  case (Cons x rest)
  note g = Cons.prems(2) and b = Cons.prems(3) and cell = Cons.prems(4) and len = Cons.prems(5) and ys = Cons.prems(6)
  obtain z zs' where zs: "zs = z # zs'" "length zs' = length rest" using len by (cases zs) auto
  have lp: "length ys = length pre" using ys by (simp add: list_all2_lengthD)
  have w: "length (window off k xs) = k" using assms(6) by (simp add: window_def)
  then have i: "length pre < k" using Cons.prems(1) by simp
  have "xs ! (off + length pre) = window off k xs ! length pre" using i assms(6) by (simp add: window_def)
  also have "\<dots> = x" by (simp add: Cons.prems(1))
  finally have at: "elemAt K a (off + length pre) m = Some x"
    using g assms(3,4,6) i by (simp add: elemAt_def grows_def)
  obtain y m1 where y: "into x m = (y, m1)" by fastforce
  have "ok V m0 x" using assms(7) Cons.prems(1) by simp
  note c = elem_copied [OF assms(2) y this g b]
  define m2 where "m2 = put_cell (mnext m0) (mk K ((ys @ [y]) @ zs')) m1"
  have "mcell m1 (mnext m0) = mk K (ys @ zs)" using c(2) b cell by (simp add: grows_def)
  then have set: "setElem K (mnext m0) (length pre) y m1 = m2"
    by (simp add: setElem_def m2_def cell_type.un_mk [OF assms(1)] zs(1) list_update_append lp)
  have v: "memory_view V" by (rule deep_copy.axioms(1) [OF assms(2)])
  have new: "elem_copy V m0 m2 x y" unfolding m2_def by (rule elem_copy_kept [OF v c(1)]) simp
  have old: "list_all2 (elem_copy V m0 m2) pre ys" unfolding m2_def
    by (rule list_all2_mono [OF ys]) (rule elem_copy_kept [OF v _ c(2)])
  have g2: "grows m0 m2" unfolding m2_def by (rule grows_put [OF grows_trans [OF g c(2)]]) simp
  have b2: "mnext m0 < mnext m2" using b c(2) by (simp add: m2_def grows_def)
  have l2: "list_all2 (elem_copy V m0 m2) (pre @ [x]) (ys @ [y])"
    using old new by (simp add: list_all2_appendI)
  have "copyElems K into a off (mnext m0) (length pre) (length (x # rest)) m
      = copyElems K into a off (mnext m0) (length (pre @ [x])) (length rest) m2"
    by (simp add: at y set)
  moreover have "mcell m2 (mnext m0) = mk K ((ys @ [y]) @ zs')" by (simp add: m2_def)
  ultimately show ?case
    using Cons.IH [OF _ g2 b2 _ zs(2) l2] Cons.prems(1) by simp
qed

lemma copySlice_copies:
  assumes "cell_type K" and "deep_copy V into"
  shows "deep_copy (sliceView K V) (copySlice K zero into)"
proof (intro deep_copy.intro deep_copy_axioms.intro view_slice)
  show v: "memory_view V" by (rule deep_copy.axioms(1) [OF assms(2)])
  fix m s t m'
  assume o: "ok (sliceView K V) m s" and c: "copySlice K zero into s m = (t, m')"
  show "copy_of (sliceView K V) m s m' t"
  proof (cases s)
    case NilSlice
    with c show ?thesis by (simp add: copySlice_def copy_of_def sliceView_def)
  next
    case (Slice a off n)
    with o obtain xs where xs: "un K (mcell m a) = Some xs" "a < mnext m" "off + n \<le> length xs"
      "\<forall>x \<in> set (window off n xs). ok V m x" by (auto simp: sliceView_def split: option.splits)
    define m1 where "m1 = snd (alloc (mk K (replicate n zero)) m)"
    have al: "alloc (mk K (replicate n zero)) m = (mnext m, m1)" by (simp add: m1_def alloc_def)
    have m1: "grows m m1" "mnext m < mnext m1" "mcell m1 (mnext m) = mk K ([] @ replicate n zero)"
      using grows_alloc [OF al] by (simp_all add: m1_def alloc_def)
    have len: "length (window off n xs) = n" using xs(3) by (simp add: window_def)
    have t: "t = Slice (mnext m) 0 n" "m' = copyElems K into a off (mnext m) 0 n m1"
      using c Slice al by (simp_all add: copySlice_def)
    from copyElems_spec [OF assms xs(1,2) _ xs(3,4) m1, of "[]" "window off n xs"] len
    obtain ys where ys: "grows m m'" "mnext m < mnext m'" "mcell m' (mnext m) = mk K ys"
      "list_all2 (elem_copy V m m') (window off n xs) ys"
      by (auto simp: t(2))
    have "length ys = n" using list_all2_lengthD [OF ys(4)] len by simp
    then have wy: "window 0 n ys = ys" by (simp add: window_def)
    have each: "\<forall>y \<in> set ys. ok V m' y \<and> foot V m' y \<subseteq> {mnext m ..< mnext m'}"
      using ys(4) unfolding list_all2_conv_all_nth elem_copy_def all_set_conv_all_nth by fastforce
    have "map (see V m') ys = map (see V m) (window off n xs)"
      using ys(4) unfolding list_all2_conv_all_nth elem_copy_def by (auto simp: list_eq_iff_nth_eq)
    with each show ?thesis
      using Slice t(1) ys(1-3) xs wy \<open>length ys = n\<close> cell_type.un_mk [OF assms(1), of ys]
      by (auto simp: copy_of_def sliceView_def)
  qed
qed

end
