(* ===== verification/Go_Cells.thy ===== *)
theory Go_Cells
  imports Go_Memory Api_Types
begin

text \<open>
  The structs of \<open>src/api/v1alpha1\<close> and of \<open>function-httptask/input/v1beta1/input.go\<close> as they lie in memory:
  pointers, slices and maps are references to cells, everything else is part of the struct. The structs of
  apimachinery (ObjectMeta, ListMeta, Condition, RawExtension) are of a type \<open>'x\<close>.
\<close>

section \<open>The structs in memory\<close>

record TypeMeta =
  tm_kind :: string
  tm_apiVersion :: string

record ('x, 's, 't) goObject =
  go_typeMeta :: TypeMeta
  go_objectMeta :: 'x
  go_spec :: 's
  go_status :: 't

record 'x goList =
  gl_typeMeta :: TypeMeta
  gl_listMeta :: 'x
  gl_items :: slice

text \<open>The statuses of Add, Subtract and Square have the same fields.\<close>

record goCalcStatus =
  gc_result :: "loc option"
  gc_conditions :: slice

record 'x goHTTPTaskSpec =
  gh_endpoint :: string
  gh_method :: string
  gh_headers :: "loc option"
  gh_input :: 'x
  gh_inputFrom :: slice

record 'x goHTTPTaskStatus =
  gt_output :: 'x
  gt_statusCode :: "loc option"
  gt_observedInputHash :: string
  gt_conditions :: slice

record 'x goWorkflowTaskSpec =
  gw_name :: string
  gw_endpoint :: string
  gw_method :: string
  gw_headers :: "loc option"
  gw_input :: 'x
  gw_inputFrom :: slice

record goWorkflowSpec =
  gf_tasks :: slice
  gf_notifyURL :: string

record 'x goWorkflowTaskStatus =
  gk_name :: string
  gk_phase :: string
  gk_statusCode :: "loc option"
  gk_output :: 'x
  gk_error :: string

record goWorkflowStatus =
  gs_transactionID :: string
  gs_dashboardURL :: string
  gs_phase :: string
  gs_tasks :: slice
  gs_notifiedPhase :: string
  gs_conditions :: slice

record 'x goInput =
  gi_typeMeta :: TypeMeta
  gi_objectMeta :: 'x
  gi_providerConfigName :: string
  gi_defaultHeaders :: "loc option"

type_synonym 'x goAdd = "('x, AddSpec, goCalcStatus) goObject"
type_synonym 'x goSubtract = "('x, SubtractSpec, goCalcStatus) goObject"
type_synonym 'x goSquare = "('x, SquareSpec, goCalcStatus) goObject"
type_synonym 'x goHTTPTask = "('x, 'x goHTTPTaskSpec, 'x goHTTPTaskStatus) goObject"
type_synonym 'x goWorkflow = "('x, goWorkflowSpec, goWorkflowStatus) goObject"

section \<open>The cells\<close>

text \<open>What pointers, maps and slices lead to. \<open>LibCell\<close> is for what apimachinery keeps behind its structs.\<close>

datatype 'x goArray =
    ConditionsArray "'x list"
  | FieldMappingsArray "ApiFieldMapping list"
  | WorkflowFieldMappingsArray "WorkflowFieldMapping list"
  | WorkflowTasksArray "'x goWorkflowTaskSpec list"
  | WorkflowTaskStatusesArray "'x goWorkflowTaskStatus list"
  | AddsArray "'x goAdd list"
  | SubtractsArray "'x goSubtract list"
  | SquaresArray "'x goSquare list"
  | HTTPTasksArray "'x goHTTPTask list"
  | WorkflowsArray "'x goWorkflow list"

datatype 'x goStruct =
    AddSpecStruct "AddSpec"
  | AddStatusStruct "goCalcStatus"
  | AddStruct "'x goAdd"
  | AddListStruct "'x goList"
  | SubtractSpecStruct "SubtractSpec"
  | SubtractStatusStruct "goCalcStatus"
  | SubtractStruct "'x goSubtract"
  | SubtractListStruct "'x goList"
  | SourceReferenceStruct "SourceReference"
  | SquareSpecStruct "SquareSpec"
  | SquareStatusStruct "goCalcStatus"
  | SquareStruct "'x goSquare"
  | SquareListStruct "'x goList"
  | FieldMappingStruct "ApiFieldMapping"
  | HTTPTaskSpecStruct "'x goHTTPTaskSpec"
  | HTTPTaskStatusStruct "'x goHTTPTaskStatus"
  | HTTPTaskStruct "'x goHTTPTask"
  | HTTPTaskListStruct "'x goList"
  | WorkflowFieldMappingStruct "WorkflowFieldMapping"
  | WorkflowTaskSpecStruct "'x goWorkflowTaskSpec"
  | WorkflowSpecStruct "goWorkflowSpec"
  | WorkflowTaskStatusStruct "'x goWorkflowTaskStatus"
  | WorkflowStatusStruct "goWorkflowStatus"
  | WorkflowStruct "'x goWorkflow"
  | WorkflowListStruct "'x goList"
  | InputStruct "'x goInput"

datatype 'x cell =
    Int32Cell int32
  | HeadersCell "string kvs"
  | LibCell 'x
  | ArrayCell "'x goArray"
  | StructCell "'x goStruct"

type_synonym 'x mem = "'x cell memory"

definition int32K :: "(int32, 'x cell) cellType" where
  "int32K = \<lparr>mk = Int32Cell, un = (\<lambda>c. case c of Int32Cell i \<Rightarrow> Some i | _ \<Rightarrow> None)\<rparr>"

definition headersK :: "(string kvs, 'x cell) cellType" where
  "headersK = \<lparr>mk = HeadersCell, un = (\<lambda>c. case c of HeadersCell kvs \<Rightarrow> Some kvs | _ \<Rightarrow> None)\<rparr>"

definition conditionsK :: "('x list, 'x cell) cellType" where
  "conditionsK = \<lparr>mk = (\<lambda>xs. ArrayCell (ConditionsArray xs)), un = (\<lambda>c. case c of ArrayCell (ConditionsArray xs) \<Rightarrow> Some xs | _ \<Rightarrow> None)\<rparr>"

definition fieldMappingsK :: "(ApiFieldMapping list, 'x cell) cellType" where
  "fieldMappingsK = \<lparr>mk = (\<lambda>xs. ArrayCell (FieldMappingsArray xs)), un = (\<lambda>c. case c of ArrayCell (FieldMappingsArray xs) \<Rightarrow> Some xs | _ \<Rightarrow> None)\<rparr>"

definition workflowFieldMappingsK :: "(WorkflowFieldMapping list, 'x cell) cellType" where
  "workflowFieldMappingsK = \<lparr>mk = (\<lambda>xs. ArrayCell (WorkflowFieldMappingsArray xs)), un = (\<lambda>c. case c of ArrayCell (WorkflowFieldMappingsArray xs) \<Rightarrow> Some xs | _ \<Rightarrow> None)\<rparr>"

definition workflowTasksK :: "('x goWorkflowTaskSpec list, 'x cell) cellType" where
  "workflowTasksK = \<lparr>mk = (\<lambda>xs. ArrayCell (WorkflowTasksArray xs)), un = (\<lambda>c. case c of ArrayCell (WorkflowTasksArray xs) \<Rightarrow> Some xs | _ \<Rightarrow> None)\<rparr>"

definition workflowTaskStatusesK :: "('x goWorkflowTaskStatus list, 'x cell) cellType" where
  "workflowTaskStatusesK = \<lparr>mk = (\<lambda>xs. ArrayCell (WorkflowTaskStatusesArray xs)), un = (\<lambda>c. case c of ArrayCell (WorkflowTaskStatusesArray xs) \<Rightarrow> Some xs | _ \<Rightarrow> None)\<rparr>"

definition addsK :: "('x goAdd list, 'x cell) cellType" where
  "addsK = \<lparr>mk = (\<lambda>xs. ArrayCell (AddsArray xs)), un = (\<lambda>c. case c of ArrayCell (AddsArray xs) \<Rightarrow> Some xs | _ \<Rightarrow> None)\<rparr>"

definition subtractsK :: "('x goSubtract list, 'x cell) cellType" where
  "subtractsK = \<lparr>mk = (\<lambda>xs. ArrayCell (SubtractsArray xs)), un = (\<lambda>c. case c of ArrayCell (SubtractsArray xs) \<Rightarrow> Some xs | _ \<Rightarrow> None)\<rparr>"

definition squaresK :: "('x goSquare list, 'x cell) cellType" where
  "squaresK = \<lparr>mk = (\<lambda>xs. ArrayCell (SquaresArray xs)), un = (\<lambda>c. case c of ArrayCell (SquaresArray xs) \<Rightarrow> Some xs | _ \<Rightarrow> None)\<rparr>"

definition httpTasksK :: "('x goHTTPTask list, 'x cell) cellType" where
  "httpTasksK = \<lparr>mk = (\<lambda>xs. ArrayCell (HTTPTasksArray xs)), un = (\<lambda>c. case c of ArrayCell (HTTPTasksArray xs) \<Rightarrow> Some xs | _ \<Rightarrow> None)\<rparr>"

definition workflowsK :: "('x goWorkflow list, 'x cell) cellType" where
  "workflowsK = \<lparr>mk = (\<lambda>xs. ArrayCell (WorkflowsArray xs)), un = (\<lambda>c. case c of ArrayCell (WorkflowsArray xs) \<Rightarrow> Some xs | _ \<Rightarrow> None)\<rparr>"

definition addSpecK :: "(AddSpec, 'x cell) cellType" where
  "addSpecK = \<lparr>mk = (\<lambda>x. StructCell (AddSpecStruct x)), un = (\<lambda>c. case c of StructCell (AddSpecStruct x) \<Rightarrow> Some x | _ \<Rightarrow> None)\<rparr>"

definition addStatusK :: "(goCalcStatus, 'x cell) cellType" where
  "addStatusK = \<lparr>mk = (\<lambda>x. StructCell (AddStatusStruct x)), un = (\<lambda>c. case c of StructCell (AddStatusStruct x) \<Rightarrow> Some x | _ \<Rightarrow> None)\<rparr>"

definition addK :: "('x goAdd, 'x cell) cellType" where
  "addK = \<lparr>mk = (\<lambda>x. StructCell (AddStruct x)), un = (\<lambda>c. case c of StructCell (AddStruct x) \<Rightarrow> Some x | _ \<Rightarrow> None)\<rparr>"

definition addListK :: "('x goList, 'x cell) cellType" where
  "addListK = \<lparr>mk = (\<lambda>x. StructCell (AddListStruct x)), un = (\<lambda>c. case c of StructCell (AddListStruct x) \<Rightarrow> Some x | _ \<Rightarrow> None)\<rparr>"

definition subtractSpecK :: "(SubtractSpec, 'x cell) cellType" where
  "subtractSpecK = \<lparr>mk = (\<lambda>x. StructCell (SubtractSpecStruct x)), un = (\<lambda>c. case c of StructCell (SubtractSpecStruct x) \<Rightarrow> Some x | _ \<Rightarrow> None)\<rparr>"

definition subtractStatusK :: "(goCalcStatus, 'x cell) cellType" where
  "subtractStatusK = \<lparr>mk = (\<lambda>x. StructCell (SubtractStatusStruct x)), un = (\<lambda>c. case c of StructCell (SubtractStatusStruct x) \<Rightarrow> Some x | _ \<Rightarrow> None)\<rparr>"

definition subtractK :: "('x goSubtract, 'x cell) cellType" where
  "subtractK = \<lparr>mk = (\<lambda>x. StructCell (SubtractStruct x)), un = (\<lambda>c. case c of StructCell (SubtractStruct x) \<Rightarrow> Some x | _ \<Rightarrow> None)\<rparr>"

definition subtractListK :: "('x goList, 'x cell) cellType" where
  "subtractListK = \<lparr>mk = (\<lambda>x. StructCell (SubtractListStruct x)), un = (\<lambda>c. case c of StructCell (SubtractListStruct x) \<Rightarrow> Some x | _ \<Rightarrow> None)\<rparr>"

definition sourceReferenceK :: "(SourceReference, 'x cell) cellType" where
  "sourceReferenceK = \<lparr>mk = (\<lambda>x. StructCell (SourceReferenceStruct x)), un = (\<lambda>c. case c of StructCell (SourceReferenceStruct x) \<Rightarrow> Some x | _ \<Rightarrow> None)\<rparr>"

definition squareSpecK :: "(SquareSpec, 'x cell) cellType" where
  "squareSpecK = \<lparr>mk = (\<lambda>x. StructCell (SquareSpecStruct x)), un = (\<lambda>c. case c of StructCell (SquareSpecStruct x) \<Rightarrow> Some x | _ \<Rightarrow> None)\<rparr>"

definition squareStatusK :: "(goCalcStatus, 'x cell) cellType" where
  "squareStatusK = \<lparr>mk = (\<lambda>x. StructCell (SquareStatusStruct x)), un = (\<lambda>c. case c of StructCell (SquareStatusStruct x) \<Rightarrow> Some x | _ \<Rightarrow> None)\<rparr>"

definition squareK :: "('x goSquare, 'x cell) cellType" where
  "squareK = \<lparr>mk = (\<lambda>x. StructCell (SquareStruct x)), un = (\<lambda>c. case c of StructCell (SquareStruct x) \<Rightarrow> Some x | _ \<Rightarrow> None)\<rparr>"

definition squareListK :: "('x goList, 'x cell) cellType" where
  "squareListK = \<lparr>mk = (\<lambda>x. StructCell (SquareListStruct x)), un = (\<lambda>c. case c of StructCell (SquareListStruct x) \<Rightarrow> Some x | _ \<Rightarrow> None)\<rparr>"

definition fieldMappingK :: "(ApiFieldMapping, 'x cell) cellType" where
  "fieldMappingK = \<lparr>mk = (\<lambda>x. StructCell (FieldMappingStruct x)), un = (\<lambda>c. case c of StructCell (FieldMappingStruct x) \<Rightarrow> Some x | _ \<Rightarrow> None)\<rparr>"

definition httpTaskSpecK :: "('x goHTTPTaskSpec, 'x cell) cellType" where
  "httpTaskSpecK = \<lparr>mk = (\<lambda>x. StructCell (HTTPTaskSpecStruct x)), un = (\<lambda>c. case c of StructCell (HTTPTaskSpecStruct x) \<Rightarrow> Some x | _ \<Rightarrow> None)\<rparr>"

definition httpTaskStatusK :: "('x goHTTPTaskStatus, 'x cell) cellType" where
  "httpTaskStatusK = \<lparr>mk = (\<lambda>x. StructCell (HTTPTaskStatusStruct x)), un = (\<lambda>c. case c of StructCell (HTTPTaskStatusStruct x) \<Rightarrow> Some x | _ \<Rightarrow> None)\<rparr>"

definition httpTaskK :: "('x goHTTPTask, 'x cell) cellType" where
  "httpTaskK = \<lparr>mk = (\<lambda>x. StructCell (HTTPTaskStruct x)), un = (\<lambda>c. case c of StructCell (HTTPTaskStruct x) \<Rightarrow> Some x | _ \<Rightarrow> None)\<rparr>"

definition httpTaskListK :: "('x goList, 'x cell) cellType" where
  "httpTaskListK = \<lparr>mk = (\<lambda>x. StructCell (HTTPTaskListStruct x)), un = (\<lambda>c. case c of StructCell (HTTPTaskListStruct x) \<Rightarrow> Some x | _ \<Rightarrow> None)\<rparr>"

definition workflowFieldMappingK :: "(WorkflowFieldMapping, 'x cell) cellType" where
  "workflowFieldMappingK = \<lparr>mk = (\<lambda>x. StructCell (WorkflowFieldMappingStruct x)), un = (\<lambda>c. case c of StructCell (WorkflowFieldMappingStruct x) \<Rightarrow> Some x | _ \<Rightarrow> None)\<rparr>"

definition workflowTaskSpecK :: "('x goWorkflowTaskSpec, 'x cell) cellType" where
  "workflowTaskSpecK = \<lparr>mk = (\<lambda>x. StructCell (WorkflowTaskSpecStruct x)), un = (\<lambda>c. case c of StructCell (WorkflowTaskSpecStruct x) \<Rightarrow> Some x | _ \<Rightarrow> None)\<rparr>"

definition workflowSpecK :: "(goWorkflowSpec, 'x cell) cellType" where
  "workflowSpecK = \<lparr>mk = (\<lambda>x. StructCell (WorkflowSpecStruct x)), un = (\<lambda>c. case c of StructCell (WorkflowSpecStruct x) \<Rightarrow> Some x | _ \<Rightarrow> None)\<rparr>"

definition workflowTaskStatusK :: "('x goWorkflowTaskStatus, 'x cell) cellType" where
  "workflowTaskStatusK = \<lparr>mk = (\<lambda>x. StructCell (WorkflowTaskStatusStruct x)), un = (\<lambda>c. case c of StructCell (WorkflowTaskStatusStruct x) \<Rightarrow> Some x | _ \<Rightarrow> None)\<rparr>"

definition workflowStatusK :: "(goWorkflowStatus, 'x cell) cellType" where
  "workflowStatusK = \<lparr>mk = (\<lambda>x. StructCell (WorkflowStatusStruct x)), un = (\<lambda>c. case c of StructCell (WorkflowStatusStruct x) \<Rightarrow> Some x | _ \<Rightarrow> None)\<rparr>"

definition workflowK :: "('x goWorkflow, 'x cell) cellType" where
  "workflowK = \<lparr>mk = (\<lambda>x. StructCell (WorkflowStruct x)), un = (\<lambda>c. case c of StructCell (WorkflowStruct x) \<Rightarrow> Some x | _ \<Rightarrow> None)\<rparr>"

definition workflowListK :: "('x goList, 'x cell) cellType" where
  "workflowListK = \<lparr>mk = (\<lambda>x. StructCell (WorkflowListStruct x)), un = (\<lambda>c. case c of StructCell (WorkflowListStruct x) \<Rightarrow> Some x | _ \<Rightarrow> None)\<rparr>"

definition inputK :: "('x goInput, 'x cell) cellType" where
  "inputK = \<lparr>mk = (\<lambda>x. StructCell (InputStruct x)), un = (\<lambda>c. case c of StructCell (InputStruct x) \<Rightarrow> Some x | _ \<Rightarrow> None)\<rparr>"

lemmas cellK_defs =
  int32K_def headersK_def conditionsK_def fieldMappingsK_def workflowFieldMappingsK_def workflowTasksK_def
  workflowTaskStatusesK_def addsK_def subtractsK_def squaresK_def httpTasksK_def workflowsK_def addSpecK_def
  addStatusK_def addK_def addListK_def subtractSpecK_def subtractStatusK_def subtractK_def subtractListK_def
  sourceReferenceK_def squareSpecK_def squareStatusK_def squareK_def squareListK_def fieldMappingK_def
  httpTaskSpecK_def httpTaskStatusK_def httpTaskK_def httpTaskListK_def workflowFieldMappingK_def
  workflowTaskSpecK_def workflowSpecK_def workflowTaskStatusK_def workflowStatusK_def workflowK_def
  workflowListK_def inputK_def

lemma cell_types [intro]:
  "cell_type int32K" "cell_type headersK" "cell_type conditionsK" "cell_type fieldMappingsK"
  "cell_type workflowFieldMappingsK" "cell_type workflowTasksK" "cell_type workflowTaskStatusesK"
  "cell_type addsK" "cell_type subtractsK" "cell_type squaresK" "cell_type httpTasksK" "cell_type workflowsK"
  "cell_type addSpecK" "cell_type addStatusK" "cell_type addK" "cell_type addListK" "cell_type subtractSpecK"
  "cell_type subtractStatusK" "cell_type subtractK" "cell_type subtractListK" "cell_type sourceReferenceK"
  "cell_type squareSpecK" "cell_type squareStatusK" "cell_type squareK" "cell_type squareListK"
  "cell_type fieldMappingK" "cell_type httpTaskSpecK" "cell_type httpTaskStatusK" "cell_type httpTaskK"
  "cell_type httpTaskListK" "cell_type workflowFieldMappingK" "cell_type workflowTaskSpecK"
  "cell_type workflowSpecK" "cell_type workflowTaskStatusK" "cell_type workflowStatusK" "cell_type workflowK"
  "cell_type workflowListK" "cell_type inputK"
  by (unfold cell_type_def cellK_defs) simp_all

interpretation int32_cell: cell_type int32K
  by (rule cell_types)

interpretation headers_cell: cell_type headersK
  by (rule cell_types)

end
