(* ===== verification/Deep_Copy.thy ===== *)
theory Deep_Copy
  imports Go_Cells
begin

text \<open>
  The generated deep copies: \<open>src/api/v1alpha1/zz_generated.deepcopy.go\<close> and
  \<open>src/function-httptask/input/v1beta1/zz_generated.deepcopy.go\<close>, on a memory. Controllers read objects from a
  cache they share; the client hands out deep copies, and that what a reconcile then does to its object does not
  reach the cache is why the rest of this development can treat objects as values. The copies of the structs
  of apimachinery are parameters, with the contract \<open>deep_copy\<close>.
\<close>

section \<open>Parameters\<close>

record 'x metaLib =
  ObjectMeta_DeepCopyInto :: "'x \<Rightarrow> 'x mem \<Rightarrow> 'x \<times> 'x mem"
  ListMeta_DeepCopyInto :: "'x \<Rightarrow> 'x mem \<Rightarrow> 'x \<times> 'x mem"
  Condition_DeepCopyInto :: "'x \<Rightarrow> 'x mem \<Rightarrow> 'x \<times> 'x mem"
  RawExtension_DeepCopyInto :: "'x \<Rightarrow> 'x mem \<Rightarrow> 'x \<times> 'x mem"
  zeroMeta :: 'x

section \<open>Zero values\<close>

text \<open>What \<open>make([]T, n)\<close> fills the new array with.\<close>

definition zeroTypeMeta :: TypeMeta where
  "zeroTypeMeta = \<lparr>tm_kind = [], tm_apiVersion = []\<rparr>"

definition zeroObject :: "'x metaLib \<Rightarrow> 's \<Rightarrow> 't \<Rightarrow> ('x, 's, 't) goObject" where
  "zeroObject L sp st = \<lparr>go_typeMeta = zeroTypeMeta, go_objectMeta = zeroMeta L, go_spec = sp, go_status = st\<rparr>"

definition zeroSourceReference :: SourceReference where
  "zeroSourceReference = \<lparr>sr_apiVersion = [], sr_kind = [], sr_name = []\<rparr>"

definition zeroFieldMapping :: ApiFieldMapping where
  "zeroFieldMapping = \<lparr>am_sourceRef = zeroSourceReference, am_sourceField = [], am_targetField = []\<rparr>"

definition zeroWorkflowFieldMapping :: WorkflowFieldMapping where
  "zeroWorkflowFieldMapping = \<lparr>wm_sourceStep = [], wm_sourceField = [], wm_targetField = []\<rparr>"

definition zeroCalcStatus :: goCalcStatus where
  "zeroCalcStatus = \<lparr>gc_result = None, gc_conditions = NilSlice\<rparr>"

definition zeroHTTPTaskSpec :: "'x metaLib \<Rightarrow> 'x goHTTPTaskSpec" where
  "zeroHTTPTaskSpec L = \<lparr>gh_endpoint = [], gh_method = [], gh_headers = None, gh_input = zeroMeta L, gh_inputFrom = NilSlice\<rparr>"

definition zeroHTTPTaskStatus :: "'x metaLib \<Rightarrow> 'x goHTTPTaskStatus" where
  "zeroHTTPTaskStatus L = \<lparr>gt_output = zeroMeta L, gt_statusCode = None, gt_observedInputHash = [], gt_conditions = NilSlice\<rparr>"

definition zeroWorkflowTaskSpec :: "'x metaLib \<Rightarrow> 'x goWorkflowTaskSpec" where
  "zeroWorkflowTaskSpec L = \<lparr>gw_name = [], gw_endpoint = [], gw_method = [], gw_headers = None, gw_input = zeroMeta L,
     gw_inputFrom = NilSlice\<rparr>"

definition zeroWorkflowTaskStatus :: "'x metaLib \<Rightarrow> 'x goWorkflowTaskStatus" where
  "zeroWorkflowTaskStatus L = \<lparr>gk_name = [], gk_phase = [], gk_statusCode = None, gk_output = zeroMeta L, gk_error = []\<rparr>"

definition zeroWorkflowSpec :: goWorkflowSpec where
  "zeroWorkflowSpec = \<lparr>gf_tasks = NilSlice, gf_notifyURL = []\<rparr>"

definition zeroWorkflowStatus :: goWorkflowStatus where
  "zeroWorkflowStatus = \<lparr>gs_transactionID = [], gs_dashboardURL = [], gs_phase = [], gs_tasks = NilSlice,
     gs_notifiedPhase = [], gs_conditions = NilSlice\<rparr>"

section \<open>\<open>DeepCopyInto\<close>\<close>

text \<open>
  A \<open>DeepCopyInto\<close> takes what \<open>in\<close> points to and gives what it leaves behind \<open>out\<close>. The blocks it is made of: a
  \<open>*int32\<close>, a slice of conditions, and the three parts of an object, of which some are only assigned.
\<close>

definition copyInt32 :: "loc option \<Rightarrow> 'x mem \<Rightarrow> loc option \<times> 'x mem" where
  "copyInt32 = newCopy int32K assign"

definition copyConditions :: "'x metaLib \<Rightarrow> slice \<Rightarrow> 'x mem \<Rightarrow> slice \<times> 'x mem" where
  "copyConditions L = copySlice conditionsK (zeroMeta L) (Condition_DeepCopyInto L)"

definition copyObject :: "'x metaLib \<Rightarrow> ('s \<Rightarrow> 'x mem \<Rightarrow> 's \<times> 'x mem) \<Rightarrow> ('t \<Rightarrow> 'x mem \<Rightarrow> 't \<times> 'x mem)
    \<Rightarrow> ('x, 's, 't) goObject \<Rightarrow> 'x mem \<Rightarrow> ('x, 's, 't) goObject \<times> 'x mem" where
  "copyObject L specInto statusInto x m =
     (case ObjectMeta_DeepCopyInto L (go_objectMeta x) m of (om, m1) \<Rightarrow>
     (case specInto (go_spec x) m1 of (sp, m2) \<Rightarrow>
     (case statusInto (go_status x) m2 of (st, m3) \<Rightarrow>
        (x\<lparr>go_typeMeta := go_typeMeta x, go_objectMeta := om, go_spec := sp, go_status := st\<rparr>, m3))))"

definition copyList :: "'x metaLib \<Rightarrow> ('a list, 'x cell) cellType \<Rightarrow> 'a \<Rightarrow> ('a \<Rightarrow> 'x mem \<Rightarrow> 'a \<times> 'x mem)
    \<Rightarrow> 'x goList \<Rightarrow> 'x mem \<Rightarrow> 'x goList \<times> 'x mem" where
  "copyList L K zero into x m =
     (case ListMeta_DeepCopyInto L (gl_listMeta x) m of (lm, m1) \<Rightarrow>
     (case copySlice K zero into (gl_items x) m1 of (items, m2) \<Rightarrow>
        (x\<lparr>gl_typeMeta := gl_typeMeta x, gl_listMeta := lm, gl_items := items\<rparr>, m2)))"

definition copyCalcStatus :: "'x metaLib \<Rightarrow> goCalcStatus \<Rightarrow> 'x mem \<Rightarrow> goCalcStatus \<times> 'x mem" where
  "copyCalcStatus L x m =
     (case copyInt32 (gc_result x) m of (r, m1) \<Rightarrow>
     (case copyConditions L (gc_conditions x) m1 of (cs, m2) \<Rightarrow>
        (x\<lparr>gc_result := r, gc_conditions := cs\<rparr>, m2)))"

subsection \<open>Add\<close>

definition AddSpec_DeepCopyInto :: "AddSpec \<Rightarrow> 'x mem \<Rightarrow> AddSpec \<times> 'x mem" where
  "AddSpec_DeepCopyInto = assign"

definition AddStatus_DeepCopyInto :: "'x metaLib \<Rightarrow> goCalcStatus \<Rightarrow> 'x mem \<Rightarrow> goCalcStatus \<times> 'x mem" where
  "AddStatus_DeepCopyInto L = copyCalcStatus L"

definition Add_DeepCopyInto :: "'x metaLib \<Rightarrow> 'x goAdd \<Rightarrow> 'x mem \<Rightarrow> 'x goAdd \<times> 'x mem" where
  "Add_DeepCopyInto L = copyObject L assign (AddStatus_DeepCopyInto L)"

definition AddList_DeepCopyInto :: "'x metaLib \<Rightarrow> 'x goList \<Rightarrow> 'x mem \<Rightarrow> 'x goList \<times> 'x mem" where
  "AddList_DeepCopyInto L = copyList L addsK (zeroObject L \<lparr>ad_x = 0, ad_y = 0\<rparr> zeroCalcStatus) (Add_DeepCopyInto L)"

subsection \<open>Subtract\<close>

definition SubtractSpec_DeepCopyInto :: "SubtractSpec \<Rightarrow> 'x mem \<Rightarrow> SubtractSpec \<times> 'x mem" where
  "SubtractSpec_DeepCopyInto = assign"

definition SubtractStatus_DeepCopyInto :: "'x metaLib \<Rightarrow> goCalcStatus \<Rightarrow> 'x mem \<Rightarrow> goCalcStatus \<times> 'x mem" where
  "SubtractStatus_DeepCopyInto L = copyCalcStatus L"

definition Subtract_DeepCopyInto :: "'x metaLib \<Rightarrow> 'x goSubtract \<Rightarrow> 'x mem \<Rightarrow> 'x goSubtract \<times> 'x mem" where
  "Subtract_DeepCopyInto L = copyObject L assign (SubtractStatus_DeepCopyInto L)"

definition SubtractList_DeepCopyInto :: "'x metaLib \<Rightarrow> 'x goList \<Rightarrow> 'x mem \<Rightarrow> 'x goList \<times> 'x mem" where
  "SubtractList_DeepCopyInto L = copyList L subtractsK (zeroObject L \<lparr>sb_x = 0, sb_y = 0\<rparr> zeroCalcStatus) (Subtract_DeepCopyInto L)"

subsection \<open>Square\<close>

definition SourceReference_DeepCopyInto :: "SourceReference \<Rightarrow> 'x mem \<Rightarrow> SourceReference \<times> 'x mem" where
  "SourceReference_DeepCopyInto = assign"

definition SquareSpec_DeepCopyInto :: "SquareSpec \<Rightarrow> 'x mem \<Rightarrow> SquareSpec \<times> 'x mem" where
  "SquareSpec_DeepCopyInto x m = (x\<lparr>sq_sourceRef := sq_sourceRef x\<rparr>, m)"

definition SquareStatus_DeepCopyInto :: "'x metaLib \<Rightarrow> goCalcStatus \<Rightarrow> 'x mem \<Rightarrow> goCalcStatus \<times> 'x mem" where
  "SquareStatus_DeepCopyInto L = copyCalcStatus L"

definition Square_DeepCopyInto :: "'x metaLib \<Rightarrow> 'x goSquare \<Rightarrow> 'x mem \<Rightarrow> 'x goSquare \<times> 'x mem" where
  "Square_DeepCopyInto L = copyObject L assign (SquareStatus_DeepCopyInto L)"

definition SquareList_DeepCopyInto :: "'x metaLib \<Rightarrow> 'x goList \<Rightarrow> 'x mem \<Rightarrow> 'x goList \<times> 'x mem" where
  "SquareList_DeepCopyInto L =
     copyList L squaresK (zeroObject L \<lparr>sq_sourceRef = zeroSourceReference\<rparr> zeroCalcStatus) (Square_DeepCopyInto L)"

subsection \<open>HTTPTask\<close>

definition FieldMapping_DeepCopyInto :: "ApiFieldMapping \<Rightarrow> 'x mem \<Rightarrow> ApiFieldMapping \<times> 'x mem" where
  "FieldMapping_DeepCopyInto x m = (x\<lparr>am_sourceRef := am_sourceRef x\<rparr>, m)"

text \<open>\<open>copy(*out, *in)\<close> assigns element by element.\<close>

definition HTTPTaskSpec_DeepCopyInto :: "'x metaLib \<Rightarrow> 'x goHTTPTaskSpec \<Rightarrow> 'x mem \<Rightarrow> 'x goHTTPTaskSpec \<times> 'x mem" where
  "HTTPTaskSpec_DeepCopyInto L x m =
     (case copyMap headersK (gh_headers x) m of (hs, m1) \<Rightarrow>
     (case RawExtension_DeepCopyInto L (gh_input x) m1 of (inp, m2) \<Rightarrow>
     (case copySlice fieldMappingsK zeroFieldMapping assign (gh_inputFrom x) m2 of (ms, m3) \<Rightarrow>
        (x\<lparr>gh_headers := hs, gh_input := inp, gh_inputFrom := ms\<rparr>, m3))))"

definition HTTPTaskStatus_DeepCopyInto :: "'x metaLib \<Rightarrow> 'x goHTTPTaskStatus \<Rightarrow> 'x mem \<Rightarrow> 'x goHTTPTaskStatus \<times> 'x mem" where
  "HTTPTaskStatus_DeepCopyInto L x m =
     (case RawExtension_DeepCopyInto L (gt_output x) m of (out, m1) \<Rightarrow>
     (case copyInt32 (gt_statusCode x) m1 of (code, m2) \<Rightarrow>
     (case copyConditions L (gt_conditions x) m2 of (cs, m3) \<Rightarrow>
        (x\<lparr>gt_output := out, gt_statusCode := code, gt_conditions := cs\<rparr>, m3))))"

definition HTTPTask_DeepCopyInto :: "'x metaLib \<Rightarrow> 'x goHTTPTask \<Rightarrow> 'x mem \<Rightarrow> 'x goHTTPTask \<times> 'x mem" where
  "HTTPTask_DeepCopyInto L = copyObject L (HTTPTaskSpec_DeepCopyInto L) (HTTPTaskStatus_DeepCopyInto L)"

definition HTTPTaskList_DeepCopyInto :: "'x metaLib \<Rightarrow> 'x goList \<Rightarrow> 'x mem \<Rightarrow> 'x goList \<times> 'x mem" where
  "HTTPTaskList_DeepCopyInto L =
     copyList L httpTasksK (zeroObject L (zeroHTTPTaskSpec L) (zeroHTTPTaskStatus L)) (HTTPTask_DeepCopyInto L)"

subsection \<open>Workflow\<close>

definition WorkflowFieldMapping_DeepCopyInto :: "WorkflowFieldMapping \<Rightarrow> 'x mem \<Rightarrow> WorkflowFieldMapping \<times> 'x mem" where
  "WorkflowFieldMapping_DeepCopyInto = assign"

definition WorkflowTaskSpec_DeepCopyInto :: "'x metaLib \<Rightarrow> 'x goWorkflowTaskSpec \<Rightarrow> 'x mem \<Rightarrow> 'x goWorkflowTaskSpec \<times> 'x mem" where
  "WorkflowTaskSpec_DeepCopyInto L x m =
     (case copyMap headersK (gw_headers x) m of (hs, m1) \<Rightarrow>
     (case RawExtension_DeepCopyInto L (gw_input x) m1 of (inp, m2) \<Rightarrow>
     (case copySlice workflowFieldMappingsK zeroWorkflowFieldMapping assign (gw_inputFrom x) m2 of (ms, m3) \<Rightarrow>
        (x\<lparr>gw_headers := hs, gw_input := inp, gw_inputFrom := ms\<rparr>, m3))))"

definition WorkflowSpec_DeepCopyInto :: "'x metaLib \<Rightarrow> goWorkflowSpec \<Rightarrow> 'x mem \<Rightarrow> goWorkflowSpec \<times> 'x mem" where
  "WorkflowSpec_DeepCopyInto L x m =
     (case copySlice workflowTasksK (zeroWorkflowTaskSpec L) (WorkflowTaskSpec_DeepCopyInto L) (gf_tasks x) m of (ts, m1) \<Rightarrow>
        (x\<lparr>gf_tasks := ts\<rparr>, m1))"

definition WorkflowTaskStatus_DeepCopyInto :: "'x metaLib \<Rightarrow> 'x goWorkflowTaskStatus \<Rightarrow> 'x mem \<Rightarrow> 'x goWorkflowTaskStatus \<times> 'x mem" where
  "WorkflowTaskStatus_DeepCopyInto L x m =
     (case copyInt32 (gk_statusCode x) m of (code, m1) \<Rightarrow>
     (case RawExtension_DeepCopyInto L (gk_output x) m1 of (out, m2) \<Rightarrow>
        (x\<lparr>gk_statusCode := code, gk_output := out\<rparr>, m2)))"

definition WorkflowStatus_DeepCopyInto :: "'x metaLib \<Rightarrow> goWorkflowStatus \<Rightarrow> 'x mem \<Rightarrow> goWorkflowStatus \<times> 'x mem" where
  "WorkflowStatus_DeepCopyInto L x m =
     (case copySlice workflowTaskStatusesK (zeroWorkflowTaskStatus L) (WorkflowTaskStatus_DeepCopyInto L) (gs_tasks x) m of (ts, m1) \<Rightarrow>
     (case copyConditions L (gs_conditions x) m1 of (cs, m2) \<Rightarrow>
        (x\<lparr>gs_tasks := ts, gs_conditions := cs\<rparr>, m2)))"

definition Workflow_DeepCopyInto :: "'x metaLib \<Rightarrow> 'x goWorkflow \<Rightarrow> 'x mem \<Rightarrow> 'x goWorkflow \<times> 'x mem" where
  "Workflow_DeepCopyInto L = copyObject L (WorkflowSpec_DeepCopyInto L) (WorkflowStatus_DeepCopyInto L)"

definition WorkflowList_DeepCopyInto :: "'x metaLib \<Rightarrow> 'x goList \<Rightarrow> 'x mem \<Rightarrow> 'x goList \<times> 'x mem" where
  "WorkflowList_DeepCopyInto L =
     copyList L workflowsK (zeroObject L zeroWorkflowSpec zeroWorkflowStatus) (Workflow_DeepCopyInto L)"

subsection \<open>The input of the composition function\<close>

definition Input_DeepCopyInto :: "'x metaLib \<Rightarrow> 'x goInput \<Rightarrow> 'x mem \<Rightarrow> 'x goInput \<times> 'x mem" where
  "Input_DeepCopyInto L x m =
     (case ObjectMeta_DeepCopyInto L (gi_objectMeta x) m of (om, m1) \<Rightarrow>
     (case copyMap headersK (gi_defaultHeaders x) m1 of (hs, m2) \<Rightarrow>
        (x\<lparr>gi_typeMeta := gi_typeMeta x, gi_objectMeta := om, gi_defaultHeaders := hs\<rparr>, m2)))"

section \<open>\<open>DeepCopy\<close>\<close>

definition AddSpec_DeepCopy :: "loc option \<Rightarrow> 'x mem \<Rightarrow> loc option \<times> 'x mem" where
  "AddSpec_DeepCopy = newCopy addSpecK AddSpec_DeepCopyInto"

definition AddStatus_DeepCopy :: "'x metaLib \<Rightarrow> loc option \<Rightarrow> 'x mem \<Rightarrow> loc option \<times> 'x mem" where
  "AddStatus_DeepCopy L = newCopy addStatusK (AddStatus_DeepCopyInto L)"

definition Add_DeepCopy :: "'x metaLib \<Rightarrow> loc option \<Rightarrow> 'x mem \<Rightarrow> loc option \<times> 'x mem" where
  "Add_DeepCopy L = newCopy addK (Add_DeepCopyInto L)"

definition AddList_DeepCopy :: "'x metaLib \<Rightarrow> loc option \<Rightarrow> 'x mem \<Rightarrow> loc option \<times> 'x mem" where
  "AddList_DeepCopy L = newCopy addListK (AddList_DeepCopyInto L)"

definition SubtractSpec_DeepCopy :: "loc option \<Rightarrow> 'x mem \<Rightarrow> loc option \<times> 'x mem" where
  "SubtractSpec_DeepCopy = newCopy subtractSpecK SubtractSpec_DeepCopyInto"

definition SubtractStatus_DeepCopy :: "'x metaLib \<Rightarrow> loc option \<Rightarrow> 'x mem \<Rightarrow> loc option \<times> 'x mem" where
  "SubtractStatus_DeepCopy L = newCopy subtractStatusK (SubtractStatus_DeepCopyInto L)"

definition Subtract_DeepCopy :: "'x metaLib \<Rightarrow> loc option \<Rightarrow> 'x mem \<Rightarrow> loc option \<times> 'x mem" where
  "Subtract_DeepCopy L = newCopy subtractK (Subtract_DeepCopyInto L)"

definition SubtractList_DeepCopy :: "'x metaLib \<Rightarrow> loc option \<Rightarrow> 'x mem \<Rightarrow> loc option \<times> 'x mem" where
  "SubtractList_DeepCopy L = newCopy subtractListK (SubtractList_DeepCopyInto L)"

definition SourceReference_DeepCopy :: "loc option \<Rightarrow> 'x mem \<Rightarrow> loc option \<times> 'x mem" where
  "SourceReference_DeepCopy = newCopy sourceReferenceK SourceReference_DeepCopyInto"

definition SquareSpec_DeepCopy :: "loc option \<Rightarrow> 'x mem \<Rightarrow> loc option \<times> 'x mem" where
  "SquareSpec_DeepCopy = newCopy squareSpecK SquareSpec_DeepCopyInto"

definition SquareStatus_DeepCopy :: "'x metaLib \<Rightarrow> loc option \<Rightarrow> 'x mem \<Rightarrow> loc option \<times> 'x mem" where
  "SquareStatus_DeepCopy L = newCopy squareStatusK (SquareStatus_DeepCopyInto L)"

definition Square_DeepCopy :: "'x metaLib \<Rightarrow> loc option \<Rightarrow> 'x mem \<Rightarrow> loc option \<times> 'x mem" where
  "Square_DeepCopy L = newCopy squareK (Square_DeepCopyInto L)"

definition SquareList_DeepCopy :: "'x metaLib \<Rightarrow> loc option \<Rightarrow> 'x mem \<Rightarrow> loc option \<times> 'x mem" where
  "SquareList_DeepCopy L = newCopy squareListK (SquareList_DeepCopyInto L)"

definition FieldMapping_DeepCopy :: "loc option \<Rightarrow> 'x mem \<Rightarrow> loc option \<times> 'x mem" where
  "FieldMapping_DeepCopy = newCopy fieldMappingK FieldMapping_DeepCopyInto"

definition HTTPTaskSpec_DeepCopy :: "'x metaLib \<Rightarrow> loc option \<Rightarrow> 'x mem \<Rightarrow> loc option \<times> 'x mem" where
  "HTTPTaskSpec_DeepCopy L = newCopy httpTaskSpecK (HTTPTaskSpec_DeepCopyInto L)"

definition HTTPTaskStatus_DeepCopy :: "'x metaLib \<Rightarrow> loc option \<Rightarrow> 'x mem \<Rightarrow> loc option \<times> 'x mem" where
  "HTTPTaskStatus_DeepCopy L = newCopy httpTaskStatusK (HTTPTaskStatus_DeepCopyInto L)"

definition HTTPTask_DeepCopy :: "'x metaLib \<Rightarrow> loc option \<Rightarrow> 'x mem \<Rightarrow> loc option \<times> 'x mem" where
  "HTTPTask_DeepCopy L = newCopy httpTaskK (HTTPTask_DeepCopyInto L)"

definition HTTPTaskList_DeepCopy :: "'x metaLib \<Rightarrow> loc option \<Rightarrow> 'x mem \<Rightarrow> loc option \<times> 'x mem" where
  "HTTPTaskList_DeepCopy L = newCopy httpTaskListK (HTTPTaskList_DeepCopyInto L)"

definition WorkflowFieldMapping_DeepCopy :: "loc option \<Rightarrow> 'x mem \<Rightarrow> loc option \<times> 'x mem" where
  "WorkflowFieldMapping_DeepCopy = newCopy workflowFieldMappingK WorkflowFieldMapping_DeepCopyInto"

definition WorkflowTaskSpec_DeepCopy :: "'x metaLib \<Rightarrow> loc option \<Rightarrow> 'x mem \<Rightarrow> loc option \<times> 'x mem" where
  "WorkflowTaskSpec_DeepCopy L = newCopy workflowTaskSpecK (WorkflowTaskSpec_DeepCopyInto L)"

definition WorkflowSpec_DeepCopy :: "'x metaLib \<Rightarrow> loc option \<Rightarrow> 'x mem \<Rightarrow> loc option \<times> 'x mem" where
  "WorkflowSpec_DeepCopy L = newCopy workflowSpecK (WorkflowSpec_DeepCopyInto L)"

definition WorkflowTaskStatus_DeepCopy :: "'x metaLib \<Rightarrow> loc option \<Rightarrow> 'x mem \<Rightarrow> loc option \<times> 'x mem" where
  "WorkflowTaskStatus_DeepCopy L = newCopy workflowTaskStatusK (WorkflowTaskStatus_DeepCopyInto L)"

definition WorkflowStatus_DeepCopy :: "'x metaLib \<Rightarrow> loc option \<Rightarrow> 'x mem \<Rightarrow> loc option \<times> 'x mem" where
  "WorkflowStatus_DeepCopy L = newCopy workflowStatusK (WorkflowStatus_DeepCopyInto L)"

definition Workflow_DeepCopy :: "'x metaLib \<Rightarrow> loc option \<Rightarrow> 'x mem \<Rightarrow> loc option \<times> 'x mem" where
  "Workflow_DeepCopy L = newCopy workflowK (Workflow_DeepCopyInto L)"

definition WorkflowList_DeepCopy :: "'x metaLib \<Rightarrow> loc option \<Rightarrow> 'x mem \<Rightarrow> loc option \<times> 'x mem" where
  "WorkflowList_DeepCopy L = newCopy workflowListK (WorkflowList_DeepCopyInto L)"

definition Input_DeepCopy :: "'x metaLib \<Rightarrow> loc option \<Rightarrow> 'x mem \<Rightarrow> loc option \<times> 'x mem" where
  "Input_DeepCopy L = newCopy inputK (Input_DeepCopyInto L)"

section \<open>\<open>DeepCopyObject\<close>\<close>

text \<open>A \<open>runtime.Object\<close>: the nil interface, or a pointer, which may be nil, together with its type.\<close>

datatype runtimeObject =
    NilObject
  | AddObject "loc option"
  | AddListObject "loc option"
  | SubtractObject "loc option"
  | SubtractListObject "loc option"
  | SquareObject "loc option"
  | SquareListObject "loc option"
  | HTTPTaskObject "loc option"
  | HTTPTaskListObject "loc option"
  | WorkflowObject "loc option"
  | WorkflowListObject "loc option"
  | InputObject "loc option"

text \<open>\<open>if c := in.DeepCopy(); c != nil { return c }; return nil\<close>.\<close>

definition asObject :: "(loc option \<Rightarrow> runtimeObject) \<Rightarrow> loc option \<times> 'x mem \<Rightarrow> runtimeObject \<times> 'x mem" where
  "asObject wrap r = (case r of (None, m) \<Rightarrow> (NilObject, m) | (Some c, m) \<Rightarrow> (wrap (Some c), m))"

definition Add_DeepCopyObject :: "'x metaLib \<Rightarrow> loc option \<Rightarrow> 'x mem \<Rightarrow> runtimeObject \<times> 'x mem" where
  "Add_DeepCopyObject L p m = asObject AddObject (Add_DeepCopy L p m)"

definition AddList_DeepCopyObject :: "'x metaLib \<Rightarrow> loc option \<Rightarrow> 'x mem \<Rightarrow> runtimeObject \<times> 'x mem" where
  "AddList_DeepCopyObject L p m = asObject AddListObject (AddList_DeepCopy L p m)"

definition Subtract_DeepCopyObject :: "'x metaLib \<Rightarrow> loc option \<Rightarrow> 'x mem \<Rightarrow> runtimeObject \<times> 'x mem" where
  "Subtract_DeepCopyObject L p m = asObject SubtractObject (Subtract_DeepCopy L p m)"

definition SubtractList_DeepCopyObject :: "'x metaLib \<Rightarrow> loc option \<Rightarrow> 'x mem \<Rightarrow> runtimeObject \<times> 'x mem" where
  "SubtractList_DeepCopyObject L p m = asObject SubtractListObject (SubtractList_DeepCopy L p m)"

definition Square_DeepCopyObject :: "'x metaLib \<Rightarrow> loc option \<Rightarrow> 'x mem \<Rightarrow> runtimeObject \<times> 'x mem" where
  "Square_DeepCopyObject L p m = asObject SquareObject (Square_DeepCopy L p m)"

definition SquareList_DeepCopyObject :: "'x metaLib \<Rightarrow> loc option \<Rightarrow> 'x mem \<Rightarrow> runtimeObject \<times> 'x mem" where
  "SquareList_DeepCopyObject L p m = asObject SquareListObject (SquareList_DeepCopy L p m)"

definition HTTPTask_DeepCopyObject :: "'x metaLib \<Rightarrow> loc option \<Rightarrow> 'x mem \<Rightarrow> runtimeObject \<times> 'x mem" where
  "HTTPTask_DeepCopyObject L p m = asObject HTTPTaskObject (HTTPTask_DeepCopy L p m)"

definition HTTPTaskList_DeepCopyObject :: "'x metaLib \<Rightarrow> loc option \<Rightarrow> 'x mem \<Rightarrow> runtimeObject \<times> 'x mem" where
  "HTTPTaskList_DeepCopyObject L p m = asObject HTTPTaskListObject (HTTPTaskList_DeepCopy L p m)"

definition Workflow_DeepCopyObject :: "'x metaLib \<Rightarrow> loc option \<Rightarrow> 'x mem \<Rightarrow> runtimeObject \<times> 'x mem" where
  "Workflow_DeepCopyObject L p m = asObject WorkflowObject (Workflow_DeepCopy L p m)"

definition WorkflowList_DeepCopyObject :: "'x metaLib \<Rightarrow> loc option \<Rightarrow> 'x mem \<Rightarrow> runtimeObject \<times> 'x mem" where
  "WorkflowList_DeepCopyObject L p m = asObject WorkflowListObject (WorkflowList_DeepCopy L p m)"

definition Input_DeepCopyObject :: "'x metaLib \<Rightarrow> loc option \<Rightarrow> 'x mem \<Rightarrow> runtimeObject \<times> 'x mem" where
  "Input_DeepCopyObject L p m = asObject InputObject (Input_DeepCopy L p m)"

text \<open>The call through the interface; on the nil interface it panics.\<close>

fun DeepCopyObject :: "'x metaLib \<Rightarrow> runtimeObject \<Rightarrow> 'x mem \<Rightarrow> (runtimeObject \<times> 'x mem) option" where
  "DeepCopyObject L NilObject m = None"
| "DeepCopyObject L (AddObject p) m = Some (Add_DeepCopyObject L p m)"
| "DeepCopyObject L (AddListObject p) m = Some (AddList_DeepCopyObject L p m)"
| "DeepCopyObject L (SubtractObject p) m = Some (Subtract_DeepCopyObject L p m)"
| "DeepCopyObject L (SubtractListObject p) m = Some (SubtractList_DeepCopyObject L p m)"
| "DeepCopyObject L (SquareObject p) m = Some (Square_DeepCopyObject L p m)"
| "DeepCopyObject L (SquareListObject p) m = Some (SquareList_DeepCopyObject L p m)"
| "DeepCopyObject L (HTTPTaskObject p) m = Some (HTTPTask_DeepCopyObject L p m)"
| "DeepCopyObject L (HTTPTaskListObject p) m = Some (HTTPTaskList_DeepCopyObject L p m)"
| "DeepCopyObject L (WorkflowObject p) m = Some (Workflow_DeepCopyObject L p m)"
| "DeepCopyObject L (WorkflowListObject p) m = Some (WorkflowList_DeepCopyObject L p m)"
| "DeepCopyObject L (InputObject p) m = Some (Input_DeepCopyObject L p m)"

end
