(* ===== verification/Deep_Copy_Props.thy ===== *)
theory Deep_Copy_Props
  imports Deep_Copy
begin

text \<open>
  What the generated deep copies guarantee: a view of every struct, the contract of the library's copies as the
  locale \<open>meta_lib\<close>, and that every \<open>DeepCopyInto\<close> then satisfies \<open>deep_copy\<close>, so that a copy looks like its original
  and shares no memory with it.
\<close>

section \<open>What is seen of each struct\<close>

definition typeMetaObs :: "TypeMeta \<Rightarrow> 'v obs" where
  "typeMetaObs t = OStruct [OStr (tm_kind t), OStr (tm_apiVersion t)]"

definition addSpecObs :: "AddSpec \<Rightarrow> 'v obs" where
  "addSpecObs s = OStruct [OInt (ad_x s), OInt (ad_y s)]"

definition subtractSpecObs :: "SubtractSpec \<Rightarrow> 'v obs" where
  "subtractSpecObs s = OStruct [OInt (sb_x s), OInt (sb_y s)]"

definition sourceReferenceObs :: "SourceReference \<Rightarrow> 'v obs" where
  "sourceReferenceObs r = OStruct [OStr (sr_apiVersion r), OStr (sr_kind r), OStr (sr_name r)]"

definition squareSpecObs :: "SquareSpec \<Rightarrow> 'v obs" where
  "squareSpecObs s = OStruct [sourceReferenceObs (sq_sourceRef s)]"

definition fieldMappingObs :: "ApiFieldMapping \<Rightarrow> 'v obs" where
  "fieldMappingObs f = OStruct [sourceReferenceObs (am_sourceRef f), OStr (am_sourceField f), OStr (am_targetField f)]"

definition workflowFieldMappingObs :: "WorkflowFieldMapping \<Rightarrow> 'v obs" where
  "workflowFieldMappingObs f = OStruct [OStr (wm_sourceStep f), OStr (wm_sourceField f), OStr (wm_targetField f)]"

definition text_field :: "('s \<Rightarrow> string) \<Rightarrow> ('s, 'c, 'v) view" where
  "text_field sel = plain (\<lambda>x. OStr (sel x))"

definition int32View :: "(loc option, 'x cell, 'v) view" where
  "int32View = ptrView int32K (plain OInt)"

text \<open>The views of the library's structs.\<close>

record ('x, 'v) libView =
  lv_objectMeta :: "('x, 'x cell, 'v) view"
  lv_listMeta :: "('x, 'x cell, 'v) view"
  lv_condition :: "('x, 'x cell, 'v) view"
  lv_raw :: "('x, 'x cell, 'v) view"

definition conditionsView :: "('x, 'v) libView \<Rightarrow> (slice, 'x cell, 'v) view" where
  "conditionsView LV = sliceView conditionsK (lv_condition LV)"

definition objectView :: "('x, 'v) libView \<Rightarrow> ('s, 'x cell, 'v) view \<Rightarrow> ('t, 'x cell, 'v) view
    \<Rightarrow> (('x, 's, 't) goObject, 'x cell, 'v) view" where
  "objectView LV SV TV = structView [plain (\<lambda>x. typeMetaObs (go_typeMeta x)), field go_objectMeta (lv_objectMeta LV),
     field go_spec SV, field go_status TV]"

definition listView :: "('x, 'v) libView \<Rightarrow> ('a list, 'x cell) cellType \<Rightarrow> ('a, 'x cell, 'v) view \<Rightarrow> ('x goList, 'x cell, 'v) view" where
  "listView LV K V = structView [plain (\<lambda>x. typeMetaObs (gl_typeMeta x)), field gl_listMeta (lv_listMeta LV),
     field gl_items (sliceView K V)]"

definition calcStatusView :: "('x, 'v) libView \<Rightarrow> (goCalcStatus, 'x cell, 'v) view" where
  "calcStatusView LV = structView [field gc_result int32View, field gc_conditions (conditionsView LV)]"

definition httpTaskSpecView :: "('x, 'v) libView \<Rightarrow> ('x goHTTPTaskSpec, 'x cell, 'v) view" where
  "httpTaskSpecView LV = structView [text_field gh_endpoint, text_field gh_method, field gh_headers (mapView headersK),
     field gh_input (lv_raw LV), field gh_inputFrom (sliceView fieldMappingsK (plain fieldMappingObs))]"

definition httpTaskStatusView :: "('x, 'v) libView \<Rightarrow> ('x goHTTPTaskStatus, 'x cell, 'v) view" where
  "httpTaskStatusView LV = structView [field gt_output (lv_raw LV), field gt_statusCode int32View,
     text_field gt_observedInputHash, field gt_conditions (conditionsView LV)]"

definition workflowTaskSpecView :: "('x, 'v) libView \<Rightarrow> ('x goWorkflowTaskSpec, 'x cell, 'v) view" where
  "workflowTaskSpecView LV = structView [text_field gw_name, text_field gw_endpoint, text_field gw_method,
     field gw_headers (mapView headersK), field gw_input (lv_raw LV),
     field gw_inputFrom (sliceView workflowFieldMappingsK (plain workflowFieldMappingObs))]"

definition workflowSpecView :: "('x, 'v) libView \<Rightarrow> (goWorkflowSpec, 'x cell, 'v) view" where
  "workflowSpecView LV = structView [field gf_tasks (sliceView workflowTasksK (workflowTaskSpecView LV)), text_field gf_notifyURL]"

definition workflowTaskStatusView :: "('x, 'v) libView \<Rightarrow> ('x goWorkflowTaskStatus, 'x cell, 'v) view" where
  "workflowTaskStatusView LV = structView [text_field gk_name, text_field gk_phase, field gk_statusCode int32View,
     field gk_output (lv_raw LV), text_field gk_error]"

definition workflowStatusView :: "('x, 'v) libView \<Rightarrow> (goWorkflowStatus, 'x cell, 'v) view" where
  "workflowStatusView LV = structView [text_field gs_transactionID, text_field gs_dashboardURL, text_field gs_phase,
     field gs_tasks (sliceView workflowTaskStatusesK (workflowTaskStatusView LV)), text_field gs_notifiedPhase,
     field gs_conditions (conditionsView LV)]"

definition inputView :: "('x, 'v) libView \<Rightarrow> ('x goInput, 'x cell, 'v) view" where
  "inputView LV = structView [plain (\<lambda>x. typeMetaObs (gi_typeMeta x)), field gi_objectMeta (lv_objectMeta LV),
     text_field gi_providerConfigName, field gi_defaultHeaders (mapView headersK)]"

definition addView :: "('x, 'v) libView \<Rightarrow> ('x goAdd, 'x cell, 'v) view" where
  "addView LV = objectView LV (plain addSpecObs) (calcStatusView LV)"

definition subtractView :: "('x, 'v) libView \<Rightarrow> ('x goSubtract, 'x cell, 'v) view" where
  "subtractView LV = objectView LV (plain subtractSpecObs) (calcStatusView LV)"

definition squareView :: "('x, 'v) libView \<Rightarrow> ('x goSquare, 'x cell, 'v) view" where
  "squareView LV = objectView LV (plain squareSpecObs) (calcStatusView LV)"

definition httpTaskView :: "('x, 'v) libView \<Rightarrow> ('x goHTTPTask, 'x cell, 'v) view" where
  "httpTaskView LV = objectView LV (httpTaskSpecView LV) (httpTaskStatusView LV)"

definition workflowView :: "('x, 'v) libView \<Rightarrow> ('x goWorkflow, 'x cell, 'v) view" where
  "workflowView LV = objectView LV (workflowSpecView LV) (workflowStatusView LV)"

section \<open>The copies of the repository's structs\<close>

named_theorems copies \<open>copy functions that satisfy the contract\<close>

lemmas view_of_copy = deep_copy.axioms(1)

lemma view_text [intro]: "memory_view (text_field sel)"
  unfolding text_field_def by (rule view_plain)

lemma copy_of_text [copy_simps]: "copy_of (text_field sel) m x m' y \<longleftrightarrow> grows m m' \<and> sel x = sel y"
  by (simp add: text_field_def copy_of_plain)

lemma copyInt32_copies [copies]: "deep_copy int32View copyInt32"
  unfolding int32View_def copyInt32_def by (rule newCopy_copies [OF cell_types(1) assign_copies])

lemma headers_copies [copies]: "deep_copy (mapView headersK) (copyMap headersK)"
  by (rule copyMap_copies [OF cell_types(2)])

interpretation int32_pointer: deep_copy int32View copyInt32
  by (rule copyInt32_copies)

interpretation headers_map: deep_copy "mapView headersK" "copyMap headersK"
  by (rule headers_copies)

locale meta_lib =
  fixes L :: "'x metaLib" and LV :: "('x, 'v) libView"
  assumes objectMeta [copies]: "deep_copy (lv_objectMeta LV) (ObjectMeta_DeepCopyInto L)"
    and listMeta [copies]: "deep_copy (lv_listMeta LV) (ListMeta_DeepCopyInto L)"
    and condition [copies]: "deep_copy (lv_condition LV) (Condition_DeepCopyInto L)"
    and raw [copies]: "deep_copy (lv_raw LV) (RawExtension_DeepCopyInto L)"
begin

lemma conditions [copies]: "deep_copy (conditionsView LV) (copyConditions L)"
  unfolding conditionsView_def copyConditions_def by (rule copySlice_copies [OF cell_types(3) condition])

lemma object_copies:
  assumes "deep_copy SV specInto" and "deep_copy TV statusInto"
  shows "deep_copy (objectView LV SV TV) (copyObject L specInto statusInto)"
  unfolding objectView_def
  by (rule struct_copies)
    (auto simp: copyObject_def copy_simps split: prod.splits
      intro: objectMeta [THEN view_of_copy] assms [THEN view_of_copy] dest!: copies3 [OF objectMeta assms])

lemma list_copies:
  assumes "cell_type K" and "deep_copy V into"
  shows "deep_copy (listView LV K V) (copyList L K zero into)"
  unfolding listView_def
  by (rule struct_copies)
    (auto simp: copyList_def copy_simps split: prod.splits
      intro: listMeta [THEN view_of_copy] assms(2) [THEN view_of_copy]
      dest!: copies2 [OF listMeta copySlice_copies [OF assms]])

lemma calcStatus [copies]: "deep_copy (calcStatusView LV) (copyCalcStatus L)"
  unfolding calcStatusView_def
  by (rule struct_copies)
    (auto simp: copyCalcStatus_def copy_simps split: prod.splits
      intro: copies [THEN view_of_copy] dest!: copies2 [OF copyInt32_copies conditions])

lemma httpTaskSpec [copies]: "deep_copy (httpTaskSpecView LV) (HTTPTaskSpec_DeepCopyInto L)"
proof -
  note mappings = copySlice_copies [OF cell_types(4) assign_copies, of fieldMappingObs zeroFieldMapping]
  show ?thesis
    unfolding httpTaskSpecView_def
    by (rule struct_copies)
      (auto simp: HTTPTaskSpec_DeepCopyInto_def copy_simps split: prod.splits
        intro: copies [THEN view_of_copy] dest!: copies3 [OF headers_copies raw mappings])
qed

lemma httpTaskStatus [copies]: "deep_copy (httpTaskStatusView LV) (HTTPTaskStatus_DeepCopyInto L)"
  unfolding httpTaskStatusView_def
  by (rule struct_copies)
    (auto simp: HTTPTaskStatus_DeepCopyInto_def copy_simps split: prod.splits
      intro: copies [THEN view_of_copy] dest!: copies3 [OF raw copyInt32_copies conditions])

lemma workflowTaskSpec [copies]: "deep_copy (workflowTaskSpecView LV) (WorkflowTaskSpec_DeepCopyInto L)"
proof -
  note mappings = copySlice_copies [OF cell_types(5) assign_copies, of workflowFieldMappingObs zeroWorkflowFieldMapping]
  show ?thesis
    unfolding workflowTaskSpecView_def
    by (rule struct_copies)
      (auto simp: WorkflowTaskSpec_DeepCopyInto_def copy_simps split: prod.splits
        intro: copies [THEN view_of_copy] dest!: copies3 [OF headers_copies raw mappings])
qed

lemma workflowSpec [copies]: "deep_copy (workflowSpecView LV) (WorkflowSpec_DeepCopyInto L)"
proof -
  note tasks = copySlice_copies [OF cell_types(6) workflowTaskSpec, of "zeroWorkflowTaskSpec L"]
  show ?thesis
    unfolding workflowSpecView_def
    by (rule struct_copies)
      (auto simp: WorkflowSpec_DeepCopyInto_def copy_simps split: prod.splits
        intro: tasks [THEN view_of_copy] dest!: copies1 [OF tasks])
qed

lemma workflowTaskStatus [copies]: "deep_copy (workflowTaskStatusView LV) (WorkflowTaskStatus_DeepCopyInto L)"
  unfolding workflowTaskStatusView_def
  by (rule struct_copies)
    (auto simp: WorkflowTaskStatus_DeepCopyInto_def copy_simps split: prod.splits
      intro: copies [THEN view_of_copy] dest!: copies2 [OF copyInt32_copies raw])

lemma workflowStatus [copies]: "deep_copy (workflowStatusView LV) (WorkflowStatus_DeepCopyInto L)"
proof -
  note tasks = copySlice_copies [OF cell_types(7) workflowTaskStatus, of "zeroWorkflowTaskStatus L"]
  show ?thesis
    unfolding workflowStatusView_def
    by (rule struct_copies)
      (auto simp: WorkflowStatus_DeepCopyInto_def copy_simps split: prod.splits
        intro: tasks [THEN view_of_copy] copies [THEN view_of_copy] dest!: copies2 [OF tasks conditions])
qed

lemma fnInput [copies]: "deep_copy (inputView LV) (Input_DeepCopyInto L)"
  unfolding inputView_def
  by (rule struct_copies)
    (auto simp: Input_DeepCopyInto_def copy_simps split: prod.splits
      intro: copies [THEN view_of_copy] dest!: copies2 [OF objectMeta headers_copies])

text \<open>The kinds and their lists.\<close>

lemma kinds [copies]:
  "deep_copy (addView LV) (Add_DeepCopyInto L)"
  "deep_copy (subtractView LV) (Subtract_DeepCopyInto L)"
  "deep_copy (squareView LV) (Square_DeepCopyInto L)"
  "deep_copy (httpTaskView LV) (HTTPTask_DeepCopyInto L)"
  "deep_copy (workflowView LV) (Workflow_DeepCopyInto L)"
  unfolding addView_def Add_DeepCopyInto_def AddStatus_DeepCopyInto_def subtractView_def Subtract_DeepCopyInto_def
    SubtractStatus_DeepCopyInto_def squareView_def Square_DeepCopyInto_def SquareStatus_DeepCopyInto_def
    httpTaskView_def HTTPTask_DeepCopyInto_def workflowView_def Workflow_DeepCopyInto_def
  by (intro object_copies assign_copies copies)+

lemma kind_lists [copies]:
  "deep_copy (listView LV addsK (addView LV)) (AddList_DeepCopyInto L)"
  "deep_copy (listView LV subtractsK (subtractView LV)) (SubtractList_DeepCopyInto L)"
  "deep_copy (listView LV squaresK (squareView LV)) (SquareList_DeepCopyInto L)"
  "deep_copy (listView LV httpTasksK (httpTaskView LV)) (HTTPTaskList_DeepCopyInto L)"
  "deep_copy (listView LV workflowsK (workflowView LV)) (WorkflowList_DeepCopyInto L)"
  unfolding AddList_DeepCopyInto_def SubtractList_DeepCopyInto_def SquareList_DeepCopyInto_def
    HTTPTaskList_DeepCopyInto_def WorkflowList_DeepCopyInto_def
  by (intro list_copies kinds cell_types)+

end

sublocale meta_lib < add_copy: deep_copy "addView LV" "Add_DeepCopyInto L"
  by (rule kinds)

sublocale meta_lib < subtract_copy: deep_copy "subtractView LV" "Subtract_DeepCopyInto L"
  by (rule kinds)

sublocale meta_lib < square_copy: deep_copy "squareView LV" "Square_DeepCopyInto L"
  by (rule kinds)

sublocale meta_lib < task_copy: deep_copy "httpTaskView LV" "HTTPTask_DeepCopyInto L"
  by (rule kinds)

sublocale meta_lib < workflow_copy: deep_copy "workflowView LV" "Workflow_DeepCopyInto L"
  by (rule kinds)

section \<open>Copies through the interface\<close>

text \<open>The type name and the pointer in a non-nil interface, and what is seen through it.\<close>

fun pointerIn :: "runtimeObject \<Rightarrow> loc option" where
  "pointerIn NilObject = None"
| "pointerIn (AddObject p) = p"
| "pointerIn (AddListObject p) = p"
| "pointerIn (SubtractObject p) = p"
| "pointerIn (SubtractListObject p) = p"
| "pointerIn (SquareObject p) = p"
| "pointerIn (SquareListObject p) = p"
| "pointerIn (HTTPTaskObject p) = p"
| "pointerIn (HTTPTaskListObject p) = p"
| "pointerIn (WorkflowObject p) = p"
| "pointerIn (WorkflowListObject p) = p"
| "pointerIn (InputObject p) = p"

fun typeIn :: "runtimeObject \<Rightarrow> string" where
  "typeIn NilObject = []"
| "typeIn (AddObject p) = ''Add''"
| "typeIn (AddListObject p) = ''AddList''"
| "typeIn (SubtractObject p) = ''Subtract''"
| "typeIn (SubtractListObject p) = ''SubtractList''"
| "typeIn (SquareObject p) = ''Square''"
| "typeIn (SquareListObject p) = ''SquareList''"
| "typeIn (HTTPTaskObject p) = ''HTTPTask''"
| "typeIn (HTTPTaskListObject p) = ''HTTPTaskList''"
| "typeIn (WorkflowObject p) = ''Workflow''"
| "typeIn (WorkflowListObject p) = ''WorkflowList''"
| "typeIn (InputObject p) = ''Input''"

fun contentView :: "('x, 'v) libView \<Rightarrow> runtimeObject \<Rightarrow> (loc option, 'x cell, 'v) view" where
  "contentView LV NilObject = plain (\<lambda>_. ONil)"
| "contentView LV (AddObject p) = ptrView addK (addView LV)"
| "contentView LV (AddListObject p) = ptrView addListK (listView LV addsK (addView LV))"
| "contentView LV (SubtractObject p) = ptrView subtractK (subtractView LV)"
| "contentView LV (SubtractListObject p) = ptrView subtractListK (listView LV subtractsK (subtractView LV))"
| "contentView LV (SquareObject p) = ptrView squareK (squareView LV)"
| "contentView LV (SquareListObject p) = ptrView squareListK (listView LV squaresK (squareView LV))"
| "contentView LV (HTTPTaskObject p) = ptrView httpTaskK (httpTaskView LV)"
| "contentView LV (HTTPTaskListObject p) = ptrView httpTaskListK (listView LV httpTasksK (httpTaskView LV))"
| "contentView LV (WorkflowObject p) = ptrView workflowK (workflowView LV)"
| "contentView LV (WorkflowListObject p) = ptrView workflowListK (listView LV workflowsK (workflowView LV))"
| "contentView LV (InputObject p) = ptrView inputK (inputView LV)"

text \<open>What is seen through an interface, which cells that goes through, and whether they are well formed.\<close>

definition sound :: "('x, 'v) libView \<Rightarrow> 'x mem \<Rightarrow> runtimeObject \<Rightarrow> bool" where
  "sound LV m obj = ok (contentView LV obj) m (pointerIn obj)"

definition looks :: "('x, 'v) libView \<Rightarrow> 'x mem \<Rightarrow> runtimeObject \<Rightarrow> 'v obs" where
  "looks LV m obj = see (contentView LV obj) m (pointerIn obj)"

definition cellsOf :: "('x, 'v) libView \<Rightarrow> 'x mem \<Rightarrow> runtimeObject \<Rightarrow> loc set" where
  "cellsOf LV m obj = foot (contentView LV obj) m (pointerIn obj)"

text \<open>\<open>c\<close> holds a copy of what \<open>obj\<close> holds, as an object of the same type.\<close>

definition object_copy :: "('x, 'v) libView \<Rightarrow> 'x mem \<Rightarrow> runtimeObject \<Rightarrow> 'x mem \<Rightarrow> runtimeObject \<Rightarrow> bool" where
  "object_copy LV m obj m1 c \<longleftrightarrow> typeIn c = typeIn obj \<and> contentView LV c = contentView LV obj
     \<and> memory_view (contentView LV obj) \<and> copy_of (contentView LV obj) m (pointerIn obj) m1 (pointerIn c)"

lemma asObject_copied:
  assumes "deep_copy V into" and "cell_type K" and "ok (ptrView K V) m (Some a)"
    and "asObject wrap (newCopy K into (Some a) m) = (c, m1)"
  shows "memory_view (ptrView K V) \<and> (\<exists>q. c = wrap (Some q) \<and> copy_of (ptrView K V) m (Some a) m1 (Some q))"
proof -
  note d = newCopy_copies [OF assms(2,1)]
  obtain q m' where q: "newCopy K into (Some a) m = (q, m')" by fastforce
  have c: "copy_of (ptrView K V) m (Some a) m' q" by (rule deep_copy.copied [OF d assms(3) q])
  then have "q \<noteq> None" using assms(3) by (auto simp: copy_of_def ptrView_def split: option.splits)
  with c q assms(4) view_of_copy [OF d] show ?thesis by (auto simp: asObject_def)
qed

context meta_lib
begin

lemma object_copied:
  assumes "DeepCopyObject L obj m = Some (c, m1)" and "pointerIn obj = Some a" and "sound LV m obj"
  shows "object_copy LV m obj m1 c"
proof (cases obj)
  case NilObject
  with assms(2) show ?thesis by simp
next
  case (AddObject p)
  with assms asObject_copied [OF kinds(1) cell_types(15), of m a AddObject c m1] show ?thesis
    by (auto simp: object_copy_def sound_def Add_DeepCopyObject_def Add_DeepCopy_def)
next
  case (AddListObject p)
  with assms asObject_copied [OF kind_lists(1) cell_types(16), of m a AddListObject c m1] show ?thesis
    by (auto simp: object_copy_def sound_def AddList_DeepCopyObject_def AddList_DeepCopy_def)
next
  case (SubtractObject p)
  with assms asObject_copied [OF kinds(2) cell_types(19), of m a SubtractObject c m1] show ?thesis
    by (auto simp: object_copy_def sound_def Subtract_DeepCopyObject_def Subtract_DeepCopy_def)
next
  case (SubtractListObject p)
  with assms asObject_copied [OF kind_lists(2) cell_types(20), of m a SubtractListObject c m1] show ?thesis
    by (auto simp: object_copy_def sound_def SubtractList_DeepCopyObject_def SubtractList_DeepCopy_def)
next
  case (SquareObject p)
  with assms asObject_copied [OF kinds(3) cell_types(24), of m a SquareObject c m1] show ?thesis
    by (auto simp: object_copy_def sound_def Square_DeepCopyObject_def Square_DeepCopy_def)
next
  case (SquareListObject p)
  with assms asObject_copied [OF kind_lists(3) cell_types(25), of m a SquareListObject c m1] show ?thesis
    by (auto simp: object_copy_def sound_def SquareList_DeepCopyObject_def SquareList_DeepCopy_def)
next
  case (HTTPTaskObject p)
  with assms asObject_copied [OF kinds(4) cell_types(29), of m a HTTPTaskObject c m1] show ?thesis
    by (auto simp: object_copy_def sound_def HTTPTask_DeepCopyObject_def HTTPTask_DeepCopy_def)
next
  case (HTTPTaskListObject p)
  with assms asObject_copied [OF kind_lists(4) cell_types(30), of m a HTTPTaskListObject c m1] show ?thesis
    by (auto simp: object_copy_def sound_def HTTPTaskList_DeepCopyObject_def HTTPTaskList_DeepCopy_def)
next
  case (WorkflowObject p)
  with assms asObject_copied [OF kinds(5) cell_types(36), of m a WorkflowObject c m1] show ?thesis
    by (auto simp: object_copy_def sound_def Workflow_DeepCopyObject_def Workflow_DeepCopy_def)
next
  case (WorkflowListObject p)
  with assms asObject_copied [OF kind_lists(5) cell_types(37), of m a WorkflowListObject c m1] show ?thesis
    by (auto simp: object_copy_def sound_def WorkflowList_DeepCopyObject_def WorkflowList_DeepCopy_def)
next
  case (InputObject p)
  with assms asObject_copied [OF fnInput cell_types(38), of m a InputObject c m1] show ?thesis
    by (auto simp: object_copy_def sound_def Input_DeepCopyObject_def Input_DeepCopy_def)
qed

end

text \<open>
  C23. A deep copy of any object of the API, or of a list of them, is an object of the same type that looks the same
  in every field, and copy and original are apart: whatever is later written into the cells of the copy, the original
  still looks as it did, and whatever is written into the cells of the original, the copy does.
\<close>

theorem deep_copy_apart:
  assumes "meta_lib L LV" and "DeepCopyObject L obj m = Some (c, m1)" and "pointerIn obj = Some a" and "sound LV m obj"
  shows "typeIn c = typeIn obj \<and> looks LV m1 c = looks LV m obj \<and> looks LV m1 obj = looks LV m obj
    \<and> (\<forall>m2. mnext m1 \<le> mnext m2 \<and> (\<forall>b < mnext m1. b \<notin> cellsOf LV m1 c \<longrightarrow> mcell m2 b = mcell m1 b)
          \<longrightarrow> looks LV m2 obj = looks LV m obj)
    \<and> (\<forall>m2. mnext m1 \<le> mnext m2 \<and> (\<forall>b < mnext m1. b \<notin> cellsOf LV m1 obj \<longrightarrow> mcell m2 b = mcell m1 b)
          \<longrightarrow> looks LV m2 c = looks LV m obj)"
proof -
  have o: "object_copy LV m obj m1 c" by (rule meta_lib.object_copied [OF assms])
  then have v: "memory_view (contentView LV obj)" and cp: "copy_of (contentView LV obj) m (pointerIn obj) m1 (pointerIn c)"
    and same: "contentView LV c = contentView LV obj" by (simp_all add: object_copy_def)
  have s: "ok (contentView LV obj) m (pointerIn obj)" using assms(4) by (simp add: sound_def)
  have g: "grows m m1" using cp by (simp add: copy_of_def)
  have new: "looks LV m1 c = looks LV m obj" using cp same by (simp add: looks_def copy_of_def)
  have old: "looks LV m1 obj = looks LV m obj"
    using memory_view.grown [OF v s g] by (simp add: looks_def)
  have "looks LV m2 obj = looks LV m obj"
    if "mnext m1 \<le> mnext m2" and "\<forall>b < mnext m1. b \<notin> cellsOf LV m1 c \<longrightarrow> mcell m2 b = mcell m1 b" for m2
    using memory_view.copy_apart(1) [OF v cp s that(1)] that(2) old same by (simp add: looks_def cellsOf_def)
  moreover have "looks LV m2 c = looks LV m obj"
    if "mnext m1 \<le> mnext m2" and "\<forall>b < mnext m1. b \<notin> cellsOf LV m1 obj \<longrightarrow> mcell m2 b = mcell m1 b" for m2
    using memory_view.copy_apart(2) [OF v cp s that(1)] that(2) new same by (simp add: looks_def cellsOf_def)
  ultimately show ?thesis using o new old unfolding object_copy_def by blast
qed

text \<open>
  The copy of a nil pointer is the nil interface and not an interface that holds a nil pointer; nothing is allocated.
\<close>

theorem deep_copy_nil: "obj \<noteq> NilObject \<Longrightarrow> pointerIn obj = None \<Longrightarrow> DeepCopyObject L obj m = Some (NilObject, m)"
  by (cases obj) (simp_all add: asObject_def newCopy_def Add_DeepCopyObject_def Add_DeepCopy_def AddList_DeepCopyObject_def AddList_DeepCopy_def Subtract_DeepCopyObject_def Subtract_DeepCopy_def
    SubtractList_DeepCopyObject_def SubtractList_DeepCopy_def Square_DeepCopyObject_def Square_DeepCopy_def SquareList_DeepCopyObject_def SquareList_DeepCopy_def
    HTTPTask_DeepCopyObject_def HTTPTask_DeepCopy_def HTTPTaskList_DeepCopyObject_def HTTPTaskList_DeepCopy_def Workflow_DeepCopyObject_def Workflow_DeepCopy_def
    WorkflowList_DeepCopyObject_def WorkflowList_DeepCopy_def Input_DeepCopyObject_def Input_DeepCopy_def)

end
