(* ===== verification/Deep_Copy_Demo.thy ===== *)
theory Deep_Copy_Demo
  imports Deep_Copy_Props
begin

text \<open>
  A library whose structs are texts or byte slices behind a pointer, on which \<open>meta_lib\<close> is interpreted, and an
  HTTPTask in memory that is copied.
\<close>

section \<open>A library\<close>

datatype demoMeta = Flat string | Bytes "loc option"

definition libK :: "('x, 'x cell) cellType" where
  "libK = \<lparr>mk = LibCell, un = (\<lambda>c. case c of LibCell x \<Rightarrow> Some x | _ \<Rightarrow> None)\<rparr>"

definition bytesView :: "(loc option, demoMeta cell, demoMeta) view" where
  "bytesView = ptrView libK (plain OLib)"

fun demoCopy :: "demoMeta \<Rightarrow> demoMeta mem \<Rightarrow> demoMeta \<times> demoMeta mem" where
  "demoCopy (Flat s) m = (Flat s, m)"
| "demoCopy (Bytes p) m = (case newCopy libK assign p m of (q, m1) \<Rightarrow> (Bytes q, m1))"

definition demoView :: "(demoMeta, demoMeta cell, demoMeta) view" where
  "demoView = \<lparr>ok = (\<lambda>m x. case x of Flat s \<Rightarrow> True | Bytes p \<Rightarrow> ok bytesView m p),
     see = (\<lambda>m x. case x of Flat s \<Rightarrow> OStr s | Bytes p \<Rightarrow> see bytesView m p),
     foot = (\<lambda>m x. case x of Flat s \<Rightarrow> {} | Bytes p \<Rightarrow> foot bytesView m p)\<rparr>"

definition demoLib :: "demoMeta metaLib" where
  "demoLib = \<lparr>ObjectMeta_DeepCopyInto = demoCopy, ListMeta_DeepCopyInto = demoCopy, Condition_DeepCopyInto = demoCopy,
     RawExtension_DeepCopyInto = demoCopy, zeroMeta = Bytes None\<rparr>"

definition demoViews :: "(demoMeta, demoMeta) libView" where
  "demoViews = \<lparr>lv_objectMeta = demoView, lv_listMeta = demoView, lv_condition = demoView, lv_raw = demoView\<rparr>"

lemma bytes_copied: "deep_copy bytesView (newCopy libK assign)"
  unfolding bytesView_def by (rule newCopy_copies [OF _ assign_copies]) (simp add: cell_type_def libK_def)

lemma demo_copied: "deep_copy demoView demoCopy"
proof (intro deep_copy.intro memory_view.intro deep_copy_axioms.intro)
  note v = deep_copy.axioms(1) [OF bytes_copied]
  fix m m' :: "demoMeta mem" and x
  assume o: "ok demoView m x"
  then show "foot demoView m x \<subseteq> {..< mnext m}"
    using memory_view.inside [OF v] by (cases x) (simp_all add: demoView_def)
  {
    assume "mnext m \<le> mnext m'" and "\<forall>a \<in> foot demoView m x. mcell m' a = mcell m a"
    with o memory_view.local [OF v, of m _ m']
    show "ok demoView m' x \<and> see demoView m' x = see demoView m x \<and> foot demoView m' x = foot demoView m x"
      by (cases x) (simp_all add: demoView_def)
  }
  fix y
  assume c: "demoCopy x m = (y, m')"
  show "copy_of demoView m x m' y"
  proof (cases x)
    case (Bytes p)
    obtain q m1 where q: "newCopy libK assign p m = (q, m1)" by fastforce
    have "copy_of bytesView m p m1 q"
      using deep_copy.copied [OF bytes_copied _ q] o Bytes by (simp add: demoView_def)
    with c q Bytes show ?thesis by (auto simp: copy_of_def demoView_def)
  qed (use c in \<open>auto simp: copy_of_def demoView_def\<close>)
qed

interpretation demo_lib: meta_lib demoLib demoViews
  by (rule meta_lib.intro) (simp_all add: demoLib_def demoViews_def demo_copied)

section \<open>A task in memory\<close>

definition memTask :: "demoMeta goHTTPTask" where
  "memTask = \<lparr>go_typeMeta = \<lparr>tm_kind = ''HTTPTask'', tm_apiVersion = SchemeGroupVersion\<rparr>, go_objectMeta = Flat ''default/a'',
     go_spec = \<lparr>gh_endpoint = ''http://svc'', gh_method = [], gh_headers = Some 1, gh_input = Bytes (Some 2), gh_inputFrom = Slice 3 1 1\<rparr>,
     go_status = \<lparr>gt_output = Bytes None, gt_statusCode = Some 4, gt_observedInputHash = [], gt_conditions = Slice 5 0 1\<rparr>\<rparr>"

definition taskMem :: "demoMeta mem" where
  "taskMem = \<lparr>mcell = (\<lambda>_. LibCell (Flat []))(0 := StructCell (HTTPTaskStruct memTask), 1 := HeadersCell [(''X-Id'', ''7'')],
     2 := LibCell (Flat ''{}''), 3 := ArrayCell (FieldMappingsArray [zeroFieldMapping, zeroFieldMapping]),
     4 := Int32Cell 200, 5 := ArrayCell (ConditionsArray [Flat ''Ready''])), mnext = 6\<rparr>"

text \<open>Every cell of an object overwritten.\<close>

definition scribble :: "loc set \<Rightarrow> 'x cell \<Rightarrow> 'x mem \<Rightarrow> 'x mem" where
  "scribble A c m = m\<lparr>mcell := (\<lambda>a. if a \<in> A then c else mcell m a)\<rparr>"

lemma task_sound: "sound demoViews taskMem (HTTPTaskObject (Some 0))"
  by (simp add: sound_def ptrView_def cellK_defs taskMem_def memTask_def httpTaskView_def objectView_def
      httpTaskSpecView_def httpTaskStatusView_def copy_simps text_field_def mapView_def demoViews_def demoView_def
      bytesView_def libK_def sliceView_def int32View_def conditionsView_def window_def)

theorem deep_copy_apart_witness:
  "\<exists>c m1. DeepCopyObject demoLib (HTTPTaskObject (Some 0)) taskMem = Some (c, m1) \<and> typeIn c = ''HTTPTask''
     \<and> looks demoViews m1 c = looks demoViews taskMem (HTTPTaskObject (Some 0))
     \<and> looks demoViews (scribble (cellsOf demoViews m1 c) (Int32Cell 0) m1) (HTTPTaskObject (Some 0))
       = looks demoViews taskMem (HTTPTaskObject (Some 0))"
proof -
  obtain c m1 where r: "DeepCopyObject demoLib (HTTPTaskObject (Some 0)) taskMem = Some (c, m1)" by fastforce
  have p: "pointerIn (HTTPTaskObject (Some 0)) = Some 0" by simp
  note apart = deep_copy_apart [OF demo_lib.meta_lib_axioms r p task_sound]
  have "looks demoViews (scribble (cellsOf demoViews m1 c) (Int32Cell 0) m1) (HTTPTaskObject (Some 0))
      = looks demoViews taskMem (HTTPTaskObject (Some 0))"
    using apart by (simp add: scribble_def)
  with r apart show ?thesis by (intro exI [of _ c] exI [of _ m1]) simp
qed

end
