(* ===== verification/Fn_Main.thy ===== *)
theory Fn_Main
  imports Go_Prelude
begin

text \<open>
  \<open>src/function-httptask/main.go\<close>: the command line of the composition function and the options it starts the
  gRPC server with. The logger and the server of the function SDK are parameters; \<open>int\<close> has 64 bits.
\<close>

record CLI =
  cli_Debug :: bool
  cli_Network :: string
  cli_Address :: string
  cli_TLSCertsDir :: string
  cli_Insecure :: bool
  cli_MaxRecvMessageSize :: int64

text \<open>Without flags: the defaults in the tags, the certificates directory from the environment.\<close>

definition defaultCLI :: "string \<Rightarrow> CLI" where
  "defaultCLI tlsServerCertsDir = \<lparr>cli_Debug = False, cli_Network = ''tcp'', cli_Address = '':9443'',
     cli_TLSCertsDir = tlsServerCertsDir, cli_Insecure = False, cli_MaxRecvMessageSize = 4\<rparr>"

datatype serveOption =
    Listen string string
  | MTLSCertificates string
  | Insecure bool
  | MaxRecvMessageSize int64

record 'l fnSdk =
  NewLogger :: "bool \<Rightarrow> goerr + 'l"
  Serve :: "'l \<Rightarrow> serveOption list \<Rightarrow> goerr option"

definition serveOptions :: "CLI \<Rightarrow> serveOption list" where
  "serveOptions c = [Listen (cli_Network c) (cli_Address c), MTLSCertificates (cli_TLSCertsDir c),
     Insecure (cli_Insecure c), MaxRecvMessageSize (cli_MaxRecvMessageSize c * 1024 * 1024)]"

definition CLI_Run :: "'l fnSdk \<Rightarrow> CLI \<Rightarrow> goerr option" where
  "CLI_Run sdk c = (case NewLogger sdk (cli_Debug c) of
     Inl e \<Rightarrow> Some e
   | Inr log \<Rightarrow> Serve sdk log (serveOptions c))"

text \<open>
  \<open>main\<close>: the parser of the command line exits by itself after help or a usage error (\<open>Inl\<close> its code);
  \<open>FatalIfErrorf\<close> returns or exits with a code. The result is the exit code of the process.
\<close>

record kong =
  kong_Parse :: "string list \<Rightarrow> nat + CLI"
  FatalIfErrorf :: "goerr option \<Rightarrow> nat option"

definition fnMain :: "kong \<Rightarrow> 'l fnSdk \<Rightarrow> string list \<Rightarrow> nat" where
  "fnMain kg sdk args = (case kong_Parse kg args of
     Inl code \<Rightarrow> code
   | Inr c \<Rightarrow> (case FatalIfErrorf kg (CLI_Run sdk c) of None \<Rightarrow> 0 | Some code \<Rightarrow> code))"

text \<open>
  With a fatal error reported by a code other than 0, a process with readable flags that exits with 0 has made its
  logger and served with the options of those flags until the server ended without an error.
\<close>

lemma fnMain_served:
  assumes "\<And>e. \<exists>code. FatalIfErrorf kg (Some e) = Some code \<and> code \<noteq> 0" and "kong_Parse kg args = Inr c"
    and "fnMain kg sdk args = 0"
  shows "\<exists>log. NewLogger sdk (cli_Debug c) = Inr log \<and> Serve sdk log (serveOptions c) = None"
proof -
  have "CLI_Run sdk c = None"
  proof (cases "CLI_Run sdk c")
    case (Some e)
    with assms(1) [of e] assms(2,3) show ?thesis by (auto simp: fnMain_def)
  qed
  then show ?thesis by (auto simp: CLI_Run_def split: sum.splits)
qed

text \<open>
  The limit in bytes is the number of megabytes asked for, as long as that is less than \<open>2 ^ 43\<close>; from there on
  it wraps around to a negative limit.
\<close>

theorem recv_limit_exact:
  assumes "MaxRecvMessageSize v \<in> set (serveOptions c)" and "0 \<le> sint (cli_MaxRecvMessageSize c)"
  shows "sint v = sint (cli_MaxRecvMessageSize c) * 1048576 \<longleftrightarrow> sint (cli_MaxRecvMessageSize c) < 2 ^ 43"
proof -
  define n where "n = cli_MaxRecvMessageSize c"
  have v: "v = n * 1024 * 1024" using assms(1) by (simp add: serveOptions_def n_def)
  have n: "n * 1024 * 1024 = word_of_int (sint n * 1048576)"
    by (simp add: mult.assoc flip: wi_hom_mult)
  have b: "sint (word_of_int k :: int64) = signed_take_bit 63 k" for k
    by transfer simp
  have "- (2 ^ 63) \<le> sint n * 1048576" using assms(2) by (simp add: n_def)
  moreover have "sint n * 1048576 < 2 ^ 63 \<longleftrightarrow> sint n < 2 ^ 43" by simp
  ultimately show ?thesis
    unfolding v n b n_def [symmetric] signed_take_bit_int_eq_self_iff by blast
qed

end
