(* ===== verification/Go_Json_Fuel.thy ===== *)
theory Go_Json_Fuel
  imports Go_Json
begin

text \<open>
  The fuel of the JSON parser is enough: whatever some amount of fuel parses, the amount that \<open>decode\<close>
  gives parses too, and to the same value.
\<close>

section \<open>Every parser consumes\<close>

lemma skip_ws_length: "length (skip_ws s) \<le> length s"
  by (simp add: skip_ws_def length_dropWhile_le)

lemma skip_ws_Cons: "skip_ws s = c # r \<Longrightarrow> length r < length s"
  using skip_ws_length [of s] by simp

lemma decEscape_length: "decEscape s = Some (out, r) \<Longrightarrow> length r < length s"
proof -
  have u: "length q \<le> length t" if "decUnicode t = Some (o', q)" for t o' q
  proof -
    have "length (snd (decSurrogate n t)) \<le> length t" for n t
      by (auto simp: decSurrogate_def split: list.splits option.splits)
    then have "length (snd (decSurrogate n (drop 4 t))) \<le> length t" for n
      by (metis diff_le_self le_trans length_drop)
    with that show ?thesis unfolding decUnicode_def
      by (auto split: option.splits if_splits) (metis snd_conv)
  qed
  assume "decEscape s = Some (out, r)"
  then show ?thesis using u by (auto simp: decEscape_def less_Suc_eq_le split: list.splits if_splits)
qed

text \<open>Fuel for a parse that consumes something: at least one unit, and the rest is enough for what is inside.\<close>

lemma le_fuel: "Suc n - m \<le> f \<Longrightarrow> m \<le> n \<Longrightarrow> \<exists>k. f = Suc k \<and> n - m \<le> k"
  by (cases f) auto

lemma decChars_fuel:
  "decChars g s = Some (out, r) \<Longrightarrow>
     length r < length s \<and> (\<forall>f \<ge> length s - length r. decChars f s = Some (out, r))"
proof (induction g s arbitrary: out r rule: decChars.induct)
  case (3 g c s)
  show ?case
  proof (cases "c = dquote \<or> c \<noteq> bslash \<and> is_control c")
    case True
    with "3.prems" show ?thesis by (auto split: if_splits dest!: Suc_le_D)
  next
    case False
    then consider (esc) e s1 q where "c = bslash" "decEscape s = Some (e, s1)" "decChars g s1 = Some (q, r)" "out = e @ q"
      | (bad) q where "c \<noteq> bslash" "utf8_len (c # s) = 0" "decChars g s = Some (q, r)" "out = utf8_enc 65533 @ q"
      | (good) n q where "c \<noteq> bslash" "utf8_len (c # s) = Suc n" "decChars g (drop n s) = Some (q, r)" "out = take (Suc n) (c # s) @ q"
      using "3.prems" by (auto split: if_splits option.splits nat.splits)
    then show ?thesis
    proof cases
      case esc
      have "length s1 < length s" by (rule decEscape_length [OF esc(2)])
      moreover have "length r < length s1 \<and> (\<forall>f \<ge> length s1 - length r. decChars f s1 = Some (q, r))"
        using "3.IH"(1) [OF _ _ esc(2) refl esc(3)] esc(1) False by blast
      ultimately show ?thesis using esc False by (auto dest!: le_fuel)
    next
      case bad
      have "length r < length s \<and> (\<forall>f \<ge> length s - length r. decChars f s = Some (q, r))"
        using "3.IH"(2) [OF _ _ _ bad(2,3)] bad(1) False by blast
      then show ?thesis using bad False by (auto dest!: le_fuel)
    next
      case good
      have "length r < length (drop n s) \<and> (\<forall>f \<ge> length (drop n s) - length r. decChars f (drop n s) = Some (q, r))"
        using "3.IH"(3) [OF _ _ _ good(2), of q r] good False by simp
      then show ?thesis using good False by (auto dest!: le_fuel)
    qed
  qed
qed simp_all

lemma parseString_length: "parseString s = Some (out, r) \<Longrightarrow> length r < length s"
  unfolding parseString_def using decChars_fuel by blast

lemma decNumber_length: "decNumber s = Some (x, r) \<Longrightarrow> length r < length s"
proof -
  assume a: "decNumber s = Some (x, r)"
  obtain neg s1 where s1: "decSign s = (neg, s1)" by fastforce
  from a s1 obtain ip s2 fp s3 ex where d: "decInt s1 = Some (ip, s2)" "decFrac s2 = Some (fp, s3)" "decExp s3 = Some (ex, r)"
    unfolding decNumber_def by (auto split: option.splits prod.splits)
  have "length s1 \<le> length s" using s1 by (auto simp: decSign_def split: list.splits if_splits)
  moreover have "length s2 < length s1"
  proof -
    from d(1) have "takeWhile is_digit s1 \<noteq> []" "s2 = dropWhile is_digit s1"
      by (auto simp: decInt_def split: list.splits if_splits)
    then show ?thesis by (cases s1) (auto simp: less_Suc_eq_le length_dropWhile_le split: if_splits)
  qed
  moreover have "length s3 \<le> length s2"
    using d(2) by (auto simp: decFrac_def le_SucI length_dropWhile_le split: list.splits if_splits)
  moreover have "length r \<le> length s3"
  proof -
    have "length (dropWhile is_digit q) \<le> Suc (length t)" if "decExpSign t = (b, q)" for t b q
    proof -
      have "length q \<le> length t" using that by (auto simp: decExpSign_def split: list.splits if_splits)
      then show ?thesis by (meson le_SucI le_trans length_dropWhile_le)
    qed
    then show ?thesis using d(3) by (auto simp: decExp_def split: list.splits if_splits prod.splits)
  qed
  ultimately show ?thesis by simp
qed

section \<open>Enough fuel\<close>

lemma fuelI:
  assumes "m < n" and "\<And>k. n - m \<le> Suc k \<Longrightarrow> p (Suc k) = v"
  shows "m < n \<and> (\<forall>f \<ge> n - m. p f = v)"
proof -
  have "p f = v" if "n - m \<le> f" for f using that assms by (cases f) auto
  with assms(1) show ?thesis by blast
qed

text \<open>A value that is neither an object nor an array takes no fuel beyond the first unit.\<close>

lemma flat_dec:
  assumes "skip_ws s = c # t" and "c \<noteq> CHR ''{''" and "c \<noteq> CHR ''[''" and "dec (Suc g) s = Some (x, r)"
  shows "length r < length s \<and> (\<forall>k. dec (Suc k) s = Some (x, r))"
proof -
  have t: "length t < length s" by (rule skip_ws_Cons [OF assms(1)])
  have "length r \<le> length t"
  proof (cases "c = dquote")
    case True
    with assms parseString_length [of t] show ?thesis by fastforce
  next
    case False
    with assms decNumber_length [of "c # t"] show ?thesis by (auto split: if_splits)
  qed
  with t assms show ?thesis by simp
qed

lemma dec_fuel:
  shows "dec g s = Some (x, r) \<Longrightarrow> length r < length s \<and> (\<forall>f \<ge> length s - length r. dec f s = Some (x, r))"
    and "decElems g s = Some (xs, r) \<Longrightarrow> length r < length s \<and> (\<forall>f \<ge> length s - length r. decElems f s = Some (xs, r))"
    and "decMembers g s = Some (m, r) \<Longrightarrow> length r < length s \<and> (\<forall>f \<ge> length s - length r. decMembers f s = Some (m, r))"
proof (induction g s and g s and g s arbitrary: x r and xs r and m r rule: dec_decElems_decMembers.induct)
  case (2 g s)
  from "2.prems" obtain c t where ct: "skip_ws s = c # t" by (cases "skip_ws s") simp_all
  have t: "length t < length s" by (rule skip_ws_Cons [OF ct])
  show ?case
  proof (cases "c = CHR ''{'' \<or> c = CHR ''[''")
    case True
    with "2.prems" ct obtain d u where du: "skip_ws t = d # u" by (cases "skip_ws t") auto
    have u: "length u < length t" by (rule skip_ws_Cons [OF du])
    from True "2.prems" ct du consider (empty) "r = u" "\<And>k. dec (Suc k) s = Some (x, r)"
      | (obj) m where "c = CHR ''{''" "d \<noteq> CHR ''}''" "decMembers g t = Some (m, r)" "x = JObj (kv_of m)"
      | (arr) xs where "c = CHR ''[''" "d \<noteq> CHR '']''" "decElems g t = Some (xs, r)" "x = JArr xs"
      by (auto split: if_splits)
    then show ?thesis
    proof cases
      case empty
      with t u show ?thesis by (intro fuelI) auto
    next
      case obj
      from "2.IH"(1) [OF ct obj(1) du obj(2,3)] have i: "length r < length t"
        and m: "\<And>k. length t - length r \<le> k \<Longrightarrow> decMembers k t = Some (m, r)" by blast+
      from i t have "length t - length r \<le> k" if "length s - length r \<le> Suc k" for k using that by linarith
      with i t m obj ct du show ?thesis by (intro fuelI) auto
    next
      case arr
      from "2.IH"(2) [OF ct _ arr(1) du arr(2,3)] arr(1) have i: "length r < length t"
        and m: "\<And>k. length t - length r \<le> k \<Longrightarrow> decElems k t = Some (xs, r)" by auto
      from i t have "length t - length r \<le> k" if "length s - length r \<le> Suc k" for k using that by linarith
      with i t m arr ct du show ?thesis by (intro fuelI) auto
    qed
  next
    case False
    with flat_dec [OF ct _ _ "2.prems"] show ?thesis by (intro fuelI) auto
  qed
next
  case (4 g s)
  from "4.prems" obtain x t d u where x: "dec g s = Some (x, t)" "skip_ws t = d # u" by (auto split: option.splits list.splits)
  have u: "length u < length t" by (rule skip_ws_Cons [OF x(2)])
  have t: "length t < length s" "\<And>k. length s - length t \<le> k \<Longrightarrow> dec k s = Some (x, t)"
    using "4.IH"(1) [OF x(1)] by blast+
  consider (more) ys where "d = CHR '',''" "decElems g u = Some (ys, r)" "xs = x # ys"
    | (last) "d = CHR '']''" "r = u" "xs = [x]"
    using "4.prems" x by (auto split: if_splits)
  then show ?case
  proof cases
    case more
    from "4.IH"(2) [OF x(1) refl x(2) more(1,2)] have i: "length r < length u"
      and m: "\<And>k. length u - length r \<le> k \<Longrightarrow> decElems k u = Some (ys, r)" by blast+
    from i u t(1) have "length s - length t \<le> k" "length u - length r \<le> k" if "length s - length r \<le> Suc k" for k
      using that by linarith+
    with more(1,3) i u t m x(2) show ?thesis by (intro fuelI) auto
  next
    case last
    from u t(1) have "length s - length t \<le> k" if "length s - length u \<le> Suc k" for k
      using that by linarith
    with last t u x(2) show ?thesis by (intro fuelI) auto
  qed
next
  case (6 g s)
  from "6.prems" obtain t where t: "skip_ws s = dquote # t" by (auto split: list.splits if_splits)
  with "6.prems" obtain k s1 where k: "parseString t = Some (k, s1)" by (auto split: option.splits)
  with "6.prems" t obtain s2 where s2: "skip_ws s1 = CHR '':'' # s2" by (auto split: list.splits if_splits)
  with "6.prems" t k obtain y s3 where y: "dec g s2 = Some (y, s3)" by (auto split: option.splits)
  with "6.prems" t k s2 obtain e s4 where e: "skip_ws s3 = e # s4" by (auto split: list.splits)
  have l: "length s2 < length s" "length s4 < length s3"
    using skip_ws_Cons [OF t] parseString_length [OF k] skip_ws_Cons [OF s2] skip_ws_Cons [OF e] by simp_all
  have d: "length s3 < length s2" "\<And>j. length s2 - length s3 \<le> j \<Longrightarrow> dec j s2 = Some (y, s3)"
    using "6.IH"(1) [OF t _ k refl s2 _ y] by auto
  consider (more) n where "e = CHR '',''" "decMembers g s4 = Some (n, r)" "m = (k, y) # n"
    | (last) "e = CHR ''}''" "r = s4" "m = [(k, y)]"
    using "6.prems" t k s2 y e by (auto split: if_splits)
  then show ?case
  proof cases
    case more
    from "6.IH"(2) [OF t _ k refl s2 _ y refl e more(1,2)] have i: "length r < length s4"
      and n: "\<And>j. length s4 - length r \<le> j \<Longrightarrow> decMembers j s4 = Some (n, r)" by auto
    from i l d(1) have "length s2 - length s3 \<le> j" "length s4 - length r \<le> j" if "length s - length r \<le> Suc j" for j
      using that by linarith+
    with more(1,3) i l d n t k s2 e show ?thesis by (intro fuelI) auto
  next
    case last
    from l d(1) have "length s2 - length s3 \<le> j" if "length s - length s4 \<le> Suc j" for j
      using that by linarith
    with last l d t k s2 e show ?thesis by (intro fuelI) auto
  qed
qed simp_all

text \<open>Whatever amount of fuel, \<open>decode\<close> accepts what it makes parse, up to trailing space.\<close>

theorem decode_complete: "decode s = Inr j \<longleftrightarrow> (\<exists>g r. dec g s = Some (j, r) \<and> skip_ws r = [])"
proof
  assume "\<exists>g r. dec g s = Some (j, r) \<and> skip_ws r = []"
  then obtain g r where g: "dec g s = Some (j, r)" "skip_ws r = []" by blast
  have "length s - length r \<le> Suc (length s)" by linarith
  with dec_fuel(1) [OF g(1)] have "dec (Suc (length s)) s = Some (j, r)" by blast
  with g(2) show "decode s = Inr j" by (simp add: decode_def)
next
  assume "decode s = Inr j"
  then show "\<exists>g r. dec g s = Some (j, r) \<and> skip_ws r = []"
    unfolding decode_def by (intro exI [of _ "Suc (length s)"]) (auto simp del: dec.simps split: option.splits if_splits)
qed

section \<open>The encoder\<close>

text \<open>Every step of the encoder of strings takes at least one byte, so the length of the string is enough fuel.\<close>

lemma encStep_consumes: "0 < snd (encStep s)"
  by (auto simp: encStep_def split: nat.splits)

theorem encChars_enough: "length s \<le> f \<Longrightarrow> length s \<le> g \<Longrightarrow> encChars f s = encChars g s"
proof (induction f s arbitrary: g rule: encChars.induct)
  case (3 f c s)
  obtain out n where e: "encStep (c # s) = (out, n)" by fastforce
  with encStep_consumes [of "c # s"] obtain k where n: "n = Suc k" by (auto simp: gr0_conv_Suc)
  from "3.prems" obtain g' where g: "g = Suc g'" by (cases g) auto
  have "encChars f (drop n (c # s)) = encChars g' (drop n (c # s))"
    by (rule "3.IH" [OF e [symmetric]]) (use "3.prems" g n in auto)
  then show ?case by (simp add: e g n)
qed simp_all

end
