(* ===== verification/Go_Heap.thy ===== *)
theory Go_Heap
  imports Json_Path
begin

text \<open>
  Go maps are references: two variables may hold the same map, and a write through one is
  seen through the other. \<open>src/function-httptask/fn.go\<close> shares maps (a task's output is kept
  in \<open>outputs\<close>, in its status and, through \<open>inputFrom\<close>, in the bodies of later tasks), so its
  model works on an explicit heap of maps. This theory holds the heap, decoding a JSON value
  into it, reading one back out of it (what \<open>json.Marshal\<close> walks; a cycle is an error, as in
  \<open>encoding/json\<close>), and \<open>getJSONField\<close>/\<open>setJSONField\<close> of fn.go on it.
\<close>

section \<open>The heap\<close>

type_synonym addr = nat

datatype gval =
    VNil
  | VBool bool
  | VNum gonum
  | VStr string
  | VArr "gval list"
  | VMap addr

record heap =
  cells :: "addr \<Rightarrow> gval kvs"
  next_addr :: addr

definition empty_heap :: heap where
  "empty_heap = \<lparr>cells = (\<lambda>_. []), next_addr = 0\<rparr>"

text \<open>\<open>map[string]interface{}{}\<close> and \<open>m[k] = v\<close>.\<close>

definition new_map :: "heap \<Rightarrow> addr \<times> heap" where
  "new_map h = (next_addr h, h\<lparr>cells := (cells h)(next_addr h := []), next_addr := Suc (next_addr h)\<rparr>)"

definition map_write :: "heap \<Rightarrow> addr \<Rightarrow> string \<Rightarrow> gval \<Rightarrow> heap" where
  "map_write h a k v = h\<lparr>cells := (cells h)(a := kv_put k v (cells h a))\<rparr>"

definition set_cell :: "heap \<Rightarrow> addr \<Rightarrow> gval kvs \<Rightarrow> heap" where
  "set_cell h a kvs = h\<lparr>cells := (cells h)(a := kvs)\<rparr>"

subsection \<open>Decoding into the heap\<close>

fun load :: "json \<Rightarrow> heap \<Rightarrow> gval \<times> heap"
and load_list :: "json list \<Rightarrow> heap \<Rightarrow> gval list \<times> heap"
and load_kvs :: "(string \<times> json) list \<Rightarrow> heap \<Rightarrow> gval kvs \<times> heap" where
  "load JNull h = (VNil, h)"
| "load (JBool b) h = (VBool b, h)"
| "load (JNum n) h = (VNum n, h)"
| "load (JStr s) h = (VStr s, h)"
| "load (JArr xs) h = (case load_list xs h of (vs, h1) \<Rightarrow> (VArr vs, h1))"
| "load (JObj m) h = (case load_kvs m h of (kvs, h1) \<Rightarrow>
     (case new_map h1 of (a, h2) \<Rightarrow> (VMap a, set_cell h2 a kvs)))"
| "load_list [] h = ([], h)"
| "load_list (x # xs) h = (case load x h of (v, h1) \<Rightarrow>
     (case load_list xs h1 of (vs, h2) \<Rightarrow> (v # vs, h2)))"
| "load_kvs [] h = ([], h)"
| "load_kvs ((k, x) # m) h = (case load x h of (v, h1) \<Rightarrow>
     (case load_kvs m h1 of (kvs, h2) \<Rightarrow> ((k, v) # kvs, h2)))"

text \<open>A map variable that is filled by decoding: nil for \<open>null\<close>, a fresh map for an object.\<close>

fun load_map :: "jobj option \<Rightarrow> heap \<Rightarrow> addr option \<times> heap" where
  "load_map None h = (None, h)"
| "load_map (Some m) h = (case load_kvs m h of (kvs, h1) \<Rightarrow>
     (case new_map h1 of (a, h2) \<Rightarrow> (Some a, set_cell h2 a kvs)))"

subsection \<open>Reading a value back\<close>

text \<open>
  \<open>seen\<close> holds the maps on the way from the root: meeting one again is the cycle
  that \<open>encoding/json\<close> reports as an unsupported value.
\<close>

function dump :: "addr set \<Rightarrow> heap \<Rightarrow> gval \<Rightarrow> json option"
and dump_list :: "addr set \<Rightarrow> heap \<Rightarrow> gval list \<Rightarrow> json list option"
and dump_kvs :: "addr set \<Rightarrow> heap \<Rightarrow> gval kvs \<Rightarrow> jobj option" where
  "dump seen h VNil = Some JNull"
| "dump seen h (VBool b) = Some (JBool b)"
| "dump seen h (VNum n) = Some (JNum n)"
| "dump seen h (VStr s) = Some (JStr s)"
| "dump seen h (VArr vs) = map_option JArr (dump_list seen h vs)"
| "dump seen h (VMap a) =
     (if a \<in> seen \<or> next_addr h \<le> a then None
      else map_option JObj (dump_kvs (insert a seen) h (cells h a)))"
| "dump_list seen h [] = Some []"
| "dump_list seen h (v # vs) =
     (case dump seen h v of None \<Rightarrow> None
      | Some x \<Rightarrow> (case dump_list seen h vs of None \<Rightarrow> None | Some xs \<Rightarrow> Some (x # xs)))"
| "dump_kvs seen h [] = Some []"
| "dump_kvs seen h ((k, v) # m) =
     (case dump seen h v of None \<Rightarrow> None
      | Some x \<Rightarrow> (case dump_kvs seen h m of None \<Rightarrow> None | Some xs \<Rightarrow> Some ((k, x) # xs)))"
  by pat_completeness auto
termination
  by (relation "measures
       [\<lambda>x. case x of Inl (seen, h, v) \<Rightarrow> card ({..<next_addr h} - seen)
          | Inr (Inl (seen, h, v)) \<Rightarrow> card ({..<next_addr h} - seen)
          | Inr (Inr (seen, h, v)) \<Rightarrow> card ({..<next_addr h} - seen),
        \<lambda>x. case x of Inl (seen, h, v) \<Rightarrow> size v
          | Inr (Inl (seen, h, vs)) \<Rightarrow> size_list size vs
          | Inr (Inr (seen, h, m)) \<Rightarrow> size_list (\<lambda>p. size (snd p)) m]")
    (auto simp: card_gt_0_iff subset_iff not_le intro!: diff_less)

abbreviation readback :: "heap \<Rightarrow> gval \<Rightarrow> json option" where
  "readback h v \<equiv> dump {} h v"

definition cycleError :: goerr where
  "cycleError = GoErr ''json: unsupported value: encountered a cycle via map[string]interface {}''"

definition marshal_val :: "codec \<Rightarrow> heap \<Rightarrow> gval \<Rightarrow> goerr + string" where
  "marshal_val c h v = (case readback h v of None \<Rightarrow> Inl cycleError | Some j \<Rightarrow> marshal c j)"

section \<open>\<open>getJSONField\<close> and \<open>setJSONField\<close> of fn.go\<close>

fun fn_getPath :: "heap \<Rightarrow> gval \<Rightarrow> string list \<Rightarrow> gval option" where
  "fn_getPath h cur [] = Some cur"
| "fn_getPath h (VMap a) (p # ps) =
     (case kv_get (cells h a) p of None \<Rightarrow> None | Some v \<Rightarrow> fn_getPath h v ps)"
| "fn_getPath h _ (p # ps) = None"

text \<open>\<open>data\<close> may be a nil map: reading it finds nothing.\<close>

definition fn_getJSONField :: "heap \<Rightarrow> addr option \<Rightarrow> string \<Rightarrow> gval option" where
  "fn_getJSONField h data path = (case data of
       None \<Rightarrow> None
     | Some a \<Rightarrow> fn_getPath h (VMap a) (split_on CHR ''.'' path))"

text \<open>
  One turn of the loop before the last part: the member if it is a map, else a fresh map that is
  stored there.
\<close>

definition fn_next :: "heap \<Rightarrow> addr \<Rightarrow> string \<Rightarrow> addr \<times> heap" where
  "fn_next h cur p = (case kv_get (cells h cur) p of
       Some (VMap nxt) \<Rightarrow> (nxt, h)
     | _ \<Rightarrow> (case new_map h of (nxt, h1) \<Rightarrow> (nxt, map_write h1 cur p (VMap nxt))))"

fun fn_setPath :: "heap \<Rightarrow> addr \<Rightarrow> string list \<Rightarrow> gval \<Rightarrow> heap" where
  "fn_setPath h cur [] val = h"
| "fn_setPath h cur [p] val = map_write h cur p val"
| "fn_setPath h cur (p # q # ps) val =
     (case fn_next h cur p of (nxt, h1) \<Rightarrow> fn_setPath h1 nxt (q # ps) val)"

definition fn_setJSONField :: "heap \<Rightarrow> addr \<Rightarrow> string \<Rightarrow> gval \<Rightarrow> heap" where
  "fn_setJSONField h data path val = fn_setPath h data (split_on CHR ''.'' path) val"

end
