(* ===== verification/Fn_Types.thy ===== *)
theory Fn_Types
  imports Go_Heap
begin

text \<open>
  The data of the composition function, \<open>src/function-httptask/fn.go\<close> and
  \<open>input/v1beta1/input.go\<close>: task specifications, task statuses, the function input and the
  DisposableRequest the function builds, and decoding \<open>spec.tasks\<close> into \<open>[]TaskSpec\<close>
  (\<open>encoding/json\<close> on the struct tags of fn.go; the API server has pruned the object to the
  member names of the schema, so names match exactly).
\<close>

section \<open>Structs\<close>

record FieldMapping =
  fm_sourceTask :: string
  fm_sourceField :: string
  fm_targetField :: string

record TaskSpec =
  ts_name :: string
  ts_endpoint :: string
  ts_method :: string
  ts_headers :: "string \<rightharpoonup> string"
  ts_input :: "addr option"
  ts_inputFrom :: "FieldMapping list"

record TaskStatus =
  st_name :: string
  st_phase :: string
  st_statusCode :: "int32 option"
  st_output :: "addr option"
  st_error :: string

text \<open>The zero value of a status with a name and a phase, as the composite literals write it.\<close>

definition mkStatus :: "string \<Rightarrow> string \<Rightarrow> TaskStatus" where
  "mkStatus n p = \<lparr>st_name = n, st_phase = p, st_statusCode = None, st_output = None, st_error = []\<rparr>"

record FnInput =
  in_providerConfigName :: string
  in_defaultHeaders :: "string \<rightharpoonup> string"

text \<open>A DisposableRequest: the values that \<open>SetAPIVersion\<close>, \<open>SetKind\<close> and \<open>SetValue\<close> put in it.\<close>

record DisposableRequest =
  dr_apiVersion :: string
  dr_kind :: string
  dr_providerConfig :: string
  dr_url :: string
  dr_method :: string
  dr_body :: string
  dr_headers :: "string \<rightharpoonup> string list"

text \<open>
  An observed DisposableRequest: what \<open>GetString("status.error")\<close>,
  \<open>GetInteger("status.response.statusCode")\<close>, \<open>GetString("status.response.body")\<close> and
  \<open>GetValue("status.synced")\<close> return (the zero value where the path is missing).
\<close>

record ObservedRes =
  or_error :: string
  or_code :: int64
  or_body :: string
  or_synced :: "json option"

section \<open>Decoding \<open>spec.tasks\<close>\<close>

fun kindName :: "json \<Rightarrow> string" where
  "kindName JNull = ''null''"
| "kindName (JBool b) = ''bool''"
| "kindName (JNum n) = ''number''"
| "kindName (JStr s) = ''string''"
| "kindName (JArr xs) = ''array''"
| "kindName (JObj m) = ''object''"

definition typeError :: "json \<Rightarrow> string \<Rightarrow> string \<Rightarrow> goerr" where
  "typeError j field ty =
     GoErr (''json: cannot unmarshal '' @ kindName j @ '' into Go struct field '' @ field @ '' of type '' @ ty)"

fun decString :: "string \<Rightarrow> json option \<Rightarrow> goerr + string" where
  "decString f None = Inr []"
| "decString f (Some JNull) = Inr []"
| "decString f (Some (JStr s)) = Inr s"
| "decString f (Some j) = Inl (typeError j f ''string'')"

fun decHeaderList :: "(string \<times> json) list \<Rightarrow> goerr + (string \<rightharpoonup> string)" where
  "decHeaderList [] = Inr Map.empty"
| "decHeaderList ((k, j) # m) = (case decString ''TaskSpec.headers'' (Some j) of
     Inl e \<Rightarrow> Inl e
   | Inr s \<Rightarrow> (case decHeaderList m of Inl e \<Rightarrow> Inl e | Inr hs \<Rightarrow> Inr (hs(k \<mapsto> s))))"

fun decHeaders :: "json option \<Rightarrow> goerr + (string \<rightharpoonup> string)" where
  "decHeaders None = Inr Map.empty"
| "decHeaders (Some JNull) = Inr Map.empty"
| "decHeaders (Some (JObj m)) = decHeaderList m"
| "decHeaders (Some j) = Inl (typeError j ''TaskSpec.headers'' ''map[string]string'')"

fun decInput :: "json option \<Rightarrow> goerr + jobj option" where
  "decInput None = Inr None"
| "decInput (Some JNull) = Inr None"
| "decInput (Some (JObj m)) = Inr (Some m)"
| "decInput (Some j) = Inl (typeError j ''TaskSpec.input'' ''map[string]interface {}'')"

fun decMapping :: "json \<Rightarrow> goerr + FieldMapping" where
  "decMapping (JObj m) = (case decString ''TaskSpec.inputFrom.sourceField'' (kv_get m ''sourceField'') of
     Inl e \<Rightarrow> Inl e
   | Inr sf \<Rightarrow> (case decString ''TaskSpec.inputFrom.sourceTask'' (kv_get m ''sourceTask'') of
       Inl e \<Rightarrow> Inl e
     | Inr st \<Rightarrow> (case decString ''TaskSpec.inputFrom.targetField'' (kv_get m ''targetField'') of
         Inl e \<Rightarrow> Inl e
       | Inr tf \<Rightarrow> Inr \<lparr>fm_sourceTask = st, fm_sourceField = sf, fm_targetField = tf\<rparr>)))"
| "decMapping JNull = Inr \<lparr>fm_sourceTask = [], fm_sourceField = [], fm_targetField = []\<rparr>"
| "decMapping j = Inl (typeError j ''TaskSpec.inputFrom'' ''main.FieldMapping'')"

fun decMappingList :: "json list \<Rightarrow> goerr + FieldMapping list" where
  "decMappingList [] = Inr []"
| "decMappingList (j # js) = (case decMapping j of
     Inl e \<Rightarrow> Inl e
   | Inr m \<Rightarrow> (case decMappingList js of Inl e \<Rightarrow> Inl e | Inr ms \<Rightarrow> Inr (m # ms)))"

fun decInputFrom :: "json option \<Rightarrow> goerr + FieldMapping list" where
  "decInputFrom None = Inr []"
| "decInputFrom (Some JNull) = Inr []"
| "decInputFrom (Some (JArr js)) = decMappingList js"
| "decInputFrom (Some j) = Inl (typeError j ''TaskSpec.inputFrom'' ''[]main.FieldMapping'')"

text \<open>
  One element of the array. The members arrive in sorted order, so the first type error, the one
  \<open>Unmarshal\<close> returns, is the first in the order endpoint, headers, input, inputFrom, method, name.
\<close>

fun decTask :: "json \<Rightarrow> heap \<Rightarrow> goerr + (TaskSpec \<times> heap)" where
  "decTask (JObj m) h = (case decString ''TaskSpec.endpoint'' (kv_get m ''endpoint'') of
     Inl e \<Rightarrow> Inl e
   | Inr ep \<Rightarrow> (case decHeaders (kv_get m ''headers'') of
       Inl e \<Rightarrow> Inl e
     | Inr hs \<Rightarrow> (case decInput (kv_get m ''input'') of
         Inl e \<Rightarrow> Inl e
       | Inr inp \<Rightarrow> (case decInputFrom (kv_get m ''inputFrom'') of
           Inl e \<Rightarrow> Inl e
         | Inr ms \<Rightarrow> (case decString ''TaskSpec.method'' (kv_get m ''method'') of
             Inl e \<Rightarrow> Inl e
           | Inr me \<Rightarrow> (case decString ''TaskSpec.name'' (kv_get m ''name'') of
               Inl e \<Rightarrow> Inl e
             | Inr n \<Rightarrow> (case load_map inp h of (a, h1) \<Rightarrow>
                 Inr (\<lparr>ts_name = n, ts_endpoint = ep, ts_method = me, ts_headers = hs,
                       ts_input = a, ts_inputFrom = ms\<rparr>, h1))))))))"
| "decTask JNull h = Inr (\<lparr>ts_name = [], ts_endpoint = [], ts_method = [], ts_headers = Map.empty,
                          ts_input = None, ts_inputFrom = []\<rparr>, h)"
| "decTask j h = Inl (GoErr (''json: cannot unmarshal '' @ kindName j @ '' into Go value of type main.TaskSpec''))"

fun decTaskList :: "json list \<Rightarrow> heap \<Rightarrow> goerr + (TaskSpec list \<times> heap)" where
  "decTaskList [] h = Inr ([], h)"
| "decTaskList (j # js) h = (case decTask j h of
     Inl e \<Rightarrow> Inl e
   | Inr (t, h1) \<Rightarrow> (case decTaskList js h1 of Inl e \<Rightarrow> Inl e | Inr (ts, h2) \<Rightarrow> Inr (t # ts, h2)))"

text \<open>
  \<open>tasksJSON, _ := json.Marshal(rawTasks)\<close> and \<open>json.Unmarshal(tasksJSON, &tasks)\<close>. A marshalling
  error is dropped and leaves no bytes to decode.
\<close>

definition decodeTasks :: "codec \<Rightarrow> json list \<Rightarrow> goerr + (TaskSpec list \<times> heap)" where
  "decodeTasks c raw = (case marshal c (JArr raw) of
     Inl e \<Rightarrow> Inl (GoErr ''unexpected end of JSON input'')
   | Inr s \<Rightarrow> (case unmarshal c s of
       Inl e \<Rightarrow> Inl e
     | Inr (JArr js) \<Rightarrow> decTaskList js empty_heap
     | Inr JNull \<Rightarrow> Inr ([], empty_heap)
     | Inr j \<Rightarrow> Inl (GoErr (''json: cannot unmarshal '' @ kindName j @ '' into Go value of type []main.TaskSpec''))))"

end
