(* ===== verification/Fn_Run.thy ===== *)
theory Fn_Run
  imports Fn_Types
begin

text \<open>
  The operations of \<open>src/function-httptask/fn.go\<close>, on the heap of \<open>Go_Heap\<close>:
  building the DisposableRequest of a task and of the completion webhook, reading an observed
  request back, the loop over the tasks and \<open>RunFunction\<close>. The function SDK (reading the
  request, setting the response) is the record \<open>FnRequest\<close> of the answers its calls give.
\<close>

section \<open>Building requests\<close>

text \<open>The loop over \<open>task.InputFrom\<close>: \<open>None\<close> when it ran to its end, the error otherwise.\<close>

fun applyInputFrom :: "string \<Rightarrow> (string \<rightharpoonup> addr option) \<Rightarrow> addr \<Rightarrow> FieldMapping list \<Rightarrow> heap
    \<Rightarrow> goerr option \<times> heap" where
  "applyInputFrom name outputs body [] h = (None, h)"
| "applyInputFrom name outputs body (m # ms) h = (case outputs (fm_sourceTask m) of
     None \<Rightarrow> (Some (GoErr (''task '' @ quoted (fm_sourceTask m) @
               '' has not completed yet (referenced by '' @ quoted name @ '')'')), h)
   | Some src \<Rightarrow> (case fn_getJSONField h src (fm_sourceField m) of
       None \<Rightarrow> (Some (GoErr (''field '' @ quoted (fm_sourceField m) @ '' not present in task '' @
                 quoted (fm_sourceTask m) @ [CHR 0x27] @ ''s output'')), h)
     | Some val \<Rightarrow> applyInputFrom name outputs body ms (fn_setJSONField h body (fm_targetField m) val)))"

text \<open>\<open>body := map[string]interface{}{}\<close> and \<open>for k, v := range task.Input { body[k] = v }\<close>.\<close>

definition copyInput :: "addr option \<Rightarrow> heap \<Rightarrow> addr \<times> heap" where
  "copyInput input h = (case new_map h of (body, h1) \<Rightarrow>
     (body, fold (\<lambda>(k, v) h. map_write h body k v)
              (case input of None \<Rightarrow> [] | Some a \<Rightarrow> cells h a) h1))"

definition mergeHeaders :: "(string \<rightharpoonup> string) \<Rightarrow> (string \<rightharpoonup> string) \<Rightarrow> (string \<rightharpoonup> string list)" where
  "mergeHeaders defaults own =
     [''Content-Type'' \<mapsto> [''application/json'']]
       ++ (\<lambda>k. map_option (\<lambda>v. [v]) (defaults k))
       ++ (\<lambda>k. map_option (\<lambda>v. [v]) (own k))"

definition buildDisposableRequest :: "codec \<Rightarrow> TaskSpec \<Rightarrow> (string \<rightharpoonup> string) \<Rightarrow> string
    \<Rightarrow> (string \<rightharpoonup> addr option) \<Rightarrow> heap \<Rightarrow> (goerr + DisposableRequest) \<times> heap" where
  "buildDisposableRequest c task defaultHeaders providerConfigName outputs h =
     (case copyInput (ts_input task) h of (body, h1) \<Rightarrow>
       (case applyInputFrom (ts_name task) outputs body (ts_inputFrom task) h1 of
          (Some e, h2) \<Rightarrow> (Inl e, h2)
        | (None, h2) \<Rightarrow> (case marshal_val c h2 (VMap body) of
            Inl e \<Rightarrow> (Inl e, h2)
          | Inr bytes \<Rightarrow>
              (Inr \<lparr>dr_apiVersion = ''http.crossplane.io/v1alpha2'', dr_kind = ''DisposableRequest'',
                    dr_providerConfig = providerConfigName, dr_url = ts_endpoint task,
                    dr_method = (if ts_method task = [] then ''POST'' else ts_method task),
                    dr_body = bytes,
                    dr_headers = mergeHeaders defaultHeaders (ts_headers task)\<rparr>, h2))))"

text \<open>
  A status as \<open>json.Marshal\<close> writes it: the members in the order of the struct, those tagged
  omitempty left out when nil, empty or "". \<open>None\<close>: the output holds a cycle.
\<close>

definition outputMember :: "heap \<Rightarrow> addr option \<Rightarrow> (string \<times> json) list option" where
  "outputMember h out = (case out of
     None \<Rightarrow> Some []
   | Some a \<Rightarrow> (if cells h a = [] then Some []
                else map_option (\<lambda>j. [(''output'', j)]) (readback h (VMap a))))"

definition statusJson :: "heap \<Rightarrow> TaskStatus \<Rightarrow> json option" where
  "statusJson h st = (case outputMember h (st_output st) of
     None \<Rightarrow> None
   | Some ov \<Rightarrow> Some (JObj ([(''name'', JStr (st_name st)), (''phase'', JStr (st_phase st))]
       @ (case st_statusCode st of None \<Rightarrow> [] | Some c \<Rightarrow> [(''statusCode'', JNum (Int64 (scast c)))])
       @ ov
       @ (if st_error st = [] then [] else [(''error'', JStr (st_error st))]))))"

fun statusesJson :: "heap \<Rightarrow> TaskStatus list \<Rightarrow> json list option" where
  "statusesJson h [] = Some []"
| "statusesJson h (s # ss) = (case statusJson h s of None \<Rightarrow> None
     | Some j \<Rightarrow> (case statusesJson h ss of None \<Rightarrow> None | Some js \<Rightarrow> Some (j # js)))"

definition buildNotifyRequest :: "codec \<Rightarrow> string \<Rightarrow> string \<Rightarrow> string \<Rightarrow> TaskStatus list \<Rightarrow> string \<Rightarrow> string
    \<Rightarrow> heap \<Rightarrow> goerr + DisposableRequest" where
  "buildNotifyRequest c workflowName txID phase tasks notifyURL providerConfigName h =
     (case statusesJson h tasks of
        None \<Rightarrow> Inl cycleError
      | Some js \<Rightarrow> (case marshal c (JObj [(''phase'', JStr phase), (''tasks'', JArr js),
                             (''transactionID'', JStr txID), (''workflow'', JStr workflowName)]) of
          Inl e \<Rightarrow> Inl e
        | Inr payload \<Rightarrow>
            Inr \<lparr>dr_apiVersion = ''http.crossplane.io/v1alpha2'', dr_kind = ''DisposableRequest'',
                 dr_providerConfig = providerConfigName, dr_url = notifyURL, dr_method = ''POST'',
                 dr_body = payload,
                 dr_headers = [''Content-Type'' \<mapsto> [''application/json'']]\<rparr>))"

section \<open>Reading an observed request\<close>

definition taskStatusFromObserved :: "codec \<Rightarrow> string \<Rightarrow> ObservedRes \<Rightarrow> heap \<Rightarrow> TaskStatus \<times> heap" where
  "taskStatusFromObserved c name res h =
     (if or_error res \<noteq> [] then ((mkStatus name ''Failed'')\<lparr>st_error := or_error res\<rparr>, h)
      else if or_code res = 0 \<and> or_body res = [] then (mkStatus name ''Running'', h)
      else if sint (or_code res) < 200 \<or> sint (or_code res) \<ge> 300 then
        ((mkStatus name ''Failed'')\<lparr>st_statusCode := Some (ucast (or_code res)),
           st_error := ''endpoint returned HTTP '' @ dec_int (sint (or_code res)) @ '': '' @ or_body res\<rparr>, h)
      else if or_synced res = Some (JBool False) then
        ((mkStatus name ''Running'')\<lparr>st_statusCode := Some (ucast (or_code res))\<rparr>, h)
      else (case unmarshal_map c (or_body res) of
          Inl e \<Rightarrow> ((mkStatus name ''Failed'')\<lparr>st_statusCode := Some (ucast (or_code res)),
                     st_error := ''response body is not a JSON object''\<rparr>, h)
        | Inr out \<Rightarrow> (case load_map out h of (a, h1) \<Rightarrow>
            ((mkStatus name ''Succeeded'')\<lparr>st_statusCode := Some (ucast (or_code res)), st_output := a\<rparr>, h1))))"

fun depsReadyLoop :: "FieldMapping list \<Rightarrow> (string \<rightharpoonup> addr option) \<Rightarrow> bool" where
  "depsReadyLoop [] outputs = True"
| "depsReadyLoop (m # ms) outputs =
     (if outputs (fm_sourceTask m) = None then False else depsReadyLoop ms outputs)"

definition depsReady :: "TaskSpec \<Rightarrow> (string \<rightharpoonup> addr option) \<Rightarrow> bool" where
  "depsReady task outputs = depsReadyLoop (ts_inputFrom task) outputs"

fun allSucceeded :: "TaskStatus list \<Rightarrow> bool" where
  "allSucceeded [] = True"
| "allSucceeded (s # ss) = (if st_phase s \<noteq> ''Succeeded'' then False else allSucceeded ss)"

definition allDone :: "TaskStatus list \<Rightarrow> bool" where
  "allDone statuses = (allSucceeded statuses \<and> length statuses > 0)"

text \<open>\<open>json.Marshal\<close> of the statuses and \<open>json.Unmarshal\<close> into \<open>[]interface{}\<close>.\<close>

definition toUnstructuredSlice :: "codec \<Rightarrow> heap \<Rightarrow> TaskStatus list \<Rightarrow> goerr + json list" where
  "toUnstructuredSlice c h statuses = (case statusesJson h statuses of
     None \<Rightarrow> Inl cycleError
   | Some js \<Rightarrow> (case marshal c (JArr js) of
       Inl e \<Rightarrow> Inl e
     | Inr b \<Rightarrow> (case unmarshal c b of
         Inl e \<Rightarrow> Inl e
       | Inr (JArr out) \<Rightarrow> Inr out
       | Inr JNull \<Rightarrow> Inr []
       | Inr j \<Rightarrow> Inl (GoErr (''json: cannot unmarshal '' @ kindName j @ '' into Go value of type []interface {}'')))))"

section \<open>The loop over the tasks\<close>

record FnEnv =
  fe_codec :: codec
  fe_defaultHeaders :: "string \<rightharpoonup> string"
  fe_providerConfigName :: string
  fe_observed :: "string \<rightharpoonup> ObservedRes"

record LoopSt =
  ls_heap :: heap
  ls_desired :: "string \<rightharpoonup> DisposableRequest"
  ls_outputs :: "string \<rightharpoonup> addr option"
  ls_failedTasks :: "string \<Rightarrow> bool"
  ls_overallFailed :: bool
  ls_statuses :: "TaskStatus list"

definition initLoop :: "heap \<Rightarrow> LoopSt" where
  "initLoop h = \<lparr>ls_heap = h, ls_desired = Map.empty, ls_outputs = Map.empty,
                 ls_failedTasks = (\<lambda>_. False), ls_overallFailed = False, ls_statuses = []\<rparr>"

abbreviation addStatus :: "TaskStatus \<Rightarrow> LoopSt \<Rightarrow> LoopSt" where
  "addStatus st s \<equiv> s\<lparr>ls_statuses := ls_statuses s @ [st]\<rparr>"

abbreviation markFailed :: "string \<Rightarrow> LoopSt \<Rightarrow> LoopSt" where
  "markFailed n s \<equiv> s\<lparr>ls_failedTasks := (ls_failedTasks s)(n := True), ls_overallFailed := True\<rparr>"

text \<open>The branch of a request that cannot be built, the same before and after it exists.\<close>

definition buildFailed :: "TaskSpec \<Rightarrow> goerr \<Rightarrow> LoopSt \<Rightarrow> LoopSt" where
  "buildFailed task e s =
     markFailed (ts_name task) (addStatus ((mkStatus (ts_name task) ''Failed'')\<lparr>st_error := errText e\<rparr>) s)"

text \<open>The tail of the loop body for a task that exists and was rebuilt.\<close>

definition noteOutput :: "TaskSpec \<Rightarrow> TaskStatus \<Rightarrow> LoopSt \<Rightarrow> LoopSt" where
  "noteOutput task st s = (if st_phase st = ''Succeeded''
     then s\<lparr>ls_outputs := (ls_outputs s)(ts_name task \<mapsto> st_output st)\<rparr> else s)"

definition noteFailure :: "TaskSpec \<Rightarrow> TaskStatus \<Rightarrow> LoopSt \<Rightarrow> LoopSt" where
  "noteFailure task st s = (if st_phase st = ''Failed'' then markFailed (ts_name task) s else s)"

definition recordObserved :: "FnEnv \<Rightarrow> TaskSpec \<Rightarrow> ObservedRes \<Rightarrow> LoopSt \<Rightarrow> LoopSt" where
  "recordObserved env task obs s =
     (case taskStatusFromObserved (fe_codec env) (ts_name task) obs (ls_heap s) of (st, h) \<Rightarrow>
        addStatus st (noteFailure task st (noteOutput task st (s\<lparr>ls_heap := h\<rparr>))))"

definition runTask :: "FnEnv \<Rightarrow> TaskSpec \<Rightarrow> LoopSt \<Rightarrow> LoopSt" where
  "runTask env task s =
     (if list_ex (\<lambda>m. ls_failedTasks s (fm_sourceTask m)) (ts_inputFrom task)
      then addStatus (mkStatus (ts_name task) ''Skipped'') s
      else (case fe_observed env (ts_name task) of
        None \<Rightarrow>
          (if \<not> depsReady task (ls_outputs s)
           then addStatus (mkStatus (ts_name task) ''Pending'') s
           else (case buildDisposableRequest (fe_codec env) task (fe_defaultHeaders env)
                        (fe_providerConfigName env) (ls_outputs s) (ls_heap s) of
               (Inl e, h) \<Rightarrow> buildFailed task e (s\<lparr>ls_heap := h\<rparr>)
             | (Inr dr, h) \<Rightarrow>
                 addStatus (mkStatus (ts_name task) ''Pending'')
                   (s\<lparr>ls_heap := h, ls_desired := (ls_desired s)(ts_name task \<mapsto> dr)\<rparr>)))
      | Some obs \<Rightarrow>
          (case buildDisposableRequest (fe_codec env) task (fe_defaultHeaders env)
                  (fe_providerConfigName env) (ls_outputs s) (ls_heap s) of
             (Inl e, h) \<Rightarrow> buildFailed task e (s\<lparr>ls_heap := h\<rparr>)
           | (Inr dr, h) \<Rightarrow>
               recordObserved env task obs
                 (s\<lparr>ls_heap := h, ls_desired := (ls_desired s)(ts_name task \<mapsto> dr)\<rparr>))))"

fun runTasks :: "FnEnv \<Rightarrow> TaskSpec list \<Rightarrow> LoopSt \<Rightarrow> LoopSt" where
  "runTasks env [] s = s"
| "runTasks env (t # ts) s = runTasks env ts (runTask env t s)"

section \<open>\<open>RunFunction\<close>\<close>

definition overallPhase :: "LoopSt \<Rightarrow> string" where
  "overallPhase s = (if ls_overallFailed s then ''Failed''
                     else if allDone (ls_statuses s) then ''Succeeded'' else ''Running'')"

definition notifyKey :: string where
  "notifyKey = ''__notify__''"

text \<open>
  What the observed composite gives: its uid, \<open>spec.tasks\<close> (an error, or absent, or a slice),
  \<open>spec.notifyURL\<close> and its name, "" where absent.
\<close>

record Composite =
  xr_uid :: string
  xr_tasks :: "goerr + json list option"
  xr_notifyURL :: string
  xr_name :: string

text \<open>
  One request: the tag, the desired resources of the functions before this one and the context, which
  \<open>response.To\<close> copies, and the answers of the SDK's calls. \<open>rq_dxr\<close> is the content of the desired
  composite. \<open>rq_setNestedField\<close> and \<open>rq_setNestedSlice\<close> are the setters of apimachinery: they give their error and
  what they leave of the content (\<open>None\<close> for a nil slice).
\<close>

record FnRequest =
  rq_tag :: string
  rq_desired :: "string \<rightharpoonup> json"
  rq_context :: jobj
  rq_input :: "goerr + FnInput"
  rq_oxr :: "goerr + Composite"
  rq_observed :: "goerr + (string \<rightharpoonup> ObservedRes)"
  rq_setDesired :: "(string \<rightharpoonup> DisposableRequest) \<Rightarrow> goerr option"
  rq_dxr :: "goerr + jobj"
  rq_setNestedField :: "jobj \<Rightarrow> json \<Rightarrow> string list \<Rightarrow> goerr option \<times> jobj"
  rq_setNestedSlice :: "jobj \<Rightarrow> json list option \<Rightarrow> string list \<Rightarrow> goerr option \<times> jobj"
  rq_setDxr :: "jobj \<Rightarrow> goerr option"

datatype FnCondition = ConditionTrue string string | ConditionFalse string string

text \<open>The values handed to the setters; the error of \<open>toUnstructuredSlice\<close> leaves no tasks.\<close>

record CompositeStatus =
  xs_transactionID :: string
  xs_phase :: string
  xs_tasks :: "json list"

text \<open>
  \<open>rsp_passed\<close> are the desired resources copied from the request, \<open>rsp_desired\<close> those that
  \<open>SetDesiredComposedResources\<close> adds to them; \<open>rsp_composite\<close> is the desired composite as it is set.
\<close>

record FnResponse =
  rsp_tag :: string
  rsp_passed :: "string \<rightharpoonup> json"
  rsp_context :: jobj
  rsp_fatal :: "string option"
  rsp_desired :: "(string \<rightharpoonup> DisposableRequest) option"
  rsp_status :: "CompositeStatus option"
  rsp_composite :: "jobj option"
  rsp_condition :: "FnCondition option"

definition responseTo :: "FnRequest \<Rightarrow> FnResponse" where
  "responseTo req = \<lparr>rsp_tag = rq_tag req, rsp_passed = rq_desired req, rsp_context = rq_context req, rsp_fatal = None,
     rsp_desired = None, rsp_status = None, rsp_composite = None, rsp_condition = None\<rparr>"

definition Fatal :: "FnResponse \<Rightarrow> string \<Rightarrow> FnResponse" where
  "Fatal rsp msg = rsp\<lparr>rsp_fatal := Some msg\<rparr>"

text \<open>What the response desires under a name: what the function sets replaces what was passed on.\<close>

datatype desiredRes = Own DisposableRequest | Passed json

definition desiredAt :: "FnResponse \<Rightarrow> string \<Rightarrow> desiredRes option" where
  "desiredAt rsp n = (case rsp_desired rsp of
     Some d \<Rightarrow> (case d n of Some dr \<Rightarrow> Some (Own dr) | None \<Rightarrow> map_option Passed (rsp_passed rsp n))
   | None \<Rightarrow> map_option Passed (rsp_passed rsp n))"

text \<open>The desired map after the webhook step: unchanged when the phase is not final, when there
  is no URL or when the payload cannot be built.\<close>

definition withNotify :: "codec \<Rightarrow> Composite \<Rightarrow> string \<Rightarrow> string \<Rightarrow> LoopSt \<Rightarrow> (string \<rightharpoonup> DisposableRequest)" where
  "withNotify c xr phase providerConfigName s =
     (if (phase = ''Succeeded'' \<or> phase = ''Failed'') \<and> xr_notifyURL xr \<noteq> [] then
        (case buildNotifyRequest c (xr_name xr) (xr_uid xr) phase (ls_statuses s) (xr_notifyURL xr)
                providerConfigName (ls_heap s) of
           Inl e \<Rightarrow> ls_desired s
         | Inr nr \<Rightarrow> (ls_desired s)(notifyKey \<mapsto> nr))
      else ls_desired s)"

definition conditionFor :: "string \<Rightarrow> nat \<Rightarrow> FnCondition" where
  "conditionFor phase n =
     (if phase = ''Failed'' then ConditionFalse ''TaskFailed'' ''one or more tasks failed, see status.tasks''
      else if phase = ''Running'' then ConditionFalse ''Running'' ''workflow still in progress''
      else ConditionTrue ''Computed'' (''ran '' @ dec_int (int n) @ '' task(s) successfully''))"

text \<open>The three writes below \<open>status\<close>: each error is dropped.\<close>

definition withStatus :: "FnRequest \<Rightarrow> string \<Rightarrow> string \<Rightarrow> json list option \<Rightarrow> jobj \<Rightarrow> jobj" where
  "withStatus req uid phase rawFinal dc =
     snd (rq_setNestedSlice req
       (snd (rq_setNestedField req
         (snd (rq_setNestedField req dc (JStr uid) [''status'', ''transactionID'']))
         (JStr phase) [''status'', ''phase'']))
       rawFinal [''status'', ''tasks''])"

definition rawStatuses :: "codec \<Rightarrow> LoopSt \<Rightarrow> json list option" where
  "rawStatuses c s = (case toUnstructuredSlice c (ls_heap s) (ls_statuses s) of Inl e \<Rightarrow> None | Inr rawFinal \<Rightarrow> Some rawFinal)"

text \<open>The part of \<open>RunFunction\<close> after the loop.\<close>

definition publish :: "codec \<Rightarrow> FnRequest \<Rightarrow> Composite \<Rightarrow> nat \<Rightarrow> LoopSt \<Rightarrow> string
    \<Rightarrow> (string \<rightharpoonup> DisposableRequest) \<Rightarrow> FnResponse" where
  "publish c req xr n s phase desired =
     (case rq_setDesired req desired of
        Some e \<Rightarrow> Fatal (responseTo req) (''cannot set desired composed resources: '' @ errText e)
      | None \<Rightarrow>
     (case rq_dxr req of
        Inl e \<Rightarrow> Fatal ((responseTo req)\<lparr>rsp_desired := Some desired\<rparr>)
                   (''cannot get desired composite resource: '' @ errText e)
      | Inr dc \<Rightarrow>
     (case rq_setDxr req (withStatus req (xr_uid xr) phase (rawStatuses c s) dc) of
        Some e \<Rightarrow> Fatal ((responseTo req)\<lparr>rsp_desired := Some desired\<rparr>)
                   (''cannot set desired composite resource: '' @ errText e)
      | None \<Rightarrow>
          (responseTo req)\<lparr>rsp_desired := Some desired,
            rsp_status := Some \<lparr>xs_transactionID = xr_uid xr, xs_phase = phase,
              xs_tasks = (case rawStatuses c s of None \<Rightarrow> [] | Some rawFinal \<Rightarrow> rawFinal)\<rparr>,
            rsp_composite := Some (withStatus req (xr_uid xr) phase (rawStatuses c s) dc),
            rsp_condition := Some (conditionFor phase n)\<rparr>)))"

definition finishRun :: "codec \<Rightarrow> FnRequest \<Rightarrow> Composite \<Rightarrow> string \<Rightarrow> nat \<Rightarrow> LoopSt \<Rightarrow> FnResponse" where
  "finishRun c req xr providerConfigName n s =
     publish c req xr n s (overallPhase s) (withNotify c xr (overallPhase s) providerConfigName s)"

definition mkEnv :: "codec \<Rightarrow> FnInput \<Rightarrow> (string \<rightharpoonup> ObservedRes) \<Rightarrow> FnEnv" where
  "mkEnv c inp observed = \<lparr>fe_codec = c, fe_defaultHeaders = in_defaultHeaders inp,
     fe_providerConfigName = (if in_providerConfigName inp = [] then ''default'' else in_providerConfigName inp),
     fe_observed = observed\<rparr>"

definition RunFunction :: "codec \<Rightarrow> FnRequest \<Rightarrow> FnResponse" where
  "RunFunction c req =
     (case rq_input req of
        Inl e \<Rightarrow> Fatal (responseTo req) (''cannot get Function input: '' @ errText e)
      | Inr inp \<Rightarrow>
     (case rq_oxr req of
        Inl e \<Rightarrow> Fatal (responseTo req) (''cannot get observed composite resource: '' @ errText e)
      | Inr xr \<Rightarrow>
     (case xr_tasks xr of
        Inl e \<Rightarrow> Fatal (responseTo req) ''spec.tasks must contain at least one task''
      | Inr None \<Rightarrow> Fatal (responseTo req) ''spec.tasks must contain at least one task''
      | Inr (Some []) \<Rightarrow> Fatal (responseTo req) ''spec.tasks must contain at least one task''
      | Inr (Some rawTasks) \<Rightarrow>
     (case decodeTasks c rawTasks of
        Inl e \<Rightarrow> Fatal (responseTo req) (''spec.tasks does not match the expected shape: '' @ errText e)
      | Inr (tasks, h) \<Rightarrow>
     (case rq_observed req of
        Inl e \<Rightarrow> Fatal (responseTo req) (''cannot get observed composed resources: '' @ errText e)
      | Inr observed \<Rightarrow>
          finishRun c req xr (fe_providerConfigName (mkEnv c inp observed)) (length tasks)
            (runTasks (mkEnv c inp observed) tasks (initLoop h)))))))"

end
