(* ===== verification/Heap_Refine.thy ===== *)
theory Heap_Refine
  imports Go_Heap
begin

text \<open>
  The path operations of \<open>src/function-httptask/fn.go\<close>, which work on shared maps, refine those of
  \<open>src/internal/controller/jsonpath.go\<close> as long as nothing is shared. The abstraction is the
  predicate \<open>rep h v j A\<close>: in the heap \<open>h\<close> the value \<open>v\<close> is a tree of maps that holds the JSON value \<open>j\<close>
  and owns exactly the maps in \<open>A\<close>.
\<close>

section \<open>Ownership\<close>

inductive rep :: "heap \<Rightarrow> gval \<Rightarrow> json \<Rightarrow> addr set \<Rightarrow> bool"
  and rep_list :: "heap \<Rightarrow> gval list \<Rightarrow> json list \<Rightarrow> addr set \<Rightarrow> bool"
  and rep_kvs :: "heap \<Rightarrow> gval kvs \<Rightarrow> jobj \<Rightarrow> addr set \<Rightarrow> bool"
  for h :: heap where
  rep_nil: "rep h VNil JNull {}"
| rep_bool: "rep h (VBool b) (JBool b) {}"
| rep_num: "rep h (VNum n) (JNum n) {}"
| rep_str: "rep h (VStr s) (JStr s) {}"
| rep_arr: "rep_list h vs xs A \<Longrightarrow> rep h (VArr vs) (JArr xs) A"
| rep_map: "rep_kvs h (cells h a) m A \<Longrightarrow> kv_ok (cells h a) \<Longrightarrow> a \<notin> A \<Longrightarrow> a < next_addr h
    \<Longrightarrow> rep h (VMap a) (JObj m) (insert a A)"
| list_nil: "rep_list h [] [] {}"
| list_cons: "rep h v x A \<Longrightarrow> rep_list h vs xs B \<Longrightarrow> A \<inter> B = {} \<Longrightarrow> rep_list h (v # vs) (x # xs) (A \<union> B)"
| kvs_nil: "rep_kvs h [] [] {}"
| kvs_cons: "rep h v x A \<Longrightarrow> rep_kvs h vs xs B \<Longrightarrow> A \<inter> B = {} \<Longrightarrow> rep_kvs h ((k, v) # vs) ((k, x) # xs) (A \<union> B)"

inductive_cases rep_mapE: "rep h (VMap a) j A"
inductive_cases rep_objE: "rep h v (JObj m) A"
inductive_cases kvs_NilE: "rep_kvs h [] m A"
inductive_cases kvs_ConsE: "rep_kvs h (p # kvs) m A"

lemmas rep_inducts = rep_rep_list_rep_kvs.inducts

lemma rep_bound:
  "rep h v j A \<Longrightarrow> A \<subseteq> {..<next_addr h}"
  "rep_list h vs xs A \<Longrightarrow> A \<subseteq> {..<next_addr h}"
  "rep_kvs h kvs m A \<Longrightarrow> A \<subseteq> {..<next_addr h}"
  by (induction rule: rep_inducts) auto

text \<open>A value only depends on the maps it owns.\<close>

lemma rep_frame:
  "rep h v j A \<Longrightarrow> (\<forall>a \<in> A. cells h' a = cells h a) \<Longrightarrow> next_addr h \<le> next_addr h' \<Longrightarrow> rep h' v j A"
  "rep_list h vs xs A \<Longrightarrow> (\<forall>a \<in> A. cells h' a = cells h a) \<Longrightarrow> next_addr h \<le> next_addr h' \<Longrightarrow> rep_list h' vs xs A"
  "rep_kvs h kvs m A \<Longrightarrow> (\<forall>a \<in> A. cells h' a = cells h a) \<Longrightarrow> next_addr h \<le> next_addr h' \<Longrightarrow> rep_kvs h' kvs m A"
proof (induction rule: rep_inducts)
  case (rep_map a m A)
  then have "rep_kvs h' (cells h' a) m A" by simp
  then show ?case by (rule rep_rep_list_rep_kvs.rep_map) (use rep_map in auto)
qed (auto intro: rep_rep_list_rep_kvs.intros)

text \<open>Reading it back gives the JSON value.\<close>

lemma rep_dump:
  "rep h v j A \<Longrightarrow> seen \<inter> A = {} \<Longrightarrow> dump seen h v = Some j"
  "rep_list h vs xs A \<Longrightarrow> seen \<inter> A = {} \<Longrightarrow> dump_list seen h vs = Some xs"
  "rep_kvs h kvs m A \<Longrightarrow> seen \<inter> A = {} \<Longrightarrow> dump_kvs seen h kvs = Some m"
proof (induction arbitrary: seen and seen and seen rule: rep_inducts)
  case (rep_map a m A)
  then have "insert a seen \<inter> A = {}" "a \<notin> seen" by auto
  with rep_map show ?case by simp
next
  case (list_cons v x A vs xs B)
  then show ?case by (simp add: Int_Un_distrib)
next
  case (kvs_cons v x A vs xs B k)
  then show ?case by (simp add: Int_Un_distrib)
qed simp_all

lemma rep_readback: "rep h v j A \<Longrightarrow> readback h v = Some j"
  by (simp add: rep_dump)

lemma rep_keys: "rep_kvs h kvs m A \<Longrightarrow> map fst m = map fst kvs"
  by (induction kvs arbitrary: m A) (auto elim!: kvs_NilE kvs_ConsE)

lemma kv_ok_sorted: "kv_ok m \<longleftrightarrow> sorted_wrt (<) (map fst m)"
  by (induction m rule: kv_ok.induct) simp_all

lemma rep_get_None: "rep_kvs h kvs m A \<Longrightarrow> kv_get m k = None \<longleftrightarrow> kv_get kvs k = None"
  unfolding map_of_eq_None_iff by (metis rep_keys set_map)

lemma rep_kv_ok: "rep_kvs h kvs m A \<Longrightarrow> kv_ok kvs \<Longrightarrow> kv_ok m"
  by (simp add: kv_ok_sorted rep_keys)

section \<open>Members\<close>

text \<open>
  \<open>fits h k kvs m A\<close>: whatever happens to the heap outside of \<open>A\<close>, a value that owns none of \<open>A\<close> can be
  put under \<open>k\<close>.
\<close>

definition unchanged :: "addr set \<Rightarrow> heap \<Rightarrow> heap \<Rightarrow> bool" where
  "unchanged A h h' \<longleftrightarrow> (\<forall>a \<in> A. cells h' a = cells h a) \<and> next_addr h \<le> next_addr h'"

lemma unchanged_rep: "rep h v j A \<Longrightarrow> unchanged A h h' \<Longrightarrow> rep h' v j A"
  "rep_kvs h kvs m A \<Longrightarrow> unchanged A h h' \<Longrightarrow> rep_kvs h' kvs m A"
  by (simp_all add: unchanged_def rep_frame)

lemma unchanged_mono: "unchanged A h h' \<Longrightarrow> B \<subseteq> A \<Longrightarrow> unchanged B h h'"
  by (auto simp: unchanged_def)

lemma unchanged_trans: "unchanged A h h1 \<Longrightarrow> unchanged A h1 h2 \<Longrightarrow> unchanged A h h2"
  by (auto simp: unchanged_def)

lemma unchanged_refl [simp]: "unchanged A h h"
  by (simp add: unchanged_def)

definition fits :: "heap \<Rightarrow> string \<Rightarrow> gval kvs \<Rightarrow> jobj \<Rightarrow> addr set \<Rightarrow> bool" where
  "fits h k kvs m A \<longleftrightarrow> (\<forall>h' v x B. unchanged A h h' \<longrightarrow> rep h' v x B \<longrightarrow> B \<inter> A = {} \<longrightarrow>
     rep_kvs h' (kv_put k v kvs) (kv_put k x m) (B \<union> A))"

lemma fitsD: "fits h k kvs m A \<Longrightarrow> unchanged A h h' \<Longrightarrow> rep h' v x B \<Longrightarrow> B \<inter> A = {} \<Longrightarrow>
    rep_kvs h' (kv_put k v kvs) (kv_put k x m) (B \<union> A)"
  by (simp add: fits_def)

lemma fits_here:
  assumes "rep_kvs h kvs m A"
  shows "fits h k ((k, v) # kvs) ((k, x) # m) A" and "\<forall>l \<in> fst ` set kvs. k < l \<Longrightarrow> fits h k kvs m A"
proof -
  have new: "rep_kvs h' ((k, v) # kvs) ((k, x) # m) (B \<union> A)"
    if "unchanged A h h'" "rep h' v x B" "B \<inter> A = {}" for h' v x B
    using kvs_cons [OF that(2) unchanged_rep(2) [OF assms that(1)] that(3)] .
  show "fits h k ((k, v) # kvs) ((k, x) # m) A" using new by (simp add: fits_def)
  assume k: "\<forall>l \<in> fst ` set kvs. k < l"
  have "kv_put k w kvs = (k, w) # kvs" "kv_put k y m = (k, y) # m" for w y
    using k rep_keys [OF assms] by (cases kvs; cases m; force)+
  with new show "fits h k kvs m A" by (simp add: fits_def)
qed

lemma fits_later:
  assumes "rep h w y B" and "fits h k kvs m A" and "B \<inter> A = {}" and "l < k"
  shows "fits h k ((l, w) # kvs) ((l, y) # m) (B \<union> A)"
  unfolding fits_def
proof (intro allI impI)
  fix h' v x C
  assume u: "unchanged (B \<union> A) h h'" and v: "rep h' v x C" and d: "C \<inter> (B \<union> A) = {}"
  have "rep_kvs h' (kv_put k v kvs) (kv_put k x m) (C \<union> A)"
    by (rule fitsD [OF assms(2) unchanged_mono [OF u] v]) (use d in auto)
  from kvs_cons [OF unchanged_rep(1) [OF assms(1) unchanged_mono [OF u]] this, of l]
  have "rep_kvs h' ((l, w) # kv_put k v kvs) ((l, y) # kv_put k x m) (B \<union> (C \<union> A))"
    using d assms(3) by auto
  moreover have "B \<union> (C \<union> A) = C \<union> (B \<union> A)" by auto
  ultimately show "rep_kvs h' (kv_put k v ((l, w) # kvs)) (kv_put k x ((l, y) # m)) (C \<union> (B \<union> A))"
    using assms(4) by auto
qed

text \<open>
  The member \<open>k\<close> of an owned map: what it holds and owns, and that another value fits in its place.
\<close>

lemma kvs_member:
  assumes "rep_kvs h kvs m A" and "kv_ok kvs"
  shows "\<exists>A2. fits h k kvs m A2 \<and> A2 \<subseteq> A \<and>
    (case kv_get kvs k of
       None \<Rightarrow> kv_get m k = None
     | Some v \<Rightarrow> \<exists>x A1. kv_get m k = Some x \<and> rep h v x A1 \<and> A = A1 \<union> A2 \<and> A1 \<inter> A2 = {})"
  using assms
proof (induction kvs arbitrary: m A)
  case Nil
  then show ?case using fits_here(2) [OF Nil(1), of k] by (auto elim!: kvs_NilE)
next
  case (Cons p kvs)
  from Cons.prems(1) obtain l w y B A' m' where p: "p = (l, w)" "m = (l, y) # m'" "A = B \<union> A'" "B \<inter> A' = {}"
    and w: "rep h w y B" and r: "rep_kvs h kvs m' A'"
    by (elim kvs_ConsE)
  consider "k = l" | "k < l" | "l < k" by fastforce
  then show ?case
  proof cases
    case 1
    with p w fits_here(1) [OF r, of k w y] show ?thesis by (intro exI [of _ A']) auto
  next
    case 2
    then have k: "\<forall>l \<in> fst ` set (p # kvs). k < l" using Cons.prems(2) p(1) by fastforce
    then have none: "kv_get (p # kvs) k = None" by (rule kv_get_min)
    then have "kv_get m k = None" unfolding rep_get_None [OF Cons.prems(1)] .
    with none fits_here(2) [OF Cons.prems(1) k] show ?thesis by (intro exI [of _ A]) simp
  next
    case 3
    from Cons.IH [OF r] Cons.prems(2) p(1) obtain A2 where
      f: "fits h k kvs m' A2" "A2 \<subseteq> A'" and c: "case kv_get kvs k of None \<Rightarrow> kv_get m' k = None
        | Some v \<Rightarrow> \<exists>x A1. kv_get m' k = Some x \<and> rep h v x A1 \<and> A' = A1 \<union> A2 \<and> A1 \<inter> A2 = {}"
      by auto
    have "fits h k (p # kvs) m (B \<union> A2)"
      unfolding p(1,2) by (rule fits_later [OF w f(1) _ 3]) (use p(4) f(2) in auto)
    moreover have "case kv_get (p # kvs) k of None \<Rightarrow> kv_get m k = None
        | Some v \<Rightarrow> \<exists>x A1. kv_get m k = Some x \<and> rep h v x A1 \<and> A = A1 \<union> (B \<union> A2) \<and> A1 \<inter> (B \<union> A2) = {}"
    proof (cases "kv_get kvs k")
      case None
      with c p 3 show ?thesis by auto
    next
      case (Some v)
      with c obtain x A1 where x: "kv_get m' k = Some x" "rep h v x A1" "A' = A1 \<union> A2" "A1 \<inter> A2 = {}" by auto
      with Some p 3 show ?thesis by (auto intro!: exI [of _ x] exI [of _ A1])
    qed
    ultimately show ?thesis using f(2) p(3) by (intro exI [of _ "B \<union> A2"]) auto
  qed
qed

section \<open>\<open>setJSONField\<close>\<close>

lemma fits_unchanged: "fits h k kvs m A \<Longrightarrow> unchanged A h h1 \<Longrightarrow> fits h1 k kvs m A"
  unfolding fits_def by (meson unchanged_trans)

text \<open>One turn of the loop: the member that is an owned map, or a fresh map in its place.\<close>

lemma fn_next_rep:
  assumes "rep h (VMap a) (JObj m) A" and "fn_next h a p = (nxt, h1)"
  obtains A1 A2 where "rep h1 (VMap nxt) (JObj (nextObj m p)) A1" "fits h1 p (cells h a) m A2"
    "cells h1 a = kv_put p (VMap nxt) (cells h a)" "kv_ok (cells h a)" "a \<notin> A1 \<union> A2" "A1 \<inter> A2 = {}"
    "A2 \<subseteq> A" "A1 \<subseteq> A \<union> {next_addr h..}" "unchanged ({..<next_addr h} - {a}) h h1" "a \<in> A"
proof -
  obtain A0 where A: "A = insert a A0" "a \<notin> A0" "a < next_addr h" and k: "rep_kvs h (cells h a) m A0"
    and ok: "kv_ok (cells h a)"
    using assms(1) by (auto elim: rep_mapE)
  obtain A2 where f: "fits h p (cells h a) m A2" "A2 \<subseteq> A0" and c: "case kv_get (cells h a) p of
       None \<Rightarrow> kv_get m p = None
     | Some v \<Rightarrow> \<exists>x A1. kv_get m p = Some x \<and> rep h v x A1 \<and> A0 = A1 \<union> A2 \<and> A1 \<inter> A2 = {}"
    using kvs_member [OF k ok] by auto
  have A2: "A2 \<subseteq> {..<next_addr h} - {a}" using rep_bound(3) [OF k] f(2) A(2) by auto
  show thesis
  proof (cases "\<exists>b. kv_get (cells h a) p = Some (VMap b)")
    case True
    then obtain b where b: "kv_get (cells h a) p = Some (VMap b)" by blast
    with assms(2) have n: "nxt = b" "h1 = h" by (simp_all add: fn_next_def)
    from c b obtain x A1 where x: "kv_get m p = Some x" "rep h (VMap b) x A1" "A0 = A1 \<union> A2" "A1 \<inter> A2 = {}" by auto
    from x(2) obtain m' where "x = JObj m'" by (auto elim: rep_mapE)
    with x(1,2) have "rep h1 (VMap nxt) (JObj (nextObj m p)) A1" by (simp add: n nextObj_def)
    then show thesis
      by (rule that [of A1 A2]) (use A x f b ok in \<open>auto simp: n kv_put_same\<close>)
  next
    case False
    then have n: "nxt = next_addr h" "h1 = map_write (snd (new_map h)) a p (VMap nxt)"
      using assms(2) by (auto simp: fn_next_def new_map_def split: option.splits gval.splits)
    have "nextObj m p = []"
      using False c by (auto simp: nextObj_def split: option.splits json.splits elim!: rep_objE)
    moreover have h1: "cells h1 nxt = []" "cells h1 a = kv_put p (VMap nxt) (cells h a)" "next_addr h1 = Suc (next_addr h)"
      "unchanged ({..<next_addr h} - {a}) h h1"
      using A(3) by (auto simp: n new_map_def map_write_def unchanged_def)
    moreover have "rep h1 (VMap nxt) (JObj []) {nxt}"
      using rep_map [of h1 nxt "[]" "{}"] h1(1,3) n(1) by (simp add: kvs_nil)
    moreover have "fits h1 p (cells h a) m A2" by (rule fits_unchanged [OF f(1) unchanged_mono [OF h1(4) A2]])
    ultimately show thesis
      by (intro that [of "{nxt}" A2]) (use A A2 f(2) ok in \<open>auto simp: n(1)\<close>)
  qed
qed

text \<open>
  Writing an owned value into an owned map is writing it into the JSON object; maps that existed
  and are not owned by the map are not touched.
\<close>

lemma fn_setPath_rep:
  assumes "rep h (VMap a) (JObj m) A" and "rep h v j B" and "A \<inter> B = {}" and "ps \<noteq> []"
  shows "\<exists>A'. rep (fn_setPath h a ps v) (VMap a) (JObj (setPath m ps j)) A'
    \<and> A' \<subseteq> A \<union> B \<union> {next_addr h..} \<and> unchanged ({..<next_addr h} - A) h (fn_setPath h a ps v)"
  using assms
proof (induction h a ps v arbitrary: m A rule: fn_setPath.induct)
  case (2 h a p v)
  obtain A0 where A: "A = insert a A0" "a \<notin> A0" "a < next_addr h" and k: "rep_kvs h (cells h a) m A0"
    and ok: "kv_ok (cells h a)"
    using "2.prems"(1) by (auto elim: rep_mapE)
  let ?h = "map_write h a p v"
  have u: "unchanged (- {a}) h ?h" by (simp add: unchanged_def map_write_def)
  obtain A2 where f: "fits h p (cells h a) m A2" "A2 \<subseteq> A0" using kvs_member [OF k ok] by blast
  have "rep ?h v j B" by (rule unchanged_rep(1) [OF "2.prems"(2) unchanged_mono [OF u]]) (use A "2.prems"(3) in auto)
  from fitsD [OF f(1) unchanged_mono [OF u] this]
  have "rep_kvs ?h (kv_put p v (cells h a)) (kv_put p j m) (B \<union> A2)"
    using A f(2) "2.prems"(3) by auto
  then have "rep ?h (VMap a) (JObj (kv_put p j m)) (insert a (B \<union> A2))"
    by (intro rep_map) (use A f(2) ok "2.prems"(3) in \<open>auto simp: map_write_def\<close>)
  moreover have "unchanged ({..<next_addr h} - A) h ?h" by (rule unchanged_mono [OF u]) (use A in auto)
  ultimately show ?case using A f(2) by (intro exI [of _ "insert a (B \<union> A2)"]) auto
next
  case (3 h a p q ps v)
  obtain nxt h1 where n: "fn_next h a p = (nxt, h1)" by fastforce
  obtain A1 A2 where r: "rep h1 (VMap nxt) (JObj (nextObj m p)) A1" and f: "fits h1 p (cells h a) m A2"
    and c: "cells h1 a = kv_put p (VMap nxt) (cells h a)" "kv_ok (cells h a)"
    and d: "a \<notin> A1 \<union> A2" "A1 \<inter> A2 = {}" "A2 \<subseteq> A" "A1 \<subseteq> A \<union> {next_addr h..}" "a \<in> A"
    and u1: "unchanged ({..<next_addr h} - {a}) h h1"
    by (rule fn_next_rep [OF "3.prems"(1) n])
  have bd: "B \<subseteq> {..<next_addr h}" "A \<subseteq> {..<next_addr h}" using rep_bound(1) "3.prems"(1,2) by blast+
  have le: "next_addr h \<le> next_addr h1" using u1 by (simp add: unchanged_def)
  let ?h2 = "fn_setPath h1 nxt (q # ps) v"
  have "rep h1 v j B" by (rule unchanged_rep(1) [OF "3.prems"(2) unchanged_mono [OF u1]]) (use bd d "3.prems"(3) in auto)
  moreover have "A1 \<inter> B = {}" using bd d(4) "3.prems"(3) by fastforce
  ultimately obtain A' where
    r2: "rep ?h2 (VMap nxt) (JObj (setPath (nextObj m p) (q # ps) j)) A'"
    and A': "A' \<subseteq> A1 \<union> B \<union> {next_addr h1..}" and u2: "unchanged ({..<next_addr h1} - A1) h1 ?h2"
    using "3.IH" [OF n [symmetric] r] by auto
  have "x \<in> A1" if "x \<in> A" "x \<in> A'" for x
  proof -
    have "x < next_addr h1" "x \<notin> B" using that(1) bd(2) le "3.prems"(3) by fastforce+
    then show ?thesis using that(2) A' by auto
  qed
  then have out: "a \<notin> A'" "A' \<inter> A2 = {}" using d by blast+
  have "rep_kvs ?h2 (kv_put p (VMap nxt) (cells h a)) (kv_put p (JObj (setPath (nextObj m p) (q # ps) j)) m) (A' \<union> A2)"
    by (rule fitsD [OF f unchanged_mono [OF u2] r2 out(2)]) (use d bd le in auto)
  moreover have "cells ?h2 a = kv_put p (VMap nxt) (cells h a)" "next_addr h1 \<le> next_addr ?h2"
    using u2 c d bd le by (auto simp: unchanged_def)
  ultimately have "rep ?h2 (VMap a) (JObj (setPath m (p # q # ps) j)) (insert a (A' \<union> A2))"
    using rep_map [of ?h2 a _ "A' \<union> A2"] out d bd le c(2) by auto
  moreover have "unchanged ({..<next_addr h} - A) h ?h2"
    by (rule unchanged_trans [OF unchanged_mono [OF u1] unchanged_mono [OF u2]]) (use d le in auto)
  ultimately show ?case using A' d le n by (intro exI [of _ "insert a (A' \<union> A2)"]) auto
qed simp

section \<open>\<open>getJSONField\<close>\<close>

lemma rep_not_map: "rep h v x A \<Longrightarrow> (\<And>a. v \<noteq> VMap a) \<Longrightarrow> x \<noteq> JObj m"
  by (auto elim: rep_objE)

text \<open>Reading an owned value along a path: the same value, owned by the part that was read.\<close>

lemma fn_getPath_rep:
  "rep h v j A \<Longrightarrow> case getPath j ps of
     None \<Rightarrow> fn_getPath h v ps = None
   | Some x \<Rightarrow> \<exists>w B. fn_getPath h v ps = Some w \<and> rep h w x B \<and> B \<subseteq> A"
proof (induction ps arbitrary: v j A)
  case (Cons p ps)
  show ?case
  proof (cases "\<exists>a. v = VMap a")
    case True
    then obtain a m A0 where v: "v = VMap a" "j = JObj m" "A = insert a A0" and k: "rep_kvs h (cells h a) m A0"
      and ok: "kv_ok (cells h a)"
      using Cons.prems by (auto elim: rep_mapE)
    from kvs_member [OF k ok] obtain A2 where c: "case kv_get (cells h a) p of
       None \<Rightarrow> kv_get m p = None
     | Some v \<Rightarrow> \<exists>x A1. kv_get m p = Some x \<and> rep h v x A1 \<and> A0 = A1 \<union> A2 \<and> A1 \<inter> A2 = {}" by blast
    show ?thesis
    proof (cases "kv_get (cells h a) p")
      case None
      with c v show ?thesis by simp
    next
      case (Some w)
      with c obtain x A1 where x: "kv_get m p = Some x" "rep h w x A1" "A1 \<subseteq> A" using v(3) by auto
      from Cons.IH [OF x(2)] x Some v show ?thesis by (auto split: option.splits)
    qed
  next
    case False
    then have "fn_getPath h v (p # ps) = None" by (cases v) auto
    moreover have "getPath j (p # ps) = None" using rep_not_map [OF Cons.prems] False by (cases j) auto
    ultimately show ?thesis by simp
  qed
qed auto

section \<open>Decoding\<close>

lemma load_rep:
  "load j h = (v, h') \<Longrightarrow> wf_json j \<Longrightarrow>
     \<exists>A. rep h' v j A \<and> A \<subseteq> {next_addr h..} \<and> unchanged {..<next_addr h} h h'"
  "load_list xs h = (vs, h') \<Longrightarrow> \<forall>x \<in> set xs. wf_json x \<Longrightarrow>
     \<exists>A. rep_list h' vs xs A \<and> A \<subseteq> {next_addr h..} \<and> unchanged {..<next_addr h} h h'"
  "load_kvs m h = (kvs, h') \<Longrightarrow> \<forall>x \<in> set m. wf_json (snd x) \<Longrightarrow>
     \<exists>A. rep_kvs h' kvs m A \<and> A \<subseteq> {next_addr h..} \<and> unchanged {..<next_addr h} h h'"
proof (induction j h and xs h and m h arbitrary: v h' and vs h' and kvs h' rule: load_load_list_load_kvs.induct)
  case (5 xs h)
  then show ?case by (auto split: prod.splits intro: rep_arr)
next
  case (6 m h)
  obtain kvs h1 where l: "load_kvs m h = (kvs, h1)" by fastforce
  with 6 obtain A where A: "rep_kvs h1 kvs m A" "A \<subseteq> {next_addr h..}" "unchanged {..<next_addr h} h h1" by auto
  from "6.prems"(1) l have v: "v = VMap (next_addr h1)" and h': "cells h' = (cells h1)(next_addr h1 := kvs)" "next_addr h' = Suc (next_addr h1)"
    by (auto simp: new_map_def set_cell_def)
  have u: "unchanged {..<next_addr h1} h1 h'" by (simp add: unchanged_def h')
  then have "rep_kvs h' kvs m A" by (rule unchanged_rep(2) [OF A(1) unchanged_mono]) (rule rep_bound(3) [OF A(1)])
  moreover have "kv_ok kvs" using "6.prems"(2) rep_keys [OF A(1)] by (simp add: kv_ok_sorted)
  ultimately have "rep h' v (JObj m) (insert (next_addr h1) A)"
    unfolding v using rep_bound(3) [OF A(1)] by (intro rep_map) (auto simp: h')
  moreover have "next_addr h \<le> next_addr h1" using A(3) by (simp add: unchanged_def)
  ultimately show ?case
    using A(2) unchanged_trans [OF A(3) unchanged_mono [OF u]] by (intro exI [of _ "insert (next_addr h1) A"]) auto
next
  case (8 x xs h)
  obtain v1 h1 vs2 h2 where l: "load x h = (v1, h1)" "load_list xs h1 = (vs2, h2)" by fastforce
  obtain A where A: "rep h1 v1 x A" "A \<subseteq> {next_addr h..}" "unchanged {..<next_addr h} h h1"
    using "8.IH"(1) [OF l(1)] "8.prems"(2) by auto
  obtain B where B: "rep_list h2 vs2 xs B" "B \<subseteq> {next_addr h1..}" "unchanged {..<next_addr h1} h1 h2"
    using "8.IH"(2) [OF l(1) [symmetric] l(2)] "8.prems"(2) by auto
  have "rep h2 v1 x A" by (rule unchanged_rep(1) [OF A(1) unchanged_mono [OF B(3)]]) (rule rep_bound(1) [OF A(1)])
  moreover have "A \<inter> B = {}" using rep_bound(1) [OF A(1)] B(2) by fastforce
  moreover have "next_addr h \<le> next_addr h1" using A(3) by (simp add: unchanged_def)
  ultimately show ?case using "8.prems"(1) l A(2) B(1,2) unchanged_trans [OF A(3) unchanged_mono [OF B(3)]]
    by (intro exI [of _ "A \<union> B"]) (auto intro: list_cons)
next
  case (10 k x m h)
  obtain v1 h1 kvs2 h2 where l: "load x h = (v1, h1)" "load_kvs m h1 = (kvs2, h2)" by fastforce
  obtain A where A: "rep h1 v1 x A" "A \<subseteq> {next_addr h..}" "unchanged {..<next_addr h} h h1"
    using "10.IH"(1) [OF l(1)] "10.prems"(2) by auto
  obtain B where B: "rep_kvs h2 kvs2 m B" "B \<subseteq> {next_addr h1..}" "unchanged {..<next_addr h1} h1 h2"
    using "10.IH"(2) [OF l(1) [symmetric] l(2)] "10.prems"(2) by auto
  have "rep h2 v1 x A" by (rule unchanged_rep(1) [OF A(1) unchanged_mono [OF B(3)]]) (rule rep_bound(1) [OF A(1)])
  moreover have "A \<inter> B = {}" using rep_bound(1) [OF A(1)] B(2) by fastforce
  moreover have "next_addr h \<le> next_addr h1" using A(3) by (simp add: unchanged_def)
  ultimately show ?case using "10.prems"(1) l A(2) B(1,2) unchanged_trans [OF A(3) unchanged_mono [OF B(3)]]
    by (intro exI [of _ "A \<union> B"]) (auto intro: kvs_cons)
qed (auto intro: rep_rep_list_rep_kvs.intros)

section \<open>The refinement\<close>

text \<open>
  C24. Where nothing is shared, \<open>setJSONField\<close> of fn.go on maps is \<open>setJSONField\<close> of jsonpath.go on
  values: writing a value the map does not contain changes what the map holds in the same way and no
  other map that existed.
\<close>

theorem fn_setJSONField_refines:
  assumes "rep h (VMap a) (JObj m) A" and "rep h v j B" and "A \<inter> B = {}"
  shows "readback (fn_setJSONField h a path v) (VMap a) = Some (JObj (setJSONField m path j))
    \<and> (\<forall>b < next_addr h. b \<notin> A \<longrightarrow> cells (fn_setJSONField h a path v) b = cells h b)"
  using fn_setPath_rep [OF assms split_on_nonempty, of "CHR ''.''" path]
  by (auto simp: fn_setJSONField_def setJSONField_def unchanged_def dest: rep_readback)

definition demoHeap :: heap where
  "demoHeap = snd (load (JObj [(''a'', JObj [])]) empty_heap)"

lemma demoHeap_rep: "rep demoHeap (VMap 1) (JObj [(''a'', JObj [])]) {0, 1}"
proof -
  have c: "cells demoHeap 1 = [(''a'', VMap 0)]" "cells demoHeap 0 = []" "next_addr demoHeap = 2"
    by (simp_all add: demoHeap_def empty_heap_def new_map_def set_cell_def)
  have "rep demoHeap (VMap 0) (JObj []) {0}"
    using rep_map [of demoHeap 0 "[]" "{}"] by (simp add: c kvs_nil)
  from kvs_cons [OF this kvs_nil, of "''a''"] have "rep_kvs demoHeap (cells demoHeap 1) [(''a'', JObj [])] {0}"
    unfolding c(1) by simp
  from rep_map [OF this] have "rep demoHeap (VMap 1) (JObj [(''a'', JObj [])]) (insert 1 {0})"
    unfolding c(1,3) by simp
  then show ?thesis by (simp add: insert_commute)
qed

theorem fn_setJSONField_refines_witness:
  "readback (fn_setJSONField demoHeap 1 ''a.b'' VNil) (VMap 1) = Some (JObj (setJSONField [(''a'', JObj [])] ''a.b'' JNull))"
  using fn_setJSONField_refines [OF demoHeap_rep rep_nil] by simp

end
