(* ===== verification/Fn_Body.thy ===== *)
theory Fn_Body
  imports Fn_Run Heap_Refine
begin

text \<open>
  The request body that \<open>src/function-httptask/fn.go\<close> builds, on values: when the mapped fields are
  not themselves objects, copying the input and writing field after field into maps that are shared with
  the outputs gives the body one would compute on JSON values, and leaves every output as it was.
\<close>

section \<open>The body on values\<close>

fun mergeFields :: "(string \<rightharpoonup> jobj) \<Rightarrow> FieldMapping list \<Rightarrow> jobj \<Rightarrow> jobj option" where
  "mergeFields outs [] b = Some b"
| "mergeFields outs (m # ms) b = (case outs (fm_sourceTask m) of
     None \<Rightarrow> None
   | Some out \<Rightarrow> (case getJSONField out (fm_sourceField m) of
       None \<Rightarrow> None
     | Some v \<Rightarrow> mergeFields outs ms (setJSONField b (fm_targetField m) v)))"

text \<open>A value without objects in it.\<close>

fun flat :: "json \<Rightarrow> bool" where
  "flat (JObj m) = False"
| "flat (JArr xs) = list_all flat xs"
| "flat _ = True"

lemma flat_owns_nothing:
  "rep h v j A \<Longrightarrow> flat j \<Longrightarrow> A = {}"
  "rep_list h vs xs A \<Longrightarrow> list_all flat xs \<Longrightarrow> A = {}"
  "rep_kvs h kvs m A \<Longrightarrow> True"
  by (induction rule: rep_inducts) auto

text \<open>
  The outputs the loop has gathered hold the objects \<open>outs\<close>, and own none of the maps in \<open>A\<close>. A nil map
  reads like an empty object.
\<close>

definition outputs_hold :: "heap \<Rightarrow> (string \<rightharpoonup> addr option) \<Rightarrow> (string \<rightharpoonup> jobj) \<Rightarrow> addr set \<Rightarrow> bool" where
  "outputs_hold h outputs outs A \<longleftrightarrow> (\<forall>n. case outputs n of
     None \<Rightarrow> outs n = None
   | Some None \<Rightarrow> outs n = Some []
   | Some (Some out) \<Rightarrow> \<exists>m C. outs n = Some m \<and> rep h (VMap out) (JObj m) C \<and> C \<inter> A = {})"

lemma outputs_holdD:
  assumes "outputs_hold h outputs outs A"
  shows "outputs n = None \<Longrightarrow> outs n = None" and "outputs n = Some None \<Longrightarrow> outs n = Some []"
    and "outputs n = Some (Some out) \<Longrightarrow> \<exists>m C. outs n = Some m \<and> rep h (VMap out) (JObj m) C \<and> C \<inter> A = {}"
  using spec [OF assms [unfolded outputs_hold_def], of n] by simp_all

lemma outputs_hold_step:
  assumes "outputs_hold h outputs outs A" and "unchanged ({..<next_addr h} - A) h h'" and "A' \<subseteq> A \<union> {next_addr h..}"
  shows "outputs_hold h' outputs outs A'"
  unfolding outputs_hold_def
proof
  fix n
  show "case outputs n of None \<Rightarrow> outs n = None | Some None \<Rightarrow> outs n = Some []
      | Some (Some out) \<Rightarrow> \<exists>m C. outs n = Some m \<and> rep h' (VMap out) (JObj m) C \<and> C \<inter> A' = {}"
  proof (cases "\<exists>out. outputs n = Some (Some out)")
    case True
    then obtain out where o: "outputs n = Some (Some out)" by blast
    with assms(1) obtain m C where m: "outs n = Some m" "rep h (VMap out) (JObj m) C" "C \<inter> A = {}"
      using outputs_holdD(3) by metis
    have C: "C \<subseteq> {..<next_addr h} - A" using rep_bound(1) [OF m(2)] m(3) by auto
    with m(2) assms(2) have "rep h' (VMap out) (JObj m) C" by (blast intro: unchanged_rep unchanged_mono)
    moreover have "C \<inter> A' = {}" using C assms(3) by fastforce
    ultimately show ?thesis using o m(1) by auto
  next
    case False
    then have "outputs n = None \<or> outputs n = Some None" by (metis not_None_eq)
    then show ?thesis using outputs_holdD(1,2) [OF assms(1)] by (elim disjE) simp_all
  qed
qed

text \<open>Reading a field of an output.\<close>

lemma output_field:
  assumes "outputs_hold h outputs outs A" and "outs n = Some out"
  obtains src where "outputs n = Some src"
    "case getJSONField out f of
       None \<Rightarrow> fn_getJSONField h src f = None
     | Some j \<Rightarrow> \<exists>v B. fn_getJSONField h src f = Some v \<and> rep h v j B"
proof -
  consider "outputs n = Some None" "out = []" | a C where "outputs n = Some (Some a)" "rep h (VMap a) (JObj out) C"
    using outputs_holdD [OF assms(1)] assms(2) by (metis not_None_eq option.inject)
  then show thesis
  proof cases
    case 1
    then show thesis by (intro that [of None]) (simp_all add: fn_getJSONField_def getJSONField_def)
  next
    case 2
    from fn_getPath_rep [OF 2(2), of "split_on CHR ''.'' f"] 2(1) show thesis
      by (intro that [of "Some a"]) (auto simp: fn_getJSONField_def getJSONField_def split: option.splits)
  qed
qed

section \<open>The loop\<close>

abbreviation mapped_flat :: "(string \<rightharpoonup> jobj) \<Rightarrow> FieldMapping list \<Rightarrow> bool" where
  "mapped_flat outs ms \<equiv> \<forall>m \<in> set ms. \<forall>out j. outs (fm_sourceTask m) = Some out \<longrightarrow>
     getJSONField out (fm_sourceField m) = Some j \<longrightarrow> flat j"

lemma applyInputFrom_rep:
  assumes "rep h (VMap body) (JObj b) A" and "outputs_hold h outputs outs A" and "mapped_flat outs ms"
    and "mergeFields outs ms b = Some b'"
  shows "\<exists>h' A'. applyInputFrom name outputs body ms h = (None, h') \<and> rep h' (VMap body) (JObj b') A'
    \<and> outputs_hold h' outputs outs A'"
  using assms
proof (induction ms arbitrary: h b A)
  case (Cons m ms)
  from Cons.prems(4) obtain out j where out: "outs (fm_sourceTask m) = Some out" "getJSONField out (fm_sourceField m) = Some j"
    and rest: "mergeFields outs ms (setJSONField b (fm_targetField m) j) = Some b'"
    by (auto split: option.splits)
  obtain src where src0: "outputs (fm_sourceTask m) = Some src"
    "\<exists>v B. fn_getJSONField h src (fm_sourceField m) = Some v \<and> rep h v j B"
    by (rule output_field [OF Cons.prems(2) out(1), of "fm_sourceField m"]) (simp add: out(2))
  then obtain v B where src: "outputs (fm_sourceTask m) = Some src" "fn_getJSONField h src (fm_sourceField m) = Some v" "rep h v j B"
    by blast
  have "flat j" using Cons.prems(3) out by simp
  with src(3) have v: "rep h v j {}" using flat_owns_nothing(1) by metis
  let ?h = "fn_setJSONField h body (fm_targetField m) v"
  from fn_setPath_rep [OF Cons.prems(1) v, of "split_on CHR ''.'' (fm_targetField m)"] obtain A' where
    r: "rep ?h (VMap body) (JObj (setJSONField b (fm_targetField m) j)) A'"
    and A': "A' \<subseteq> A \<union> {next_addr h..}" "unchanged ({..<next_addr h} - A) h ?h"
    by (auto simp: fn_setJSONField_def setJSONField_def)
  from Cons.IH [OF r outputs_hold_step [OF Cons.prems(2) A'(2,1)] _ rest] Cons.prems(3) src(1,2)
  show ?case by simp
qed auto

section \<open>The request\<close>

lemma fold_map_write: "fold (\<lambda>(k, v) h. map_write h a k v) bs h = h\<lparr>cells := (cells h)(a := fold (\<lambda>(k, v). kv_put k v) bs (cells h a))\<rparr>"
  by (induction bs arbitrary: h) (auto simp: map_write_def)

text \<open>The copy of the input is a new map over the same members.\<close>

definition input_holds :: "heap \<Rightarrow> addr option \<Rightarrow> jobj \<Rightarrow> addr set \<Rightarrow> bool" where
  "input_holds h inp m A \<longleftrightarrow> (case inp of None \<Rightarrow> m = [] \<and> A = {} | Some a \<Rightarrow> rep h (VMap a) (JObj m) A)"

lemma copyInput_rep:
  assumes "input_holds h inp m A" and "copyInput inp h = (body, h1)"
  shows "\<exists>A'. rep h1 (VMap body) (JObj m) A' \<and> A' \<subseteq> A \<union> {next_addr h..} \<and> unchanged {..<next_addr h} h h1"
proof -
  define kvs where "kvs = (case inp of None \<Rightarrow> [] | Some a \<Rightarrow> cells h a)"
  have "\<exists>A0 \<subseteq> A. rep_kvs h kvs m A0 \<and> kv_ok kvs"
    using assms(1) by (cases inp) (auto simp: kvs_def input_holds_def kvs_nil elim!: rep_mapE)
  then obtain A0 where A0: "A0 \<subseteq> A" "rep_kvs h kvs m A0" "kv_ok kvs" by blast
  have h1: "body = next_addr h" "cells h1 = (cells h)(body := kvs)" "next_addr h1 = Suc (next_addr h)"
    using assms(2) kv_of_same [OF A0(3)]
    by (auto simp: copyInput_def new_map_def fold_map_write kv_of_def kvs_def [symmetric])
  have u: "unchanged {..<next_addr h} h h1" by (simp add: unchanged_def h1)
  have bd: "A0 \<subseteq> {..<next_addr h}" by (rule rep_bound(3) [OF A0(2)])
  have "rep_kvs h1 (cells h1 body) m A0"
    using unchanged_rep(2) [OF A0(2) unchanged_mono [OF u bd]] by (simp add: h1)
  then have "rep h1 (VMap body) (JObj m) (insert body A0)"
    by (rule rep_map) (use A0(3) bd h1 in auto)
  then show ?thesis using A0(1) u h1(1) by (intro exI [of _ "insert body A0"]) auto
qed

lemma request_body_on_values:
  assumes "input_holds h (ts_input task) m A" and "outputs_hold h outputs outs A"
    and "mapped_flat outs (ts_inputFrom task)" and "mergeFields outs (ts_inputFrom task) m = Some b"
    and "marshal c (JObj b) = Inr bytes"
  shows "\<exists>dr h'. buildDisposableRequest c task hdrs pc outputs h = (Inr dr, h') \<and> dr_body dr = bytes
    \<and> outputs_hold h' outputs outs {}"
proof -
  obtain body h1 where cp: "copyInput (ts_input task) h = (body, h1)" by fastforce
  from copyInput_rep [OF assms(1) cp] obtain A1 where
    r: "rep h1 (VMap body) (JObj m) A1" "A1 \<subseteq> A \<union> {next_addr h..}" "unchanged {..<next_addr h} h h1" by blast
  have "outputs_hold h1 outputs outs A1"
    by (rule outputs_hold_step [OF assms(2) unchanged_mono [OF r(3)] r(2)]) auto
  from applyInputFrom_rep [OF r(1) this assms(3,4)] obtain h2 A2 where
    ap: "applyInputFrom (ts_name task) outputs body (ts_inputFrom task) h1 = (None, h2)"
    and r2: "rep h2 (VMap body) (JObj b) A2" "outputs_hold h2 outputs outs A2" by blast
  have "marshal_val c h2 (VMap body) = Inr bytes"
    unfolding marshal_val_def rep_readback [OF r2(1)] by (simp add: assms(5))
  moreover have "outputs_hold h2 outputs outs {}"
    by (rule outputs_hold_step [OF r2(2)]) simp_all
  ultimately show ?thesis by (simp add: buildDisposableRequest_def cp ap)
qed

text \<open>
  C10. When the mapped fields are not objects, the body of the request that the function builds is the
  encoding of the body computed on values, and after building it every output still holds what it
  held. (With an object among the mapped fields this fails: the body then shares that object with the
  output.)
\<close>

theorem fn_body_on_values:
  assumes "input_holds h (ts_input task) m A" and "outputs_hold h outputs outs A"
    and "mapped_flat outs (ts_inputFrom task)" and "mergeFields outs (ts_inputFrom task) m = Some b"
    and "marshal c (JObj b) = Inr bytes"
  shows "\<exists>dr h'. buildDisposableRequest c task hdrs pc outputs h = (Inr dr, h') \<and> dr_body dr = bytes
    \<and> outputs_hold h' outputs outs {}"
  by (rule request_body_on_values [OF assms])

end
