(* ===== verification/Fn_Props.thy ===== *)
theory Fn_Props
  imports Fn_Run
begin

text \<open>
  What the composition function guarantees: the loop invariant that ties the recorded statuses
  to \<open>failedTasks\<close>, \<open>outputs\<close>, \<open>overallFailed\<close> and \<open>desired\<close>, and from it the gating, skipping
  and notification properties of \<open>RunFunction\<close>.
\<close>

section \<open>One turn of the loop\<close>

text \<open>The branches of the loop body, as a case rule.\<close>

lemma runTask_cases [consumes 0, case_names Skipped Waiting BuildFailed Created Observed]:
  obtains
    "list_ex (\<lambda>m. ls_failedTasks s (fm_sourceTask m)) (ts_inputFrom t)"
    "runTask env t s = addStatus (mkStatus (ts_name t) ''Skipped'') s"
  | "\<not> list_ex (\<lambda>m. ls_failedTasks s (fm_sourceTask m)) (ts_inputFrom t)"
    "fe_observed env (ts_name t) = None" "\<not> depsReady t (ls_outputs s)"
    "runTask env t s = addStatus (mkStatus (ts_name t) ''Pending'') s"
  | e h where "\<not> list_ex (\<lambda>m. ls_failedTasks s (fm_sourceTask m)) (ts_inputFrom t)"
    "buildDisposableRequest (fe_codec env) t (fe_defaultHeaders env) (fe_providerConfigName env)
       (ls_outputs s) (ls_heap s) = (Inl e, h)"
    "runTask env t s = buildFailed t e (s\<lparr>ls_heap := h\<rparr>)"
  | dr h where "\<not> list_ex (\<lambda>m. ls_failedTasks s (fm_sourceTask m)) (ts_inputFrom t)"
    "fe_observed env (ts_name t) = None" "depsReady t (ls_outputs s)"
    "buildDisposableRequest (fe_codec env) t (fe_defaultHeaders env) (fe_providerConfigName env)
       (ls_outputs s) (ls_heap s) = (Inr dr, h)"
    "runTask env t s = addStatus (mkStatus (ts_name t) ''Pending'')
       (s\<lparr>ls_heap := h, ls_desired := (ls_desired s)(ts_name t \<mapsto> dr)\<rparr>)"
  | obs dr h where "\<not> list_ex (\<lambda>m. ls_failedTasks s (fm_sourceTask m)) (ts_inputFrom t)"
    "fe_observed env (ts_name t) = Some obs"
    "buildDisposableRequest (fe_codec env) t (fe_defaultHeaders env) (fe_providerConfigName env)
       (ls_outputs s) (ls_heap s) = (Inr dr, h)"
    "runTask env t s = recordObserved env t obs
       (s\<lparr>ls_heap := h, ls_desired := (ls_desired s)(ts_name t \<mapsto> dr)\<rparr>)"
proof (cases "list_ex (\<lambda>m. ls_failedTasks s (fm_sourceTask m)) (ts_inputFrom t)")
  case True
  then show ?thesis by (rule that(1)) (simp add: runTask_def True)
next
  case nf: False
  obtain r h where b: "buildDisposableRequest (fe_codec env) t (fe_defaultHeaders env)
      (fe_providerConfigName env) (ls_outputs s) (ls_heap s) = (r, h)" by fastforce
  show ?thesis
  proof (cases "fe_observed env (ts_name t) = None \<and> \<not> depsReady t (ls_outputs s)")
    case True
    then show ?thesis using nf by (intro that(2)) (auto simp: runTask_def)
  next
    case False
    then show ?thesis
      using nf b that(3,4,5)
      by (cases r; cases "fe_observed env (ts_name t)") (auto simp: runTask_def)
  qed
qed

lemma depsReadyLoop_iff: "depsReadyLoop ms outs \<longleftrightarrow> (\<forall>m \<in> set ms. outs (fm_sourceTask m) \<noteq> None)"
  by (induction ms) auto

lemma depsReady_iff: "depsReady t outs \<longleftrightarrow> (\<forall>m \<in> set (ts_inputFrom t). outs (fm_sourceTask m) \<noteq> None)"
  by (simp add: depsReady_def depsReadyLoop_iff)

lemma allSucceeded_iff: "allSucceeded sts \<longleftrightarrow> (\<forall>st \<in> set sts. st_phase st = ''Succeeded'')"
  by (induction sts) auto

lemma applyInputFrom_deps:
  "applyInputFrom n outs b ms h = (None, h') \<Longrightarrow> m \<in> set ms \<Longrightarrow> outs (fm_sourceTask m) \<noteq> None"
  by (induction n outs b ms h rule: applyInputFrom.induct) (auto split: option.splits)

lemma build_deps:
  assumes "buildDisposableRequest c t dh pc outs h = (Inr dr, h')" and "m \<in> set (ts_inputFrom t)"
  shows "outs (fm_sourceTask m) \<noteq> None"
  using assms by (auto simp: buildDisposableRequest_def dest: applyInputFrom_deps
      split: prod.splits option.splits sum.splits)

subsection \<open>The status of an observed request\<close>

lemma observed_name [simp]: "st_name (fst (taskStatusFromObserved c n obs h)) = n"
  by (auto simp: taskStatusFromObserved_def mkStatus_def Let_def split: sum.splits prod.splits)

lemma observed_phase:
  "st_phase (fst (taskStatusFromObserved c n obs h)) \<in> {''Failed'', ''Running'', ''Succeeded''}"
  by (auto simp: taskStatusFromObserved_def mkStatus_def Let_def split: sum.splits prod.splits)

lemma recordObserved_fields:
  fixes env t obs s
  defines "st \<equiv> fst (taskStatusFromObserved (fe_codec env) (ts_name t) obs (ls_heap s))"
  shows "ls_statuses (recordObserved env t obs s) = ls_statuses s @ [st]"
    and "ls_desired (recordObserved env t obs s) = ls_desired s"
    and "ls_outputs (recordObserved env t obs s) =
      (if st_phase st = ''Succeeded'' then (ls_outputs s)(ts_name t \<mapsto> st_output st) else ls_outputs s)"
    and "ls_failedTasks (recordObserved env t obs s) =
      (if st_phase st = ''Failed'' then (ls_failedTasks s)(ts_name t := True) else ls_failedTasks s)"
    and "ls_overallFailed (recordObserved env t obs s) \<longleftrightarrow> ls_overallFailed s \<or> st_phase st = ''Failed''"
  by (auto simp: recordObserved_def noteOutput_def noteFailure_def st_def split: prod.splits)

lemmas runTask_fields = buildFailed_def recordObserved_fields mkStatus_def

section \<open>The loop invariant\<close>

definition loop_inv :: "TaskSpec list \<Rightarrow> LoopSt \<Rightarrow> bool" where
  "loop_inv ts s \<longleftrightarrow>
     map st_name (ls_statuses s) = map ts_name ts
     \<and> (\<forall>n. ls_failedTasks s n \<longleftrightarrow> (\<exists>st \<in> set (ls_statuses s). st_name st = n \<and> st_phase st = ''Failed''))
     \<and> (\<forall>n. ls_outputs s n \<noteq> None \<longleftrightarrow> (\<exists>st \<in> set (ls_statuses s). st_name st = n \<and> st_phase st = ''Succeeded''))
     \<and> (ls_overallFailed s \<longleftrightarrow> (\<exists>st \<in> set (ls_statuses s). st_phase st = ''Failed''))
     \<and> (\<forall>st \<in> set (ls_statuses s).
          st_phase st \<in> {''Pending'', ''Running'', ''Succeeded'', ''Failed'', ''Skipped''})"

lemma loop_inv_init: "loop_inv [] (initLoop h)"
  by (simp add: loop_inv_def initLoop_def)

lemma runTask_inv:
  assumes "loop_inv ts s"
  shows "loop_inv (ts @ [t]) (runTask env t s)"
proof (cases rule: runTask_cases [where env = env and t = t and s = s])
  case (Observed obs dr h)
  let ?s = "s\<lparr>ls_heap := h, ls_desired := (ls_desired s)(ts_name t \<mapsto> dr)\<rparr>"
  have "st_phase (fst (taskStatusFromObserved (fe_codec env) (ts_name t) obs (ls_heap ?s)))
      \<in> {''Failed'', ''Running'', ''Succeeded''}"
    by (rule observed_phase)
  with assms show ?thesis
    unfolding Observed(4) loop_inv_def by (auto simp: recordObserved_fields)
qed (use assms in \<open>auto simp: loop_inv_def runTask_fields\<close>)

lemma runTasks_append: "runTasks env (ts @ us) s = runTasks env us (runTasks env ts s)"
  by (induction ts arbitrary: s) auto

lemma runTasks_inv: "loop_inv us s \<Longrightarrow> loop_inv (us @ ts) (runTasks env ts s)"
proof (induction ts arbitrary: us s)
  case (Cons t ts)
  then show ?case using Cons.IH [OF runTask_inv [OF Cons.prems], of t env] by simp
qed simp

lemma run_inv: "loop_inv ts (runTasks env ts (initLoop h))"
  using runTasks_inv [OF loop_inv_init, of ts env] by simp

section \<open>Positions: the run before, at and after a task\<close>

lemma runTask_statuses: "\<exists>st. ls_statuses (runTask env t s) = ls_statuses s @ [st]"
  by (cases rule: runTask_cases [where env = env and t = t and s = s]) (auto simp: runTask_fields)

definition stepStatus :: "FnEnv \<Rightarrow> TaskSpec \<Rightarrow> LoopSt \<Rightarrow> TaskStatus" where
  "stepStatus env t s = last (ls_statuses (runTask env t s))"

lemma statuses_runTask: "ls_statuses (runTask env t s) = ls_statuses s @ [stepStatus env t s]"
  using runTask_statuses [of env t s] by (auto simp: stepStatus_def)

lemma statuses_runTasks: "\<exists>zs. ls_statuses (runTasks env ts s) = ls_statuses s @ zs"
proof (induction ts arbitrary: s)
  case (Cons t ts)
  then show ?case using Cons.IH [of "runTask env t s"] by (auto simp: statuses_runTask)
qed simp

abbreviation before :: "FnEnv \<Rightarrow> TaskSpec list \<Rightarrow> heap \<Rightarrow> nat \<Rightarrow> LoopSt" where
  "before env ts h i \<equiv> runTasks env (take i ts) (initLoop h)"

lemma run_split: "i < length ts \<Longrightarrow>
  runTasks env ts s = runTasks env (drop (Suc i) ts) (runTask env (ts ! i) (runTasks env (take i ts) s))"
  by (metis id_take_nth_drop runTasks.simps(2) runTasks_append)

lemma run_length: "length (ls_statuses (runTasks env ts (initLoop h))) = length ts"
  using run_inv [of ts env h] unfolding loop_inv_def by (metis length_map)

lemma statuses_at:
  assumes "i < length ts"
  shows "ls_statuses (runTasks env ts (initLoop h)) ! i = stepStatus env (ts ! i) (before env ts h i)"
    and "take i (ls_statuses (runTasks env ts (initLoop h))) = ls_statuses (before env ts h i)"
proof -
  obtain zs where "ls_statuses (runTasks env ts (initLoop h)) =
      ls_statuses (before env ts h i) @ stepStatus env (ts ! i) (before env ts h i) # zs"
    using statuses_runTasks [of env "drop (Suc i) ts" "runTask env (ts ! i) (before env ts h i)"]
    by (auto simp: run_split [OF assms] statuses_runTask)
  moreover have "length (ls_statuses (before env ts h i)) = i"
    using assms by (simp add: run_length)
  ultimately show "ls_statuses (runTasks env ts (initLoop h)) ! i = stepStatus env (ts ! i) (before env ts h i)"
    and "take i (ls_statuses (runTasks env ts (initLoop h))) = ls_statuses (before env ts h i)"
    by (metis nth_append_length, simp)
qed

text \<open>\<open>hasPhase sts i n p\<close>: before position \<open>i\<close> there is a status of task \<open>n\<close> in phase \<open>p\<close>.\<close>

definition hasPhase :: "TaskStatus list \<Rightarrow> nat \<Rightarrow> string \<Rightarrow> string \<Rightarrow> bool" where
  "hasPhase sts i n p \<longleftrightarrow> (\<exists>j < i. j < length sts \<and> st_name (sts ! j) = n \<and> st_phase (sts ! j) = p)"

lemma hasPhase_take: "(\<exists>st \<in> set (take i sts). st_name st = n \<and> st_phase st = p) \<longleftrightarrow> hasPhase sts i n p"
proof
  assume "hasPhase sts i n p"
  then obtain j where "j < i" "j < length sts" "st_name (sts ! j) = n" "st_phase (sts ! j) = p"
    by (auto simp: hasPhase_def)
  then show "\<exists>st \<in> set (take i sts). st_name st = n \<and> st_phase st = p"
    by (intro bexI [of _ "sts ! j"]) (auto simp: in_set_conv_nth)
qed (force simp: hasPhase_def in_set_conv_nth)

lemma before_failed:
  "i < length ts \<Longrightarrow> ls_failedTasks (before env ts h i) n \<longleftrightarrow>
     hasPhase (ls_statuses (runTasks env ts (initLoop h))) i n ''Failed''"
  using run_inv [of "take i ts" env h] hasPhase_take [of i _ n]
  by (simp add: loop_inv_def statuses_at(2) [symmetric])

lemma before_outputs:
  "i < length ts \<Longrightarrow> ls_outputs (before env ts h i) n \<noteq> None \<longleftrightarrow>
     hasPhase (ls_statuses (runTasks env ts (initLoop h))) i n ''Succeeded''"
  using run_inv [of "take i ts" env h] hasPhase_take [of i _ n]
  by (simp add: loop_inv_def statuses_at(2) [symmetric])

lemma desired_mono: "ls_desired s n \<noteq> None \<Longrightarrow> ls_desired (runTasks env ts s) n \<noteq> None"
proof (induction ts arbitrary: s)
  case (Cons t ts)
  have "ls_desired (runTask env t s) n \<noteq> None"
    using Cons.prems
    by (cases rule: runTask_cases [where env = env and t = t and s = s]) (auto simp: runTask_fields)
  then show ?case using Cons.IH by simp
qed simp

section \<open>Guarantees of the loop\<close>

text \<open>
  C27. The function reports exactly one status per task, in the order of \<open>spec.tasks\<close>, and every
  status is in one of the five documented phases.
\<close>

theorem statuses_match_tasks:
  "map st_name (ls_statuses (runTasks env ts (initLoop h))) = map ts_name ts
   \<and> list_all (\<lambda>st. st_phase st \<in> {''Pending'', ''Running'', ''Succeeded'', ''Failed'', ''Skipped''})
       (ls_statuses (runTasks env ts (initLoop h)))"
  using run_inv [of ts env h] by (simp add: loop_inv_def list_all_iff)

text \<open>
  The phase of the workflow is a function of the task phases: Failed as soon as one task has
  failed, Succeeded when there is a task and all have succeeded, Running otherwise.
\<close>

theorem phase_of_statuses:
  "overallPhase (runTasks env ts (initLoop h)) =
     (let ps = map st_phase (ls_statuses (runTasks env ts (initLoop h))) in
      if ''Failed'' \<in> set ps then ''Failed''
      else if ps \<noteq> [] \<and> set ps = {''Succeeded''} then ''Succeeded'' else ''Running'')"
proof -
  let ?s = "runTasks env ts (initLoop h)"
  have "ls_overallFailed ?s \<longleftrightarrow> (\<exists>st \<in> set (ls_statuses ?s). st_phase st = ''Failed'')"
    using run_inv [of ts env h] unfolding loop_inv_def by blast
  then have "ls_overallFailed ?s \<longleftrightarrow> ''Failed'' \<in> st_phase ` set (ls_statuses ?s)"
    by (simp add: image_iff eq_commute [of "''Failed''"])
  moreover have "allDone (ls_statuses ?s) \<longleftrightarrow>
      ls_statuses ?s \<noteq> [] \<and> st_phase ` set (ls_statuses ?s) = {''Succeeded''}"
    unfolding allDone_def allSucceeded_iff by (cases "ls_statuses ?s") auto
  ultimately show ?thesis by (simp add: overallPhase_def)
qed

lemma step_desired:
  assumes "n \<in> dom (ls_desired (runTask env t s))"
  shows "n \<in> dom (ls_desired s)
    \<or> (n = ts_name t \<and> (\<forall>m \<in> set (ts_inputFrom t). ls_outputs s (fm_sourceTask m) \<noteq> None))"
proof (cases rule: runTask_cases [where env = env and t = t and s = s])
  case (Created dr h)
  with assms show ?thesis by (auto simp: depsReady_iff split: if_splits)
next
  case (Observed obs dr h)
  have "\<forall>m \<in> set (ts_inputFrom t). ls_outputs s (fm_sourceTask m) \<noteq> None"
    using build_deps [OF Observed(3)] by blast
  with Observed assms show ?thesis by (auto simp: recordObserved_fields split: if_splits)
qed (use assms in \<open>auto simp: runTask_fields\<close>)

lemma desired_origin:
  "n \<in> dom (ls_desired (runTasks env ts (initLoop h))) \<Longrightarrow>
     \<exists>i < length ts. ts_name (ts ! i) = n \<and>
       (\<forall>m \<in> set (ts_inputFrom (ts ! i)). ls_outputs (before env ts h i) (fm_sourceTask m) \<noteq> None)"
proof (induction ts rule: rev_induct)
  case (snoc t ts)
  then consider "n \<in> dom (ls_desired (runTasks env ts (initLoop h)))"
    | "n = ts_name t" "\<forall>m \<in> set (ts_inputFrom t). ls_outputs (runTasks env ts (initLoop h)) (fm_sourceTask m) \<noteq> None"
    using step_desired by (fastforce simp: runTasks_append)
  then show ?case
  proof cases
    case 1
    with snoc.IH show ?thesis by (force simp: nth_append)
  next
    case 2
    then show ?thesis by (intro exI [of _ "length ts"]) simp
  qed
qed (simp add: initLoop_def)

text \<open>
  C1. Dependency gating: a DisposableRequest is only ever desired for a task of the workflow all of
  whose \<open>inputFrom\<close> sources have succeeded at an earlier position of the list. In particular a
  task that names itself, a later task or an unknown task never runs.
\<close>

theorem requests_are_gated:
  assumes "n \<in> dom (ls_desired (runTasks env ts (initLoop h)))"
  shows "\<exists>i < length ts. ts_name (ts ! i) = n \<and>
     (\<forall>m \<in> set (ts_inputFrom (ts ! i)).
        hasPhase (ls_statuses (runTasks env ts (initLoop h))) i (fm_sourceTask m) ''Succeeded'')"
  using desired_origin [OF assms] by (metis before_outputs)

text \<open>
  C13. A task is Skipped exactly when one of its own \<open>inputFrom\<close> sources failed at an earlier
  position; failures elsewhere do not skip it.
\<close>

theorem skipped_iff_source_failed:
  assumes "i < length ts"
  shows "st_phase (ls_statuses (runTasks env ts (initLoop h)) ! i) = ''Skipped'' \<longleftrightarrow>
     (\<exists>m \<in> set (ts_inputFrom (ts ! i)).
        hasPhase (ls_statuses (runTasks env ts (initLoop h))) i (fm_sourceTask m) ''Failed'')"
proof -
  let ?s = "before env ts h i"
  have "st_phase (stepStatus env (ts ! i) ?s) = ''Skipped'' \<longleftrightarrow>
      list_ex (\<lambda>m. ls_failedTasks ?s (fm_sourceTask m)) (ts_inputFrom (ts ! i))"
  proof (cases rule: runTask_cases [where env = env and t = "ts ! i" and s = ?s])
    case (Observed obs dr h')
    then show ?thesis using observed_phase [of "fe_codec env" "ts_name (ts ! i)" obs h']
      by (auto simp: stepStatus_def runTask_fields)
  qed (auto simp: stepStatus_def runTask_fields)
  then show ?thesis by (simp add: statuses_at(1) [OF assms] before_failed [OF assms] list_ex_iff)
qed

lemma step_in_run: "i < length ts \<Longrightarrow> n \<in> dom (ls_desired (runTask env (ts ! i) (before env ts h i))) \<Longrightarrow>
    n \<in> dom (ls_desired (runTasks env ts (initLoop h)))"
  using desired_mono [of "runTask env (ts ! i) (before env ts h i)" n env "drop (Suc i) ts"]
  by (simp add: run_split dom_def)

text \<open>
  C7. No task is held back by a task it does not depend on: a task with no request yet whose
  sources have all succeeded (and none failed) is requested in this very run, however many others
  are pending or failed, unless its request cannot be built, which makes it Failed.
\<close>

theorem ready_task_is_requested:
  assumes "i < length ts" and "fe_observed env (ts_name (ts ! i)) = None"
    and "\<forall>m \<in> set (ts_inputFrom (ts ! i)).
      hasPhase (ls_statuses (runTasks env ts (initLoop h))) i (fm_sourceTask m) ''Succeeded''
      \<and> \<not> hasPhase (ls_statuses (runTasks env ts (initLoop h))) i (fm_sourceTask m) ''Failed''"
  shows "let st = ls_statuses (runTasks env ts (initLoop h)) ! i in
     st_phase st = ''Pending'' \<and> ts_name (ts ! i) \<in> dom (ls_desired (runTasks env ts (initLoop h)))
     \<or> st_phase st = ''Failed'' \<and> (\<exists>e h1. st_error st = errText e \<and>
         buildDisposableRequest (fe_codec env) (ts ! i) (fe_defaultHeaders env)
           (fe_providerConfigName env) (ls_outputs (before env ts h i)) (ls_heap (before env ts h i)) = (Inl e, h1))"
proof -
  let ?s = "before env ts h i"
  from assms(3) have "\<not> list_ex (\<lambda>m. ls_failedTasks ?s (fm_sourceTask m)) (ts_inputFrom (ts ! i))"
    and "depsReady (ts ! i) (ls_outputs ?s)"
    using before_failed [OF assms(1)] before_outputs [OF assms(1)]
    by (auto simp: list_ex_iff depsReady_iff)
  then show ?thesis
    using assms(2) statuses_at(1) [OF assms(1), of env h]
    by (cases rule: runTask_cases [where env = env and t = "ts ! i" and s = ?s])
      (auto simp: stepStatus_def runTask_fields intro!: step_in_run [OF assms(1)])
qed

lemma desired_other: "n \<notin> ts_name ` set ts \<Longrightarrow> ls_desired (runTasks env ts s) n = ls_desired s n"
proof (induction ts arbitrary: s)
  case (Cons t ts)
  have "ls_desired (runTask env t s) n = ls_desired s n"
    using Cons.prems
    by (cases rule: runTask_cases [where env = env and t = t and s = s]) (auto simp: runTask_fields)
  with Cons show ?case by simp
qed simp

lemma desired_own_turn:
  assumes "distinct (map ts_name ts)" and "i < length ts"
  shows "ls_desired (runTasks env ts (initLoop h)) (ts_name (ts ! i))
     = ls_desired (runTask env (ts ! i) (before env ts h i)) (ts_name (ts ! i))"
    and "ls_desired (before env ts h i) (ts_name (ts ! i)) = None"
proof -
  have split: "ts = take i ts @ ts ! i # drop (Suc i) ts" by (rule id_take_nth_drop [OF assms(2)])
  have "distinct (map ts_name (take i ts @ ts ! i # drop (Suc i) ts))" using assms(1) split by metis
  then have n: "ts_name (ts ! i) \<notin> ts_name ` set (take i ts)" "ts_name (ts ! i) \<notin> ts_name ` set (drop (Suc i) ts)" by auto
  show "ls_desired (runTasks env ts (initLoop h)) (ts_name (ts ! i))
     = ls_desired (runTask env (ts ! i) (before env ts h i)) (ts_name (ts ! i))"
    unfolding run_split [OF assms(2)] by (rule desired_other [OF n(2)])
  show "ls_desired (before env ts h i) (ts_name (ts ! i)) = None"
    using desired_other [OF n(1)] by (simp add: initLoop_def)
qed


text \<open>
  A task that is reported as Running or Succeeded has its request desired.
\<close>

theorem live_requests_stay_desired:
  assumes "i < length ts"
    and "st_phase (ls_statuses (runTasks env ts (initLoop h)) ! i) \<in> {''Running'', ''Succeeded''}"
  shows "fe_observed env (ts_name (ts ! i)) \<noteq> None
     \<and> ts_name (ts ! i) \<in> dom (ls_desired (runTasks env ts (initLoop h)))"
  using assms(2) statuses_at(1) [OF assms(1), of env h]
  by (cases rule: runTask_cases [where env = env and t = "ts ! i" and s = "before env ts h i"])
    (auto simp: stepStatus_def runTask_fields intro!: step_in_run [OF assms(1)])

section \<open>Guarantees of \<open>RunFunction\<close>\<close>

text \<open>A response that carries a status comes from a complete run.\<close>

lemma RunFunction_complete:
  assumes "rsp_status (RunFunction c req) = Some xs"
  obtains inp xr raw tasks h obs where
    "rq_input req = Inr inp" "rq_oxr req = Inr xr" "xr_tasks xr = Inr (Some raw)" "raw \<noteq> []"
    "decodeTasks c raw = Inr (tasks, h)" "rq_observed req = Inr obs"
    "RunFunction c req = finishRun c req xr (fe_providerConfigName (mkEnv c inp obs)) (length tasks)
       (runTasks (mkEnv c inp obs) tasks (initLoop h))"
  using assms
  by (auto simp: RunFunction_def Fatal_def responseTo_def Let_def
      split: sum.splits option.splits list.splits prod.splits)

lemma finishRun_complete:
  assumes "rsp_status (finishRun c req xr pc n s) = Some xs"
  shows "rsp_fatal (finishRun c req xr pc n s) = None"
    and "rsp_desired (finishRun c req xr pc n s) = Some (withNotify c xr (overallPhase s) pc s)"
    and "rsp_condition (finishRun c req xr pc n s) = Some (conditionFor (overallPhase s) n)"
    and "\<exists>dc. rq_dxr req = Inr dc \<and> rsp_composite (finishRun c req xr pc n s) =
           Some (withStatus req (xr_uid xr) (overallPhase s) (rawStatuses c s) dc)"
    and "xs_phase xs = overallPhase s" and "xs_transactionID xs = xr_uid xr"
    and "xs_tasks xs = (case rawStatuses c s of None \<Rightarrow> [] | Some raw \<Rightarrow> raw)"
  using assms
  by (auto simp: finishRun_def publish_def Fatal_def responseTo_def split: sum.splits option.splits)

lemma names_only: "n \<in> dom (ls_desired (runTasks env ts (initLoop h))) \<Longrightarrow> n \<in> ts_name ` set ts"
  using desired_origin [of n env ts h] by (metis image_eqI nth_mem)

text \<open>
  C28. The completion webhook is desired only in a final phase and only when the workflow has a
  notifyURL, it is a POST to that URL, and adding it changes no task's request.
\<close>

theorem webhook_only_when_final:
  assumes "rsp_status (RunFunction c req) = Some xs" and "rsp_desired (RunFunction c req) = Some d"
    and "rq_oxr req = Inr xr" and "xr_tasks xr = Inr (Some raw)" and "decodeTasks c raw = Inr (tasks, h)"
    and "notifyKey \<notin> ts_name ` set tasks" and "d notifyKey = Some nr"
  shows "xs_phase xs \<in> {''Succeeded'', ''Failed''} \<and> xr_notifyURL xr \<noteq> []
     \<and> dr_url nr = xr_notifyURL xr \<and> dr_method nr = ''POST''
     \<and> dom d - {notifyKey} \<subseteq> ts_name ` set tasks"
proof -
  from assms(1) obtain inp obs where
    run: "RunFunction c req = finishRun c req xr (fe_providerConfigName (mkEnv c inp obs)) (length tasks)
       (runTasks (mkEnv c inp obs) tasks (initLoop h))"
    by (rule RunFunction_complete) (use assms(3-5) in auto)
  let ?s = "runTasks (mkEnv c inp obs) tasks (initLoop h)"
  let ?pc = "fe_providerConfigName (mkEnv c inp obs)"
  have st: "rsp_status (finishRun c req xr ?pc (length tasks) ?s) = Some xs"
    using assms(1) run by simp
  have d: "d = withNotify c xr (overallPhase ?s) ?pc ?s" and ph: "xs_phase xs = overallPhase ?s"
    using assms(2) run finishRun_complete [OF st] by auto
  note names = names_only [where env = "mkEnv c inp obs" and ts = tasks and h = h]
  then have "ls_desired ?s notifyKey = None" using assms(6) by blast
  then show ?thesis using assms(7) d ph names
    by (auto simp: withNotify_def buildNotifyRequest_def split: if_splits sum.splits option.splits)
qed

lemma publish_desired:
  "desiredAt (publish c req xr k s ph d) n = map_option Passed (rq_desired req n)
   \<or> desiredAt (publish c req xr k s ph d) n = map_option Own (d n) \<and> d n \<noteq> None"
  by (auto simp: publish_def desiredAt_def Fatal_def responseTo_def split: sum.splits option.splits)

lemma withNotify_other: "n \<noteq> notifyKey \<Longrightarrow> withNotify c xr ph pc s n = ls_desired s n"
  by (simp add: withNotify_def split: sum.splits)

text \<open>\<open>response.To\<close> and the setters: what a response has in common with its request.\<close>

lemma RunFunction_passes:
  "rsp_tag (RunFunction c req) = rq_tag req \<and> rsp_context (RunFunction c req) = rq_context req"
  by (auto simp: RunFunction_def finishRun_def publish_def Fatal_def responseTo_def
      split: sum.splits option.splits list.splits)

lemma RunFunction_early:
  "desiredAt (RunFunction c req) n = map_option Passed (rq_desired req n)
   \<or> (\<exists>inp xr raw tasks h obs. rq_oxr req = Inr xr \<and> xr_tasks xr = Inr (Some raw) \<and> decodeTasks c raw = Inr (tasks, h)
        \<and> RunFunction c req = finishRun c req xr (fe_providerConfigName (mkEnv c inp obs)) (length tasks)
            (runTasks (mkEnv c inp obs) tasks (initLoop h)))"
proof -
  have fatal: "desiredAt (Fatal (responseTo req) msg) n = map_option Passed (rq_desired req n)" for msg
    by (simp add: desiredAt_def Fatal_def responseTo_def)
  show ?thesis
    by (auto simp: RunFunction_def fatal split: sum.splits option.splits list.splits)
qed

text \<open>
  C29. The function leaves the rest of the pipeline alone, whether it succeeds or ends in a fatal result: the response has the
  tag and the context of the request, a desired resource of an earlier function under a name that is neither
  a task nor the webhook stays desired as it was, and nothing else of that name is added. Of the desired composite it
  changes at most \<open>status\<close>, when the setters of apimachinery write where their path leads.
\<close>

theorem pipeline_left_alone:
  assumes "n \<noteq> notifyKey"
    and "\<And>xr raw tasks h. rq_oxr req = Inr xr \<Longrightarrow> xr_tasks xr = Inr (Some raw) \<Longrightarrow> decodeTasks c raw = Inr (tasks, h)
           \<Longrightarrow> n \<notin> ts_name ` set tasks"
    and "\<And>m v f fs k. k \<noteq> f \<Longrightarrow> kv_get (snd (rq_setNestedField req m v (f # fs))) k = kv_get m k"
    and "\<And>m v f fs k. k \<noteq> f \<Longrightarrow> kv_get (snd (rq_setNestedSlice req m v (f # fs))) k = kv_get m k"
    and "f \<noteq> ''status''"
  shows "rsp_tag (RunFunction c req) = rq_tag req \<and> rsp_context (RunFunction c req) = rq_context req
    \<and> desiredAt (RunFunction c req) n = map_option Passed (rq_desired req n)
    \<and> (case rsp_composite (RunFunction c req) of None \<Rightarrow> True
       | Some dc' \<Rightarrow> \<exists>dc. rq_dxr req = Inr dc \<and> kv_get dc' f = kv_get dc f)"
proof -
  have kept: "kv_get (withStatus req uid ph raw dc) f = kv_get dc f" for uid ph raw dc
    by (simp add: withStatus_def assms(3-5))
  have desired: "desiredAt (RunFunction c req) n = map_option Passed (rq_desired req n)"
    using RunFunction_early [of c req n]
  proof (elim disjE exE conjE)
    fix inp xr raw tasks h obs
    assume "rq_oxr req = Inr xr" "xr_tasks xr = Inr (Some raw)" "decodeTasks c raw = Inr (tasks, h)"
      and run: "RunFunction c req = finishRun c req xr (fe_providerConfigName (mkEnv c inp obs)) (length tasks)
            (runTasks (mkEnv c inp obs) tasks (initLoop h))"
    from assms(2) [OF this(1-3)] names_only have "ls_desired (runTasks (mkEnv c inp obs) tasks (initLoop h)) n = None" by blast
    with publish_desired assms(1) show ?thesis unfolding run finishRun_def by (metis withNotify_other)
  qed
  have "case rsp_composite (RunFunction c req) of None \<Rightarrow> True
      | Some dc' \<Rightarrow> \<exists>dc. rq_dxr req = Inr dc \<and> kv_get dc' f = kv_get dc f"
    using kept by (auto simp: RunFunction_def finishRun_def publish_def Fatal_def responseTo_def
      split: sum.splits option.splits list.splits)
  with RunFunction_passes [of c req] desired show ?thesis by blast
qed

end
