(* ===== verification/Fn_Settle.thy ===== *)
theory Fn_Settle
  imports Fn_Props
begin

text \<open>
  The composition function over repeated runs. Between two runs Crossplane creates the requests that are desired,
  deletes those that are not, and the provider answers: \<open>observedAt\<close> is what the function then observes in
  each run. Once every request is answered, the workflow has settled after as many runs as it has tasks.
\<close>

section \<open>Repeated runs\<close>

abbreviation observing :: "FnEnv \<Rightarrow> (string \<rightharpoonup> ObservedRes) \<Rightarrow> FnEnv" where
  "observing env obs \<equiv> env\<lparr>fe_observed := obs\<rparr>"

abbreviation loopWith :: "FnEnv \<Rightarrow> TaskSpec list \<Rightarrow> heap \<Rightarrow> (string \<rightharpoonup> ObservedRes) \<Rightarrow> LoopSt" where
  "loopWith env ts h obs \<equiv> runTasks (observing env obs) ts (initLoop h)"

fun observedAt :: "FnEnv \<Rightarrow> TaskSpec list \<Rightarrow> heap \<Rightarrow> (string \<Rightarrow> ObservedRes) \<Rightarrow> nat \<Rightarrow> (string \<rightharpoonup> ObservedRes)" where
  "observedAt env ts h answer 0 = Map.empty"
| "observedAt env ts h answer (Suc r) =
     (\<lambda>n. map_option (\<lambda>_. answer n) (ls_desired (loopWith env ts h (observedAt env ts h answer r)) n))"

text \<open>An answer that has arrived: an error, a status outside of 2xx, or a success that was synced.\<close>

definition has_answer :: "ObservedRes \<Rightarrow> bool" where
  "has_answer res \<longleftrightarrow> or_error res \<noteq> []
     \<or> (or_code res \<noteq> 0 \<or> or_body res \<noteq> [])
       \<and> (sint (or_code res) < 200 \<or> sint (or_code res) \<ge> 300 \<or> or_synced res \<noteq> Some (JBool False))"

lemma observedAt_answer: "observedAt env ts h answer r n = Some res \<Longrightarrow> res = answer n"
  by (cases r) auto

lemma observedAt_desired:
  "observedAt env ts h answer (Suc r) n \<noteq> None \<longleftrightarrow> n \<in> dom (ls_desired (loopWith env ts h (observedAt env ts h answer r)))"
  by auto

section \<open>One turn, again\<close>

text \<open>The phase read off a request does not depend on the heap, and one that was answered is not Running.\<close>

lemma observed_phase_heap:
  "st_phase (fst (taskStatusFromObserved c n res h)) = st_phase (fst (taskStatusFromObserved c n res h'))"
  by (auto simp: taskStatusFromObserved_def mkStatus_def split: sum.splits prod.splits)

lemma has_answer_phase:
  "has_answer res \<Longrightarrow> st_phase (fst (taskStatusFromObserved c n res h)) \<in> {''Failed'', ''Succeeded''}"
  by (auto simp: taskStatusFromObserved_def has_answer_def mkStatus_def split: sum.splits prod.splits)

text \<open>The loop looks at observed requests by the names of its tasks only.\<close>

lemma runTasks_cong:
  "\<forall>t \<in> set ts. obs (ts_name t) = obs' (ts_name t) \<Longrightarrow>
     runTasks (observing env obs) ts s = runTasks (observing env obs') ts s"
proof (induction ts arbitrary: s)
  case (Cons t ts)
  have "runTask (observing env obs) t s = runTask (observing env obs') t s"
    using Cons.prems by (cases "obs' (ts_name t)") (auto simp: runTask_def recordObserved_def split: prod.splits sum.splits)
  with Cons show ?case by simp
qed simp

text \<open>A task in a phase of its own: which requests its turn leaves.\<close>

lemma succeeded_observed:
  assumes "i < length ts" and "st_phase (ls_statuses (runTasks env ts (initLoop h)) ! i) = ''Succeeded''"
  obtains res h1 where "fe_observed env (ts_name (ts ! i)) = Some res"
    and "st_phase (fst (taskStatusFromObserved (fe_codec env) (ts_name (ts ! i)) res h1)) = ''Succeeded''"
  using assms(2) statuses_at(1) [OF assms(1), of env h]
  by (cases rule: runTask_cases [where env = env and t = "ts ! i" and s = "before env ts h i"])
    (auto simp: stepStatus_def runTask_fields intro: that)

lemma failed_turn:
  assumes "i < length ts" and "st_phase (ls_statuses (runTasks env ts (initLoop h)) ! i) = ''Failed''"
  shows "(\<exists>res h1. fe_observed env (ts_name (ts ! i)) = Some res
       \<and> st_phase (fst (taskStatusFromObserved (fe_codec env) (ts_name (ts ! i)) res h1)) = ''Failed'')
    \<or> ls_desired (runTask env (ts ! i) (before env ts h i)) = ls_desired (before env ts h i)"
  using assms(2) statuses_at(1) [OF assms(1), of env h]
  by (cases rule: runTask_cases [where env = env and t = "ts ! i" and s = "before env ts h i"])
    (auto simp: stepStatus_def runTask_fields)

text \<open>With distinct names only the turn of a task desires its request.\<close>

section \<open>From one run to the next\<close>

abbreviation phaseAt :: "FnEnv \<Rightarrow> TaskSpec list \<Rightarrow> heap \<Rightarrow> (string \<Rightarrow> ObservedRes) \<Rightarrow> nat \<Rightarrow> nat \<Rightarrow> string" where
  "phaseAt env ts h answer r i \<equiv> st_phase (ls_statuses (loopWith env ts h (observedAt env ts h answer r)) ! i)"

lemma succeeded_answer:
  assumes "i < length ts" and "phaseAt env ts h answer r i = ''Succeeded''"
  shows "observedAt env ts h answer r (ts_name (ts ! i)) = Some (answer (ts_name (ts ! i)))"
    and "st_phase (fst (taskStatusFromObserved (fe_codec env) (ts_name (ts ! i)) (answer (ts_name (ts ! i))) h1)) = ''Succeeded''"
proof -
  obtain res h2 where r: "observedAt env ts h answer r (ts_name (ts ! i)) = Some res"
    and p: "st_phase (fst (taskStatusFromObserved (fe_codec env) (ts_name (ts ! i)) res h2)) = ''Succeeded''"
    using succeeded_observed [OF assms(1), of "observing env (observedAt env ts h answer r)" h] assms(2) by auto
  with observedAt_answer [OF r] observed_phase_heap [of "fe_codec env" _ res h1 h2]
  show "observedAt env ts h answer r (ts_name (ts ! i)) = Some (answer (ts_name (ts ! i)))"
    and "st_phase (fst (taskStatusFromObserved (fe_codec env) (ts_name (ts ! i)) (answer (ts_name (ts ! i))) h1)) = ''Succeeded''"
    by simp_all
qed

text \<open>A task that has succeeded did not fail in the run before.\<close>

lemma no_failure_before:
  assumes "distinct (map ts_name ts)" and "i < length ts" and "phaseAt env ts h answer (Suc r) i = ''Succeeded''"
  shows "phaseAt env ts h answer r i \<noteq> ''Failed''"
proof
  let ?env = "observing env (observedAt env ts h answer r)" and ?n = "ts_name (ts ! i)"
  assume f: "phaseAt env ts h answer r i = ''Failed''"
  note later = succeeded_answer [OF assms(2,3)]
  have d: "?n \<in> dom (ls_desired (runTasks ?env ts (initLoop h)))"
    using later(1) unfolding observedAt_desired [symmetric] by simp
  from failed_turn [OF assms(2) f] show False
  proof
    assume "\<exists>res h1. fe_observed ?env ?n = Some res
      \<and> st_phase (fst (taskStatusFromObserved (fe_codec ?env) ?n res h1)) = ''Failed''"
    then obtain res h1 where "observedAt env ts h answer r ?n = Some res"
      and "st_phase (fst (taskStatusFromObserved (fe_codec env) ?n res h1)) = ''Failed''" by auto
    with later(2) [of h1] observedAt_answer show False by fastforce
  next
    assume "ls_desired (runTask ?env (ts ! i) (before ?env ts h i)) = ls_desired (before ?env ts h i)"
    with d desired_own_turn [OF assms(1,2), of ?env h] show False by (simp add: dom_def)
  qed
qed

text \<open>While the tasks before it have succeeded, a task meets the same state in every run.\<close>

lemma same_turn:
  assumes "i < length ts" and "\<forall>j < i. phaseAt env ts h answer r j = ''Succeeded''"
    and "\<forall>j < i. phaseAt env ts h answer r' j = ''Succeeded''"
  shows "before (observing env (observedAt env ts h answer r)) ts h i
    = before (observing env (observedAt env ts h answer r')) ts h i"
proof (rule runTasks_cong, rule ballI)
  fix t
  assume "t \<in> set (take i ts)"
  then obtain j where j: "j < i" "j < length ts" "t = ts ! j" by (auto simp: in_set_conv_nth)
  have "observedAt env ts h answer q (ts_name t) = Some (answer (ts_name t))"
    if "\<forall>j < i. phaseAt env ts h answer q j = ''Succeeded''" for q
    unfolding j(3) by (rule succeeded_answer(1) [OF j(2)]) (use that j(1) in blast)
  with assms(2,3) show "observedAt env ts h answer r (ts_name t) = observedAt env ts h answer r' (ts_name t)" by simp
qed

text \<open>When all before it have succeeded, a task is requested, fails, or has its answer.\<close>

lemma ready_turn:
  assumes "i < length ts" and "\<forall>m \<in> set (ts_inputFrom (ts ! i)). fm_sourceTask m \<in> ts_name ` set (take i ts)"
    and "\<forall>j < i. phaseAt env ts h answer r j = ''Succeeded''" and "\<forall>n. has_answer (answer n)"
  defines "e \<equiv> observing env (observedAt env ts h answer r)"
  shows "phaseAt env ts h answer r i \<in> {''Failed'', ''Succeeded''}
    \<or> ts_name (ts ! i) \<in> dom (ls_desired (runTasks e ts (initLoop h)))
      \<and> observedAt env ts h answer r (ts_name (ts ! i)) = None"
proof -
  let ?s = "before e ts h i"
  let ?sts = "ls_statuses (runTasks e ts (initLoop h))"
  have st: "j < length ts \<Longrightarrow> st_name (?sts ! j) = ts_name (ts ! j)" for j
    using run_inv [of ts e h] run_length [of e ts h] unfolding loop_inv_def by (metis nth_map)
  have ok: "\<not> hasPhase ?sts i n ''Failed''" for n
    using assms(3) by (auto simp: hasPhase_def e_def)
  have src: "hasPhase ?sts i (fm_sourceTask m) ''Succeeded''" if "m \<in> set (ts_inputFrom (ts ! i))" for m
  proof -
    from assms(2) that obtain t where t: "t \<in> set (take i ts)" "fm_sourceTask m = ts_name t" by auto
    then obtain j where "j < i" "fm_sourceTask m = ts_name (ts ! j)"
      by (auto simp: in_set_conv_nth)
    with assms(1,3) st [of j] show ?thesis unfolding hasPhase_def e_def [symmetric]
      by (intro exI [of _ j]) (auto simp: run_length e_def)
  qed
  have nf: "\<not> list_ex (\<lambda>m. ls_failedTasks ?s (fm_sourceTask m)) (ts_inputFrom (ts ! i))"
    using ok before_failed [OF assms(1)] by (auto simp: list_ex_iff)
  have dr: "depsReady (ts ! i) (ls_outputs ?s)"
    using src before_outputs [OF assms(1)] by (auto simp: depsReady_iff)
  have ph: "phaseAt env ts h answer r i = st_phase (stepStatus e (ts ! i) ?s)"
    by (simp add: statuses_at(1) [OF assms(1)] e_def)
  show ?thesis
  proof (cases rule: runTask_cases [where env = e and t = "ts ! i" and s = ?s])
    case (Observed obs d h')
    have "obs = answer (ts_name (ts ! i))" using observedAt_answer Observed(2) by (auto simp: e_def)
    then have "st_phase (fst (taskStatusFromObserved (fe_codec e) (ts_name (ts ! i)) obs h')) \<in> {''Failed'', ''Succeeded''}"
      using has_answer_phase assms(4) by blast
    with Observed ph show ?thesis by (auto simp: stepStatus_def runTask_fields)
  next
    case (Created d h')
    then have "ts_name (ts ! i) \<in> dom (ls_desired (runTask e (ts ! i) ?s))" by simp
    from step_in_run [OF assms(1) this] Created(2) show ?thesis by (auto simp: e_def)
  qed (use nf dr ph in \<open>auto simp: stepStatus_def runTask_fields\<close>)
qed

section \<open>Settling\<close>

text \<open>
  \<open>wired\<close>: names are distinct and every \<open>inputFrom\<close> names a task that comes earlier in the list.
\<close>

definition wired :: "TaskSpec list \<Rightarrow> bool" where
  "wired ts \<longleftrightarrow> distinct (map ts_name ts)
     \<and> (\<forall>i < length ts. \<forall>m \<in> set (ts_inputFrom (ts ! i)). fm_sourceTask m \<in> ts_name ` set (take i ts))"

lemma next_settled:
  assumes "wired ts" and "\<forall>n. has_answer (answer n)" and "i < length ts"
    and old: "(\<exists>j < i. phaseAt env ts h answer r j = ''Failed'') \<or> (\<forall>j < i. phaseAt env ts h answer r j = ''Succeeded'')"
    and now: "\<forall>j < i. phaseAt env ts h answer (Suc r) j = ''Succeeded''"
  shows "phaseAt env ts h answer (Suc r) i \<in> {''Failed'', ''Succeeded''}"
proof (rule ccontr)
  assume stuck: "phaseAt env ts h answer (Suc r) i \<notin> {''Failed'', ''Succeeded''}"
  let ?e = "observing env (observedAt env ts h answer r)" and ?e' = "observing env (observedAt env ts h answer (Suc r))"
  let ?n = "ts_name (ts ! i)"
  have d: "distinct (map ts_name ts)"
    and src: "\<forall>m \<in> set (ts_inputFrom (ts ! i)). fm_sourceTask m \<in> ts_name ` set (take i ts)"
    using assms(1,3) by (auto simp: wired_def)
  have "phaseAt env ts h answer r j \<noteq> ''Failed''" if "j < i" for j
    using no_failure_before [OF d, of j] now that assms(3) by simp
  with old have was: "\<forall>j < i. phaseAt env ts h answer r j = ''Succeeded''" by blast
  from ready_turn [OF assms(3) src now assms(2)] stuck
  have new: "?n \<in> dom (ls_desired (runTasks ?e' ts (initLoop h)))" "observedAt env ts h answer (Suc r) ?n = None" by blast+
  have gone: "ls_desired (runTasks ?e ts (initLoop h)) ?n = None" using new(2) by simp
  have same: "before ?e' ts h i = before ?e ts h i" by (rule same_turn [OF assms(3) now was])
  have "\<exists>dr. ls_desired (runTask ?e' (ts ! i) (before ?e ts h i)) ?n = Some dr"
    using new(1) unfolding domIff desired_own_turn(1) [OF d assms(3), of ?e' h] same by (metis not_None_eq)
  moreover have "ls_desired (runTask ?e (ts ! i) (before ?e ts h i)) ?n = None"
    using gone desired_own_turn(1) [OF d assms(3), of ?e h] by simp
  moreover have "ls_desired (before ?e ts h i) ?n = None" by (rule desired_own_turn(2) [OF d assms(3)])
  ultimately show False
    using new(2)
    by (cases "observedAt env ts h answer r ?n")
      (auto simp: runTask_def buildFailed_def recordObserved_fields simp del: observedAt.simps
        split: if_splits option.splits prod.splits sum.splits)
qed

lemma prefix_settled:
  assumes "wired ts" and "\<forall>n. has_answer (answer n)"
  shows "i \<le> length ts \<Longrightarrow> i \<le> r \<Longrightarrow>
    (\<exists>j < i. phaseAt env ts h answer r j = ''Failed'') \<or> (\<forall>j < i. phaseAt env ts h answer r j = ''Succeeded'')"
proof (induction i arbitrary: r)
  case (Suc i)
  then obtain q where q: "r = Suc q" "i \<le> q" by (cases r) auto
  show ?case
  proof (cases "\<forall>j < i. phaseAt env ts h answer r j = ''Succeeded''")
    case True
    have "phaseAt env ts h answer r i \<in> {''Failed'', ''Succeeded''}"
      unfolding q(1) by (rule next_settled [OF assms]) (use Suc q True in auto)
    with True show ?thesis using less_Suc_eq by auto
  next
    case False
    with Suc.IH [of r] Suc.prems show ?thesis using less_Suc_eq by auto
  qed
qed simp

text \<open>
  C8. A workflow whose tasks take fields from earlier tasks only settles: when every request is answered before the
  next run, then after as many runs as there are tasks, and in every run from then on, the phase is Succeeded or
  Failed and never again Running.
\<close>

theorem workflow_settles:
  assumes "wired ts" and "ts \<noteq> []" and "\<forall>n. has_answer (answer n)" and "length ts \<le> r"
  shows "overallPhase (loopWith env ts h (observedAt env ts h answer r)) \<in> {''Succeeded'', ''Failed''}"
proof -
  let ?s = "loopWith env ts h (observedAt env ts h answer r)"
  have len: "length (ls_statuses ?s) = length ts" by (rule run_length)
  have f: "ls_overallFailed ?s \<longleftrightarrow> (\<exists>st \<in> set (ls_statuses ?s). st_phase st = ''Failed'')"
    using run_inv [of ts "observing env (observedAt env ts h answer r)" h] unfolding loop_inv_def by blast
  from prefix_settled [OF assms(1,3) le_refl assms(4), of env h] show ?thesis
  proof
    assume "\<exists>j < length ts. phaseAt env ts h answer r j = ''Failed''"
    then have "ls_overallFailed ?s" using f len nth_mem by metis
    then show ?thesis by (simp add: overallPhase_def)
  next
    assume a: "\<forall>j < length ts. phaseAt env ts h answer r j = ''Succeeded''"
    have "allDone (ls_statuses ?s)"
      unfolding allDone_def allSucceeded_iff using a len assms(2) by (auto simp: in_set_conv_nth)
    then show ?thesis by (simp add: overallPhase_def)
  qed
qed

end
