(* ===== verification/Fn_Alias.thy ===== *)
theory Fn_Alias
  imports Fn_Props
begin

text \<open>
  What sharing maps does to the composition function: a body that is built from an object of another task's output holds
  that very object, so a mapping below it writes into the output, and a mapping of the object below itself ties a
  cycle, which nothing can be marshalled from.
\<close>

section \<open>Building a body from two mappings\<close>

lemma copyInput_frame:
  assumes "copyInput inp h = (body, h1)" and "a < next_addr h"
  shows "body = next_addr h" and "cells h1 a = cells h a" and "next_addr h1 = Suc (next_addr h)"
proof -
  have fold: "cells (fold (\<lambda>(k, v) h. map_write h b k v) kvs g) a = cells g a
      \<and> next_addr (fold (\<lambda>(k, v) h. map_write h b k v) kvs g) = next_addr g" if "a \<noteq> b" for kvs b g
    using that by (induction kvs arbitrary: g) (auto simp: map_write_def)
  let ?kvs = "case inp of None \<Rightarrow> [] | Some x \<Rightarrow> cells h x"
  have b: "body = next_addr h" "h1 = fold (\<lambda>(k, v) h. map_write h body k v) ?kvs
      (h\<lparr>cells := (cells h)(next_addr h := []), next_addr := Suc (next_addr h)\<rparr>)"
    using assms(1) by (auto simp: copyInput_def new_map_def)
  show "body = next_addr h" by (rule b(1))
  show "cells h1 a = cells h a" "next_addr h1 = Suc (next_addr h)"
    using fold [of body] assms(2) b by simp_all
qed

text \<open>
  The common situation: the output \<open>a\<close> of task \<open>src\<close> holds the object \<open>q\<close> at \<open>f\<close>, and the first
  mapping moves it to the field \<open>t\<close> of the body.
\<close>

definition moves_object :: "heap \<Rightarrow> (string \<rightharpoonup> addr option) \<Rightarrow> string \<Rightarrow> string \<Rightarrow> string \<Rightarrow> string \<Rightarrow> addr \<Rightarrow> addr \<Rightarrow> bool" where
  "moves_object h outputs src f t x a q \<longleftrightarrow> outputs src = Some (Some a) \<and> kv_get (cells h a) f = Some (VMap q)
     \<and> a < next_addr h \<and> q < next_addr h \<and> q \<noteq> a
     \<and> CHR ''.'' \<notin> set f \<and> CHR ''.'' \<notin> set t \<and> CHR ''.'' \<notin> set x"

lemma build_twice:
  assumes "moves_object h outputs src f t x a q" and "kv_get (cells h a) g = Some v" and "CHR ''.'' \<notin> set g"
    and "ts_inputFrom task = [\<lparr>fm_sourceTask = src, fm_sourceField = f, fm_targetField = t\<rparr>,
           \<lparr>fm_sourceTask = src, fm_sourceField = g, fm_targetField = t @ ''.'' @ x\<rparr>]"
  obtains h2 body where "buildDisposableRequest c task hdrs pc outputs h =
      (case marshal_val c h2 (VMap body) of Inl e \<Rightarrow> (Inl e, h2) | Inr bytes \<Rightarrow>
         (Inr \<lparr>dr_apiVersion = ''http.crossplane.io/v1alpha2'', dr_kind = ''DisposableRequest'',
            dr_providerConfig = pc, dr_url = ts_endpoint task,
            dr_method = (if ts_method task = [] then ''POST'' else ts_method task),
            dr_body = bytes, dr_headers = mergeHeaders hdrs (ts_headers task)\<rparr>, h2))"
    "cells h2 q = kv_put x v (cells h q)" "cells h2 a = cells h a" "next_addr h \<le> next_addr h2"
    "kv_get (cells h2 body) t = Some (VMap q)"
proof -
  obtain body h1 where b: "copyInput (ts_input task) h = (body, h1)" by fastforce
  have o: "outputs src = Some (Some a)" "kv_get (cells h a) f = Some (VMap q)" "a < next_addr h" "q < next_addr h" "q \<noteq> a"
    and dots: "CHR ''.'' \<notin> set f" "CHR ''.'' \<notin> set t" "CHR ''.'' \<notin> set x"
    using assms(1) by (simp_all add: moves_object_def)
  note fa = copyInput_frame [OF b o(3)] and fq = copyInput_frame [OF b o(4)]
  have ne: "body \<noteq> a" "body \<noteq> q" using fa(1) o(3,4) by auto
  define h' where "h' = map_write h1 body t (VMap q)"
  define h2 where "h2 = map_write h' q x v"
  have cell': "cells h' a = cells h a" "cells h' q = cells h q" "kv_get (cells h' body) t = Some (VMap q)"
    using ne fa(2) fq(2) by (simp_all add: h'_def map_write_def)
  have path: "split_on CHR ''.'' (t @ CHR ''.'' # x) = [t, x]"
    using split_on_append [OF dots(2)] split_on_single [OF dots(3)] by simp
  have "fn_getJSONField h1 (Some a) f = Some (VMap q)" "fn_setJSONField h1 body t (VMap q) = h'"
    by (simp_all add: fn_getJSONField_def fn_setJSONField_def split_on_single [OF dots(1)] split_on_single [OF dots(2)]
        fa(2) o(2) h'_def)
  moreover have "fn_getJSONField h' (Some a) g = Some v" "fn_setJSONField h' body (t @ ''.'' @ x) v = h2"
    using cell' by (simp_all add: fn_getJSONField_def fn_setJSONField_def split_on_single [OF assms(3)] assms(2) path
        fn_next_def h2_def)
  ultimately have "applyInputFrom (ts_name task) outputs body (ts_inputFrom task) h1 = (None, h2)"
    by (simp add: assms(4) o(1))
  with b have "buildDisposableRequest c task hdrs pc outputs h =
      (case marshal_val c h2 (VMap body) of Inl e \<Rightarrow> (Inl e, h2) | Inr bytes \<Rightarrow>
         (Inr \<lparr>dr_apiVersion = ''http.crossplane.io/v1alpha2'', dr_kind = ''DisposableRequest'',
            dr_providerConfig = pc, dr_url = ts_endpoint task,
            dr_method = (if ts_method task = [] then ''POST'' else ts_method task),
            dr_body = bytes, dr_headers = mergeHeaders hdrs (ts_headers task)\<rparr>, h2))"
    by (simp add: buildDisposableRequest_def)
  then show thesis
  proof (rule that)
    show "cells h2 q = kv_put x v (cells h q)" "cells h2 a = cells h a" "kv_get (cells h2 body) t = Some (VMap q)"
      using cell' o(5) ne by (simp_all add: h2_def map_write_def)
    show "next_addr h \<le> next_addr h2" using fa(3) by (simp add: h2_def h'_def map_write_def)
  qed
qed

section \<open>Outputs that are overwritten\<close>


section \<open>Cycles\<close>

lemma dump_kvs_member: "(k, v) \<in> set m \<Longrightarrow> dump seen h v = None \<Longrightarrow> dump_kvs seen h m = None"
  by (induction m) (auto split: option.splits)

lemma dump_member: "kv_get (cells h a) k = Some v \<Longrightarrow> (\<And>seen. dump seen h v = None) \<Longrightarrow> dump seen h (VMap a) = None"
  using dump_kvs_member by (auto dest!: map_of_SomeD)

lemma dump_loop: "kv_get (cells h q) x = Some (VMap q) \<Longrightarrow> dump seen h (VMap q) = None"
  using dump_kvs_member [of x "VMap q" "cells h q" "insert q seen" h] by (auto dest!: map_of_SomeD)

text \<open>
  Mapping an object and the same object below itself ties a cycle: the request cannot be built, and from then on the
  source's output cannot be marshalled either.
\<close>

lemma mapping_ties_cycle:
  assumes "moves_object h outputs src f t x a q"
    and "ts_inputFrom task = [\<lparr>fm_sourceTask = src, fm_sourceField = f, fm_targetField = t\<rparr>,
           \<lparr>fm_sourceTask = src, fm_sourceField = f, fm_targetField = t @ ''.'' @ x\<rparr>]"
  shows "\<exists>h2. buildDisposableRequest c task hdrs pc outputs h = (Inl cycleError, h2) \<and> outputMember h2 (Some a) = None"
proof -
  have m: "kv_get (cells h a) f = Some (VMap q)" and f: "CHR ''.'' \<notin> set f" using assms(1) by (simp_all add: moves_object_def)
  obtain h2 body where b: "buildDisposableRequest c task hdrs pc outputs h =
      (case marshal_val c h2 (VMap body) of Inl e \<Rightarrow> (Inl e, h2) | Inr bytes \<Rightarrow>
         (Inr \<lparr>dr_apiVersion = ''http.crossplane.io/v1alpha2'', dr_kind = ''DisposableRequest'',
            dr_providerConfig = pc, dr_url = ts_endpoint task,
            dr_method = (if ts_method task = [] then ''POST'' else ts_method task),
            dr_body = bytes, dr_headers = mergeHeaders hdrs (ts_headers task)\<rparr>, h2))"
    and cell: "cells h2 q = kv_put x (VMap q) (cells h q)" "cells h2 a = cells h a" "kv_get (cells h2 body) t = Some (VMap q)"
    by (rule build_twice [OF assms(1) m f assms(2)])
  have q: "dump seen h2 (VMap q) = None" for seen by (rule dump_loop [of _ _ x]) (simp add: cell)
  have "dump {} h2 (VMap body) = None" by (rule dump_member [OF cell(3) q])
  moreover have "dump {} h2 (VMap a) = None" by (rule dump_member [of _ _ f, OF _ q]) (simp add: cell m)
  moreover have "cells h2 a \<noteq> []" using m cell(2) by auto
  ultimately show ?thesis using b by (simp add: marshal_val_def outputMember_def)
qed

lemma statuses_cyclic:
  "st \<in> set sts \<Longrightarrow> outputMember h (st_output st) = None \<Longrightarrow> statusesJson h sts = None"
  by (induction sts) (auto simp: statusJson_def split: option.splits)

text \<open>
  C40. Once the output of one task has become cyclic, a run that is not fatal publishes no task status at all and no webhook: the
  composite gets a nil \<open>status.tasks\<close>, whatever the other tasks have answered, and the webhook is not
  desired even when the phase is final and there is a URL.
\<close>

theorem cyclic_output_hides_statuses:
  assumes "rsp_fatal (RunFunction c req) = None" and "rq_input req = Inr inp" and "rq_oxr req = Inr xr"
    and "xr_tasks xr = Inr (Some raw)" and "decodeTasks c raw = Inr (tasks, h)" and "rq_observed req = Inr obs"
    and "s = runTasks (mkEnv c inp obs) tasks (initLoop h)" and "notifyKey \<notin> ts_name ` set tasks"
    and "st \<in> set (ls_statuses s)" and "outputMember (ls_heap s) (st_output st) = None"
  shows "\<exists>xs d dc. rsp_status (RunFunction c req) = Some xs \<and> xs_phase xs = overallPhase s \<and> xs_tasks xs = []
    \<and> rsp_desired (RunFunction c req) = Some d \<and> d notifyKey = None \<and> rq_dxr req = Inr dc
    \<and> rsp_composite (RunFunction c req) = Some (withStatus req (xr_uid xr) (overallPhase s) None dc)"
proof -
  let ?pc = "fe_providerConfigName (mkEnv c inp obs)"
  have none: "statusesJson (ls_heap s) (ls_statuses s) = None" by (rule statuses_cyclic [OF assms(9,10)])
  then have raw: "rawStatuses c s = None" by (simp add: rawStatuses_def toUnstructuredSlice_def)
  have "raw \<noteq> []" using assms(1,2,3,4) by (auto simp: RunFunction_def Fatal_def)
  then have run: "RunFunction c req = finishRun c req xr ?pc (length tasks) s"
    using assms(2-7) by (cases raw) (simp_all add: RunFunction_def)
  obtain xs where xs: "rsp_status (finishRun c req xr ?pc (length tasks) s) = Some xs"
    using assms(1) unfolding run by (auto simp: finishRun_def publish_def Fatal_def split: option.splits sum.splits)
  note fin = finishRun_complete [OF xs]
  have "ls_desired s notifyKey = None" using names_only assms(8) unfolding assms(7) by blast
  then have "withNotify c xr (overallPhase s) ?pc s notifyKey = None"
    by (simp add: withNotify_def buildNotifyRequest_def none)
  with fin xs raw show ?thesis unfolding run by auto
qed

end
