(* ===== verification/Fn_Demo.thy ===== *)
theory Fn_Demo
  imports Fn_Settle Fn_Alias Go_Json
begin

text \<open>
  Concrete runs of the composition function with the codec of \<open>Go_Json\<close>: inputs on which the
  properties of \<open>Fn_Props\<close> are exercised, and runs that show behaviours the repository's documents
  describe differently.
\<close>

section \<open>Inputs\<close>

definition fnTask :: "string \<Rightarrow> FieldMapping list \<Rightarrow> TaskSpec" where
  "fnTask n ms = \<lparr>ts_name = n, ts_endpoint = ''http://m/'' @ n, ts_method = [], ts_headers = Map.empty,
                ts_input = None, ts_inputFrom = ms\<rparr>"

definition takes :: "string \<Rightarrow> string \<Rightarrow> string \<Rightarrow> FieldMapping" where
  "takes st sf tf = \<lparr>fm_sourceTask = st, fm_sourceField = sf, fm_targetField = tf\<rparr>"

definition answered :: "int64 \<Rightarrow> string \<Rightarrow> ObservedRes" where
  "answered code body = \<lparr>or_error = [], or_code = code, or_body = body, or_synced = None\<rparr>"

definition demo_env :: "(string \<rightharpoonup> ObservedRes) \<Rightarrow> FnEnv" where
  "demo_env obs = mkEnv go_codec \<lparr>in_providerConfigName = [], in_defaultHeaders = Map.empty\<rparr> obs"

text \<open>\<open>a\<close> has answered, \<open>b\<close> depends on it, \<open>c\<close> is independent, \<open>d\<close> depends on \<open>b\<close>.\<close>

definition chain :: "TaskSpec list" where
  "chain = [fnTask ''a'' [], fnTask ''b'' [takes ''a'' ''s'' ''t''], fnTask ''c'' [], fnTask ''d'' [takes ''b'' ''x'' ''y'']]"

definition a_done :: "string \<rightharpoonup> ObservedRes" where
  "a_done = [''a'' \<mapsto> answered 200 ''{\"s\":\"v\"}'']"

definition a_failed :: "string \<rightharpoonup> ObservedRes" where
  "a_failed = [''a'' \<mapsto> answered 500 ''no'', ''c'' \<mapsto> answered 0 []]"

abbreviation run_done :: LoopSt where
  "run_done \<equiv> runTasks (demo_env a_done) chain (initLoop empty_heap)"

abbreviation run_failed :: LoopSt where
  "run_failed \<equiv> runTasks (demo_env a_failed) chain (initLoop empty_heap)"

text \<open>
  Whole requests, after an earlier function that desires a Secret and has labelled the composite. The setters write into an object
  below the first name, and fail when there is something else.
\<close>

definition setBelow :: "jobj \<Rightarrow> json \<Rightarrow> string list \<Rightarrow> goerr option \<times> jobj" where
  "setBelow m v fs = (case fs of
     [f, g] \<Rightarrow> (case kv_get m f of
        None \<Rightarrow> (None, kv_put f (JObj [(g, v)]) m)
      | Some (JObj sub) \<Rightarrow> (None, kv_put f (JObj (kv_put g v sub)) m)
      | Some j \<Rightarrow> (Some (GoErr ''value cannot be set''), m))
   | _ \<Rightarrow> (Some (GoErr ''value cannot be set''), m))"

definition demo_req :: "json list \<Rightarrow> string \<Rightarrow> (string \<rightharpoonup> ObservedRes) \<Rightarrow> FnRequest" where
  "demo_req raw url obs =
     \<lparr>rq_tag = ''hello'', rq_desired = [''secret'' \<mapsto> JObj [(''kind'', JStr ''Secret'')]], rq_context = [],
      rq_input = Inr \<lparr>in_providerConfigName = [], in_defaultHeaders = Map.empty\<rparr>,
      rq_oxr = Inr \<lparr>xr_uid = ''u1'', xr_tasks = Inr (Some raw), xr_notifyURL = url, xr_name = ''wf''\<rparr>,
      rq_observed = Inr obs, rq_setDesired = (\<lambda>_. None), rq_dxr = Inr [(''metadata'', JObj [(''labels'', JStr ''l'')])],
      rq_setNestedField = setBelow,
      rq_setNestedSlice = (\<lambda>m v. setBelow m (case v of None \<Rightarrow> JNull | Some js \<Rightarrow> JArr js)),
      rq_setDxr = (\<lambda>_. None)\<rparr>"

definition raw_task :: "string \<Rightarrow> json" where
  "raw_task n = JObj [(''endpoint'', JStr ''h''), (''name'', JStr n)]"

definition two_tasks :: "json list" where
  "two_tasks = [raw_task ''a'', raw_task ''c'']"

section \<open>The properties at work\<close>

lemma chain_simps [simp]: "length chain = 4" "map ts_name chain = [''a'', ''b'', ''c'', ''d'']"
  "ts_inputFrom (chain ! Suc 0) = [takes ''a'' ''s'' ''t'']" "ts_name (chain ! Suc 0) = ''b''"
  "ts_name (chain ! 0) = ''a''" "fm_sourceTask (takes ''a'' ''s'' ''t'') = ''a''"
  by (simp_all add: chain_def fnTask_def takes_def)

lemma chain_name_b: "i < 4 \<Longrightarrow> ts_name (chain ! i) = ''b'' \<Longrightarrow> i = 1"
  by (auto simp: chain_def fnTask_def less_Suc_eq numeral_eq_Suc)

theorem requests_are_gated_witness:
  "''b'' \<in> dom (ls_desired run_done) \<and> hasPhase (ls_statuses run_done) 1 ''a'' ''Succeeded''"
proof -
  have "ls_desired run_done ''b'' \<noteq> None" by code_simp
  then have d: "''b'' \<in> dom (ls_desired run_done)" by blast
  from requests_are_gated [OF this] obtain i where i: "i < 4" "ts_name (chain ! i) = ''b''"
    and p: "\<forall>m \<in> set (ts_inputFrom (chain ! i)). hasPhase (ls_statuses run_done) i (fm_sourceTask m) ''Succeeded''"
    by auto
  with chain_name_b [OF i] d show ?thesis by simp
qed

theorem skipped_iff_source_failed_witness:
  "1 < length chain \<and> st_phase (ls_statuses run_failed ! 1) = ''Skipped''"
proof -
  have "\<exists>st \<in> set (take 1 (ls_statuses run_failed)). st_name st = ''a'' \<and> st_phase st = ''Failed''"
    by code_simp
  then have "hasPhase (ls_statuses run_failed) 1 ''a'' ''Failed''" by (simp only: hasPhase_take)
  with skipped_iff_source_failed [of 1 chain "demo_env a_failed" empty_heap] show ?thesis by simp
qed

theorem ready_task_is_requested_witness:
  "st_phase (ls_statuses run_done ! 1) = ''Pending'' \<and> ''b'' \<in> dom (ls_desired run_done)"
proof -
  have "\<exists>st \<in> set (take 1 (ls_statuses run_done)). st_name st = ''a'' \<and> st_phase st = ''Succeeded''"
    and "\<not> (\<exists>st \<in> set (take 1 (ls_statuses run_done)). st_name st = ''a'' \<and> st_phase st = ''Failed'')"
    and "fe_observed (demo_env a_done) ''b'' = None"
    and ph: "st_phase (ls_statuses run_done ! 1) = ''Pending''"
    by code_simp+
  then show ?thesis
    using ready_task_is_requested [of 1 chain "demo_env a_done" empty_heap]
    by (simp add: hasPhase_take Let_def ph)
qed

text \<open>\<open>b\<close> is in flight and its source has failed: its request is dropped.\<close>

definition b_in_flight :: "string \<rightharpoonup> ObservedRes" where
  "b_in_flight = [''a'' \<mapsto> answered 500 ''no'', ''b'' \<mapsto> answered 0 []]"


theorem workflow_settles_witness:
  "overallPhase (loopWith (demo_env Map.empty) chain empty_heap
       (observedAt (demo_env Map.empty) chain empty_heap (\<lambda>_. answered 200 ''{\"s\":1,\"x\":2}'') 4)) \<in> {''Succeeded'', ''Failed''}"
proof (rule workflow_settles)
  show "wired chain" by code_simp
qed (simp_all add: has_answer_def answered_def chain_def)

abbreviation early_run :: FnResponse where
  "early_run \<equiv> RunFunction go_codec (demo_req two_tasks ''n'' a_failed)"

lemma early_run_report:
  "(map_option (\<lambda>x. (xs_phase x, map (\<lambda>j. getPath j [''phase'']) (xs_tasks x))) (rsp_status early_run),
    map_option (\<lambda>d. d notifyKey = None) (rsp_desired early_run))
     = (Some (''Failed'', [Some (JStr ''Failed''), Some (JStr ''Running'')]), Some False)"
  by code_simp

lemmas early_run_status = early_run_report [unfolded prod.inject, THEN conjunct1]
lemmas early_run_notify = early_run_report [unfolded prod.inject, THEN conjunct2]

lemma two_tasks_decode:
  "case decodeTasks go_codec two_tasks of Inl e \<Rightarrow> False
   | Inr (ts, h) \<Rightarrow> list_all (\<lambda>t. ts_name t \<noteq> notifyKey) ts"
  by code_simp

theorem webhook_only_when_final_witness:
  "xs_phase (the (rsp_status early_run)) \<in> {''Succeeded'', ''Failed''}
   \<and> dr_url (the (the (rsp_desired early_run) notifyKey)) = ''n''"
proof -
  obtain ts h where "decodeTasks go_codec two_tasks = Inr (ts, h)" "notifyKey \<notin> ts_name ` set ts"
    using two_tasks_decode by (fastforce simp: list_all_iff split: sum.splits)
  moreover obtain xs where "rsp_status early_run = Some xs" using early_run_status by auto
  moreover obtain d nr where "rsp_desired early_run = Some d" "d notifyKey = Some nr"
    using early_run_notify by auto
  ultimately show ?thesis
    using webhook_only_when_final [where c = go_codec and req = "demo_req two_tasks ''n'' a_failed"
        and xr = "\<lparr>xr_uid = ''u1'', xr_tasks = Inr (Some two_tasks), xr_notifyURL = ''n'', xr_name = ''wf''\<rparr>"]
    by (auto simp: demo_req_def)
qed

section \<open>Behaviours the documents describe differently\<close>

text \<open>
  The webhook does not wait for every task to settle: with task \<open>a\<close> failed and task \<open>c\<close>
  still running, the phase is already Failed and the webhook request is desired, with a payload that
  reports \<open>c\<close> as Running.
\<close>

theorem webhook_before_all_settled:
  "xs_phase (the (rsp_status early_run)) = ''Failed''
   \<and> the (rsp_desired early_run) notifyKey \<noteq> None
   \<and> map (\<lambda>j. getPath j [''phase'']) (xs_tasks (the (rsp_status early_run)))
       = [Some (JStr ''Failed''), Some (JStr ''Running'')]"
  using early_run_status early_run_notify by auto

text \<open>
  New requests are not created one per run: two tasks without sources are both requested by
  the first run.
\<close>

theorem independent_tasks_start_together:
  "let s = runTasks (demo_env Map.empty) [fnTask ''a'' [], fnTask ''c'' []] (initLoop empty_heap)
   in ls_desired s ''a'' \<noteq> None \<and> ls_desired s ''c'' \<noteq> None"
  by code_simp

text \<open>
  Skipping is not transitive: when \<open>a\<close> fails its dependent \<open>b\<close> is Skipped, but \<open>d\<close>, which
  depends on \<open>b\<close> and can therefore never run either, is reported as Pending.
\<close>

theorem transitive_dependents_stay_pending:
  "map st_phase (ls_statuses run_failed) = [''Failed'', ''Skipped'', ''Running'', ''Pending'']"
  by code_simp

section \<open>Shared maps\<close>

text \<open>The output of \<open>a\<close>: \<open>b\<close> copies its object \<open>d\<close> to the field \<open>x\<close> and then writes below \<open>x\<close>.\<close>

definition alias_heap :: heap where
  "alias_heap = snd (load_map (Some [(''d'', JObj [(''k'', JStr ''old'')]), (''n'', JStr ''new'')]) empty_heap)"


text \<open>A whole request in which \<open>b\<close> maps the object \<open>d\<close> of \<open>a\<close> and the same object below itself.\<close>

definition cycle_raw :: "json list" where
  "cycle_raw = [raw_task ''a'', JObj [(''endpoint'', JStr ''h''),
     (''inputFrom'', JArr [JObj [(''sourceField'', JStr ''d''), (''sourceTask'', JStr ''a''), (''targetField'', JStr ''x'')],
                         JObj [(''sourceField'', JStr ''d''), (''sourceTask'', JStr ''a''), (''targetField'', JStr ''x.y'')]]),
     (''name'', JStr ''b'')]]"

definition alias_obs :: "string \<rightharpoonup> ObservedRes" where
  "alias_obs = [''a'' \<mapsto> answered 200 ''{\"d\":{\"k\":\"old\"},\"n\":\"new\"}'']"

abbreviation cycle_req :: FnRequest where
  "cycle_req \<equiv> demo_req cycle_raw ''n'' alias_obs"

definition cycle_loop :: LoopSt where
  "cycle_loop = (case decodeTasks go_codec cycle_raw of Inr (ts, h) \<Rightarrow> runTasks (demo_env alias_obs) ts (initLoop h))"

lemma cycle_decode:
  "case decodeTasks go_codec cycle_raw of Inl e \<Rightarrow> False | Inr (ts, h) \<Rightarrow> list_all (\<lambda>t. ts_name t \<noteq> notifyKey) ts"
  by code_simp

lemma cycle_report:
  "rsp_fatal (RunFunction go_codec cycle_req) = None
   \<and> list_ex (\<lambda>st. outputMember (ls_heap cycle_loop) (st_output st) = None) (ls_statuses cycle_loop)
   \<and> overallPhase cycle_loop = ''Failed''"
  by code_simp

theorem cyclic_output_hides_statuses_witness:
  "\<exists>xs d dc. rsp_status (RunFunction go_codec cycle_req) = Some xs \<and> xs_phase xs = ''Failed'' \<and> xs_tasks xs = []
    \<and> rsp_desired (RunFunction go_codec cycle_req) = Some d \<and> d notifyKey = None
    \<and> rsp_composite (RunFunction go_codec cycle_req) = Some (withStatus cycle_req ''u1'' ''Failed'' None dc)"
proof -
  obtain ts h where dec: "decodeTasks go_codec cycle_raw = Inr (ts, h)" "notifyKey \<notin> ts_name ` set ts"
    using cycle_decode by (fastforce simp: list_all_iff split: sum.splits)
  let ?inp = "\<lparr>in_providerConfigName = [], in_defaultHeaders = Map.empty\<rparr> :: FnInput"
  let ?xr = "\<lparr>xr_uid = ''u1'', xr_tasks = Inr (Some cycle_raw), xr_notifyURL = ''n'', xr_name = ''wf''\<rparr> :: Composite"
  have req: "rq_input cycle_req = Inr ?inp" "rq_oxr cycle_req = Inr ?xr" "rq_observed cycle_req = Inr alias_obs"
    by (simp_all add: demo_req_def)
  have loop: "cycle_loop = runTasks (mkEnv go_codec ?inp alias_obs) ts (initLoop h)"
    by (simp add: cycle_loop_def dec(1) demo_env_def)
  from cycle_report obtain st where st: "st \<in> set (ls_statuses cycle_loop)" "outputMember (ls_heap cycle_loop) (st_output st) = None"
    and ok: "rsp_fatal (RunFunction go_codec cycle_req) = None" "overallPhase cycle_loop = ''Failed''"
    by (auto simp: list_ex_iff)
  from cyclic_output_hides_statuses [OF ok(1) req(1,2) _ dec(1) req(3) loop dec(2) st] ok(2) show ?thesis by auto
qed

section \<open>The rest of the pipeline\<close>

lemma setBelow_other: "k \<noteq> f \<Longrightarrow> kv_get (snd (setBelow m v (f # fs))) k = kv_get m k"
  by (auto simp: setBelow_def split: list.splits option.splits json.splits)

theorem pipeline_left_alone_witness:
  "desiredAt early_run ''secret'' = Some (Passed (JObj [(''kind'', JStr ''Secret'')]))
   \<and> (\<exists>dc. rsp_composite early_run = Some dc \<and> kv_get dc ''metadata'' = Some (JObj [(''labels'', JStr ''l'')]))"
proof -
  let ?req = "demo_req two_tasks ''n'' a_failed"
  have names: "\<And>xr raw ts h. rq_oxr ?req = Inr xr \<Longrightarrow> xr_tasks xr = Inr (Some raw) \<Longrightarrow> decodeTasks go_codec raw = Inr (ts, h)
      \<Longrightarrow> ''secret'' \<notin> ts_name ` set ts"
  proof -
    fix xr raw ts h
    assume "rq_oxr ?req = Inr xr" "xr_tasks xr = Inr (Some raw)" "decodeTasks go_codec raw = Inr (ts, h)"
    then have "decodeTasks go_codec two_tasks = Inr (ts, h)" by (auto simp: demo_req_def)
    moreover have "case decodeTasks go_codec two_tasks of Inl e \<Rightarrow> False | Inr (ts, h) \<Rightarrow> list_all (\<lambda>t. ts_name t \<noteq> ''secret'') ts"
      by code_simp
    ultimately show "''secret'' \<notin> ts_name ` set ts" by (auto simp: list_all_iff)
  qed
  have setters: "rq_setNestedField ?req = setBelow" "rq_setNestedSlice ?req = (\<lambda>m v. setBelow m (case v of None \<Rightarrow> JNull | Some js \<Rightarrow> JArr js))"
    "rq_desired ?req ''secret'' = Some (JObj [(''kind'', JStr ''Secret'')])" "rq_dxr ?req = Inr [(''metadata'', JObj [(''labels'', JStr ''l'')])]"
    by (simp_all add: demo_req_def)
  have "rsp_tag early_run = rq_tag ?req \<and> rsp_context early_run = rq_context ?req
      \<and> desiredAt early_run ''secret'' = map_option Passed (rq_desired ?req ''secret'')
      \<and> (case rsp_composite early_run of None \<Rightarrow> True
         | Some dc' \<Rightarrow> \<exists>dc. rq_dxr ?req = Inr dc \<and> kv_get dc' ''metadata'' = kv_get dc ''metadata'')"
    by (rule pipeline_left_alone [OF _ names]) (simp_all add: setters setBelow_other notifyKey_def)
  moreover have "rsp_composite early_run \<noteq> None" by code_simp
  ultimately show ?thesis by (auto simp: setters)
qed

end
