(* ===== verification/Sha256_Test.thy ===== *)
theory Sha256_Test
  imports Sha256
begin

text \<open>The digest of "abc" given in FIPS 180-4, computed by the definitions of \<open>Sha256\<close>.\<close>

lemma sha256_abc: "sha256hex ''abc'' = ''ba7816bf8f01cfea414140de5dae2223b00361a396177a9cb410ff61f20015ad''"
  by code_simp

end
