(* ===== verification/Spec2Isabelle.thy ===== *)
theory Spec2Isabelle
  imports Scheme Flow_Runs Dashboard_Demo Cluster_Demo Deep_Copy_Demo Fn_Main Go_Json_Fuel Fn_Body Fn_Demo Task_Demo Flow_Demo Sha256_Test
begin

text \<open>
  A verification of \<open>mathop-operator\<close>: a Kubernetes operator (\<open>src/internal\<close>, \<open>src/api\<close>) that
  computes small arithmetic objects and runs HTTP tasks and workflows of them, and a Crossplane
  composition function with a database watcher (\<open>src/function-httptask\<close>) that does the latter by
  desired state.

  \<^bold>\<open>The program.\<close>
  Add and Subtract publish the result of two \<open>int32\<close> operands; a Square reads \<open>status.result\<close> of any
  object by apiVersion, kind and name. An HTTPTask builds a JSON body from its input and from fields of
  the outputs of other tasks, calls an endpoint and keeps the response. A Workflow creates one HTTPTask
  per step, gathers their states and posts its status to a URL when it has ended. A
  dashboard server shows workflows by transaction id. Finalizers keep an object that others refer
  to. The composition function does the same job as the Workflow controller for Crossplane: on every
  run it derives the tasks' states from the observed requests and says which requests
  are desired; the watcher writes what the function published into Postgres.

  \<^bold>\<open>Theories.\<close>
  \<^item> \<open>Go_Prelude\<close>, \<open>Json\<close>: strings, sorted maps, errors, machine integers, JSON values and the interface
    of a JSON codec. \<open>Go_Json\<close>: an executable codec for \<open>encoding/json\<close>; \<open>Go_Json_Fuel\<close>: its fuel is enough. \<open>Sha256\<close>: \<open>crypto/sha256\<close>;
    \<open>Sha256_Test\<close> checks it on a published vector.
  \<^item> \<open>Json_Path\<close>: \<open>internal/controller/jsonpath.go\<close> on values, with the locale \<open>path_access\<close>.
  \<^item> \<open>Go_Heap\<close>, \<open>Fn_Types\<close>, \<open>Fn_Run\<close>: \<open>function-httptask/fn.go\<close> on an explicit heap of maps, because
    that code shares maps between outputs, statuses and bodies. \<open>Fn_Props\<close> proves which requests
    are desired, the phases, the webhook and the error paths. \<open>Fn_Settle\<close>: repeated runs, with the provider's answers
    between them, come to an end.
  \<^item> \<open>Heap_Refine\<close>: where no map is shared, the path operations on maps refine those on values; the
    abstraction is an ownership predicate on the heap. \<open>Fn_Body\<close>: so does building a body from fields that
    are not objects. (With objects it does not: \<open>Fn_Alias\<close> shows how outputs are overwritten and cycles tied.)
  \<^item> \<open>Kube_Api\<close>: the client and helper libraries as the records \<open>kclient\<close> and \<open>kutil\<close>, with what
    they document as the locales \<open>kube_api\<close> and \<open>kube_util\<close>. \<open>Api_Types\<close>: \<open>src/api/v1alpha1\<close>.
  \<^item> \<open>Go_Memory\<close>, \<open>Go_Cells\<close>, \<open>Deep_Copy\<close>, \<open>Deep_Copy_Props\<close>: the generated deep copies on a memory of typed cells. The locale
    \<open>deep_copy\<close> is the contract of a \<open>DeepCopyInto\<close>; it passes from fields to structs, pointers, slices and maps, and from the
    library's structs (locale \<open>meta_lib\<close>) to every kind and list. This is why objects read from the shared cache can be
    values in the rest of the development.
  \<^item> \<open>Ref_Check\<close>, \<open>Guarded\<close>: \<open>refcheck.go\<close>, \<open>task_refcheck.go\<close>, the field indexes and the finalizer
    blocks; the locale \<open>protected_kind\<close> proves deletion protection once for every kind, \<open>calc_kind\<close>
    extends it by a computed result.
  \<^item> \<open>Add_Ctl\<close>, \<open>Subtract_Ctl\<close>, \<open>Task_Transfer\<close>, \<open>Square_Ctl\<close>: the arithmetic controllers.
  \<^item> \<open>HTTPTask_Ctl\<close>, \<open>HTTPTask_Props\<close>: \<open>httptask_controller.go\<close>.
  \<^item> \<open>Workflow_Ctl\<close>, \<open>Workflow_Props\<close>: \<open>workflow_controller.go\<close>, with the locales \<open>workflow_world\<close>,
    \<open>flow_children\<close> (what \<open>CreateOrUpdate\<close> does to a child) and \<open>posting_world\<close> (the requests sent so far).
  \<^item> \<open>Manager\<close>: the options and the wiring of \<open>cmd/main.go\<close> with the \<open>SetupWithManager\<close> of every controller.
    \<open>Scheme\<close>: the \<open>init\<close> functions that make the kinds known to its clients, with the locale \<open>scheme_lib\<close>.
  \<^item> \<open>Status_Server\<close>: \<open>internal/statusserver/server.go\<close>. \<open>Dashboard\<close>: the script of its page, which follows the
    stream to the end. \<open>Db_Watcher\<close>: \<open>function-httptask/watcher/main.go\<close>.
    \<open>Fn_Main\<close>: \<open>function-httptask/main.go\<close>.
  \<^item> \<open>Kube_Ref\<close>: an API server in memory with versions, conflicts, a status subresource,
    finalizers and indexes, on which \<open>kube_util\<close> and \<open>kube_api\<close> are interpreted.
  \<^item> \<open>Cluster_Steps\<close>: the three arithmetic kinds as a step relation over the whole cluster, with the locale
    \<open>arith_cluster\<close>; what an interleaving of reconciles and requests of users can never do. \<open>Task_Steps\<close>: the same for
    HTTPTasks and Workflows, with the locale \<open>task_cluster\<close>.
  \<^item> \<open>Flow_Answer\<close>: from the answer of an endpoint to the status of the Workflow, through both controllers.
  \<^item> \<open>Fn_Demo\<close>, \<open>Kube_Demo\<close>, \<open>Task_Demo\<close>, \<open>Flow_Demo\<close>, \<open>Flow_Runs\<close>, \<open>Cluster_Demo\<close>, \<open>Dashboard_Demo\<close>, \<open>Deep_Copy_Demo\<close>: concrete objects and runs on it, which show that the
    hypotheses of the properties hold together.

  The properties that span components are at the end of this theory: the two ways to run a workflow
  send the same bodies, the dashboard URL of a Workflow leads to its status, and a Square of an Add
  publishes the square of the sum.

  \<^bold>\<open>How the code corresponds.\<close>
  A reconciler is a function from a request and a world to an outcome and a world; the world is the
  API server and everything else outside the process. Every early return is a branch; a Go panic is
  an outcome. \<open>int32\<close> and \<open>int64\<close> are words. A write returns the object as the server stored it.
  Log lines have no counterpart.

  \<^bold>\<open>Parameters.\<close>
  The Kubernetes client, \<open>CreateOrUpdate\<close>, \<open>SetControllerReference\<close>, the apimachinery parsers, the
  HTTP client, the Crossplane SDK, Postgres failures, clocks and the order of ranging over a map are
  arguments. The properties of the controllers assume the contract of \<open>kube_api\<close>: reads are
  current, a failed write stores nothing, and a status is stored as it was written (an API server may
  encode the raw JSON of an output anew). The cached client that \<open>cmd/main.go\<close> passes may lag, which is outside of it. What the
  composition function passes on from its request is in the response; what \<open>SetDesiredComposedResources\<close> has set before
  an error is not.

  \<^bold>\<open>Bounds.\<close>
  All functions are total. Only the JSON codec of \<open>Go_Json\<close> takes fuel: the parser the length of the text and
  one, the encoder of strings the length of the string. \<open>Go_Json_Fuel\<close> proves both to be enough: whatever any fuel parses,
  this parses. Walking a heap ends because each map is entered at most once on a path.

  \<^bold>\<open>Not modelled.\<close>
  Parsing flags and serving gRPC in \<open>function-httptask/main.go\<close>, listening and shutting down in \<open>Start\<close> (parameters),
  the informer's own loop, logging, the markup of the page and the helpers of the end-to-end tests; the HTTPTask reconciler without the
  \<open>HTTPClient\<close> that \<open>SetupWithManager\<close> gives it; the cleaning of paths and the redirects of \<open>ServeMux\<close>. The transition
  times of conditions, which nothing reads, are left out. A reconcile is one step: reconciles
  interleave with each other and with users (\<open>Cluster_Steps\<close>, \<open>Task_Steps\<close>) between their runs and not inside one.
\<close>

section \<open>Two ways to run a workflow\<close>

text \<open>
  The step of a Workflow that corresponds to a task of the composition function takes the same fields.
  \<open>sources_agree\<close>: every finished task of the function has a counterpart among the Workflow's
  children with the same output.
\<close>

definition stepMapping :: "FieldMapping \<Rightarrow> WorkflowFieldMapping" where
  "stepMapping m = \<lparr>wm_sourceStep = fm_sourceTask m, wm_sourceField = fm_sourceField m, wm_targetField = fm_targetField m\<rparr>"

definition sources_agree :: "codec \<Rightarrow> ('w, HTTPTask) kclient \<Rightarrow> Workflow \<Rightarrow> (string \<rightharpoonup> jobj) \<Rightarrow> 'w \<Rightarrow> bool" where
  "sources_agree c cl flow outs w \<longleftrightarrow> (\<forall>n out. outs n = Some out \<longrightarrow>
     (\<exists>src. kGet cl (ns_of flow, childName flow n) w = Inr src \<and> hs_output (ko_status src) \<noteq> []
        \<and> unmarshal_map c (hs_output (ko_status src)) = Inr (Some out)))"

lemma mergeInputFrom_fields:
  assumes "sources_agree c cl flow outs w" and "mergeFields outs ms b = Some b'" and "wt_inputFrom step = map stepMapping ms"
  shows "mergeInputFrom c cl (ns_of flow) (mappedInputFrom flow step) (Some b) w = BodyOk (Some b')"
  using assms(2) unfolding mappedInputFrom_def assms(3)
proof (induction ms arbitrary: b)
  case (Cons m ms)
  then obtain out v where out: "outs (fm_sourceTask m) = Some out" "getJSONField out (fm_sourceField m) = Some v"
    and rest: "mergeFields outs ms (setJSONField b (fm_targetField m) v) = Some b'"
    by (auto split: option.splits)
  from assms(1) out(1) obtain src where "kGet cl (ns_of flow, childName flow (fm_sourceTask m)) w = Inr src"
    "hs_output (ko_status src) \<noteq> []" "unmarshal_map c (hs_output (ko_status src)) = Inr (Some out)"
    unfolding sources_agree_def by blast
  with out(2) Cons.IH [OF rest] show ?case by (simp add: stepMapping_def)
qed simp

text \<open>
  C11. The composition function and the Workflow controller send the same body: for a step and a task with the
  same input and mappings, and sources with the same outputs, when the mapped fields are not objects and
  all present, the body of the DisposableRequest is the encoding of the body the child HTTPTask builds.
\<close>

theorem same_body_either_way:
  assumes "wt_inputFrom step = map stepMapping (ts_inputFrom task)"
    and "ko_spec child = childSpec flow step" and "ns_of child = ns_of flow"
    and "initialBody c child = BodyOk (Some m)" and "input_holds h (ts_input task) m A"
    and "outputs_hold h outputs outs A" and "sources_agree c cl flow outs w"
    and "mapped_flat outs (ts_inputFrom task)" and "mergeFields outs (ts_inputFrom task) m = Some b"
    and "marshal c (JObj b) = Inr bytes"
  shows "\<exists>dr h' body. buildDisposableRequest c task hdrs pc outputs h = (Inr dr, h')
    \<and> buildBody c cl child w = BodyOk body \<and> marshal c (bodyJson body) = Inr (dr_body dr)"
proof -
  have "buildBody c cl child w = BodyOk (Some b)"
    using mergeInputFrom_fields [OF assms(7,9,1)] by (simp add: buildBody_def assms(2-4) childSpec_def)
  then show ?thesis
    using request_body_on_values [OF assms(5,6,8,9,10), of hdrs pc] assms(10) by auto
qed

section \<open>The dashboard of a workflow\<close>

text \<open>
  C22. The dashboard URL that a successful reconcile publishes leads to that Workflow: the path behind the
  base URL is served by the page, and the two addresses the page then asks for are served by the JSON handler,
  which answers with the stored status, and by the event stream. Transaction ids are unique among the stored
  Workflows, as uids are, and do not start like the stream's path.
\<close>

theorem dashboard_link_works:
  assumes "workflow_world cl store idx env" and "idx TransactionIndexKey = workflowIndex" and "store w k = Some flow"
    and "WorkflowReconcile env cl k w = (Ret Done None, w')" and "store w' k = Some z"
    and "transactionOf flow \<noteq> []" and "\<not> prefix ''stream/'' (transactionOf flow)"
    and "kList cl None TransactionIndexKey (transactionOf flow) w' = Inr items"
    and "\<And>k' z'. store w' k' = Some z' \<Longrightarrow> ws_transactionID (ko_status z') = transactionOf flow \<Longrightarrow> k' = k"
    and "sv_marshalStatus sv (ko_status z) = Inr js"
  shows "ws_dashboardURL (ko_status z) = we_dashboardBaseURL env @ ''/workflows/'' @ transactionOf flow
    \<and> handlerFor (''/workflows/'' @ transactionOf flow) = Some Page
    \<and> rp_status (handlePage sv (''/workflows/'' @ transactionOf flow)) = 200
    \<and> handlerFor (''/api/workflows/'' @ transactionOf flow) = Some Snapshot
    \<and> handleWorkflowJSON sv cl (''/api/workflows/'' @ transactionOf flow) w' =
        \<lparr>rp_status = 200, rp_contentType = ''application/json'', rp_body = js @ [CHR 0x0A]\<rparr>
    \<and> handlerFor (''/api/workflows/stream/'' @ transactionOf flow) = Some Stream"
proof -
  have api: "kube_api cl store idx" using assms(1) by (simp add: workflow_world_def)
  have z: "ws_transactionID (ko_status z) = transactionOf flow"
    "ws_dashboardURL (ko_status z) = we_dashboardBaseURL env @ ''/workflows/'' @ transactionOf flow"
    using published_status [OF assms(1,3,4)] assms(5) by auto
  have "lookupWorkflow cl (transactionOf flow) w' = Inr z"
  proof (cases "lookupWorkflow cl (transactionOf flow) w'")
    case (Inl e)
    with lookup_transaction [OF api assms(2,8)] assms(6)
    have "\<forall>k' z'. store w' k' = Some z' \<longrightarrow> ws_transactionID (ko_status z') \<noteq> transactionOf flow" by simp
    with assms(5) z(1) show ?thesis by blast
  next
    case (Inr y)
    with lookup_transaction [OF api assms(2,8)] have "store w' (key_of y) = Some y"
      "ws_transactionID (ko_status y) = transactionOf flow" by simp_all
    with assms(5,9) Inr show ?thesis by fastforce
  qed
  then have json: "handleWorkflowJSON sv cl (''/api/workflows/'' @ transactionOf flow) w' =
      \<lparr>rp_status = 200, rp_contentType = ''application/json'', rp_body = js @ [CHR 0x0A]\<rparr>"
    using assms(10) by (simp add: handleWorkflowJSON_def trim_prefix_def)
  have page: "rp_status (handlePage sv (''/workflows/'' @ transactionOf flow)) = 200"
    using assms(6) by (simp add: handlePage_def trim_prefix_def)
  show ?thesis
    by (intro conjI z(2) handlerFor_page page handlerFor_snapshot [OF assms(7)] json handlerFor_stream)
qed

section \<open>From an Add to its Square\<close>

text \<open>What reading an object without its type gives: \<open>status.result\<close> as the API encodes it, an integer.\<close>

definition reads_result :: "schemaLib \<Rightarrow> 'w dynGet \<Rightarrow> GroupVersionKind \<Rightarrow> ('w \<Rightarrow> key \<Rightarrow> ('sp, 'st) kobj option)
    \<Rightarrow> ('st \<Rightarrow> int32 option) \<Rightarrow> bool" where
  "reads_result lib get gvk store result_of \<longleftrightarrow> (\<forall>w k x. store w k = Some x \<longrightarrow>
     (\<exists>c. get gvk k w = Inr c \<and>
        NestedInt64 lib c [''status'', ''result''] = Inr (map_option scast (result_of (ko_status x)))))"

text \<open>
  C16. An Add and then a Square that refers to it, both reconciled with success, publish the square of the
  sum of the operands in \<open>int32\<close> arithmetic.
\<close>

theorem sum_then_square:
  assumes "kube_util u" and "kube_api cAdd storeA idxA" and "storeA w (ns, n) = Some add" and "\<not> deleting add"
    and "AddReconcile u cAdd cSquare (ns, n) w = (Ret Done None, w1)"
    and "kube_api cSquare storeS idxS" and "storeS w1 (ns, q) = Some square"
    and "sq_sourceRef (ko_spec square) = \<lparr>sr_apiVersion = SchemeGroupVersion, sr_kind = ''Add'', sr_name = n\<rparr>"
    and "ParseGroupVersion lib SchemeGroupVersion = Inr gv"
    and "reads_result lib get (WithKind gv ''Add'') storeA ad_result"
    and "Ensure mgr (WithKind gv ''Add'') dw w1 = (None, dw1, w2)" and "storeS w2 = storeS w1" and "storeA w2 = storeA w1"
    and "SquareReconcile u lib get mgr cSquare (ns, q) dw w1 = (Ret Done None, dw2, w3)"
  shows "\<exists>y. storeS w3 (ns, q) = Some y \<and> sq_result (ko_status y) =
    Some ((ad_x (ko_spec add) + ad_y (ko_spec add)) * (ad_x (ko_spec add) + ad_y (ko_spec add)))"
proof -
  let ?r = "ad_x (ko_spec add) + ad_y (ko_spec add)"
  obtain x where "storeA w1 (ns, n) = Some x" "ad_result (ko_status x) = Some ?r"
    using calc_kind.reconciled [OF add_calc_kind [OF assms(1,2)] assms(3,4)] assms(5)
    unfolding AddReconcile_guarded by blast
  then obtain c where "get (WithKind gv ''Add'') (ns, n) w2 = Inr c"
    "NestedInt64 lib c [''status'', ''result''] = Inr (Some (scast ?r))"
    using assms(10,13) unfolding reads_result_def by (metis option.simps(9))
  then have fetch: "FetchTaskResult lib get (fst (ns, q)) (sr_apiVersion (sq_sourceRef (ko_spec square)))
      (sr_kind (sq_sourceRef (ko_spec square))) (sr_name (sq_sourceRef (ko_spec square))) w2 = Inr (Some (scast ?r))"
    by (simp add: FetchTaskResult_def assms(8,9))
  have "ParseGroupVersion lib (sr_apiVersion (sq_sourceRef (ko_spec square))) = Inr gv"
    "Ensure mgr (WithKind gv (sr_kind (sq_sourceRef (ko_spec square)))) dw w1 = (None, dw1, w2)"
    using assms(8,9,11) by simp_all
  from square_published [OF assms(6,7) this assms(12) fetch assms(14)] show ?thesis
    unfolding squareResult_scast by blast
qed

section \<open>A common example\<close>

definition sharedOut :: jobj where
  "sharedOut = [(''s'', JStr ''v'')]"

definition outHeap :: heap where
  "outHeap = \<lparr>cells = (\<lambda>_. [(''s'', VStr ''v'')]), next_addr = 1\<rparr>"

definition finishedChild :: HTTPTask where
  "finishedChild = readyChild\<lparr>ko_status := (ko_status readyChild)\<lparr>hs_output := ''{\"s\":\"v\"}''\<rparr>\<rparr>"

definition pairWorld :: cluster where
  "pairWorld = emptyCluster\<lparr>cw_tasks := tableWith [finishedChild, secondChild]\<rparr>"

lemma sharedOut_decoded: "unmarshal_map go_codec ''{\"s\":\"v\"}'' = Inr (Some sharedOut)"
  by code_simp

lemma sharedOut_rep: "rep outHeap (VMap 0) (JObj sharedOut) {0}"
proof -
  have "rep_kvs outHeap (cells outHeap 0) sharedOut {}"
    using kvs_cons [OF rep_str kvs_nil, of outHeap "''s''" "''v''"] by (simp add: outHeap_def sharedOut_def)
  from rep_map [OF this] show ?thesis by (simp add: outHeap_def)
qed

lemma sharedOut_held: "outputs_hold outHeap [''a'' \<mapsto> Some 0] [''a'' \<mapsto> sharedOut] {}"
  using sharedOut_rep by (auto simp: outputs_hold_def)

lemma sharedOut_field: "getJSONField sharedOut ''s'' = Some (JStr ''v'')"
  by (simp add: getJSONField_def sharedOut_def)

lemma pair_merged: "mergeFields [''a'' \<mapsto> sharedOut] [takes ''a'' ''s'' ''t''] [] = Some (setJSONField [] ''t'' (JStr ''v''))"
  by (simp add: takes_def sharedOut_field)

lemma pair_flat: "mapped_flat [''a'' \<mapsto> sharedOut] [takes ''a'' ''s'' ''t'']"
  using sharedOut_field by (simp add: takes_def)

theorem fn_body_on_values_witness:
  "\<exists>dr h'. buildDisposableRequest go_codec (fnTask ''b'' [takes ''a'' ''s'' ''t'']) Map.empty [] [''a'' \<mapsto> Some 0] outHeap = (Inr dr, h')
     \<and> dr_body dr = enc (JObj (setJSONField [] ''t'' (JStr ''v'')))"
proof -
  let ?t = "fnTask ''b'' [takes ''a'' ''s'' ''t'']"
  let ?b = "setJSONField [] ''t'' (JStr ''v'')"
  have "input_holds outHeap (ts_input ?t) [] {}" by (simp add: fnTask_def input_holds_def)
  moreover have "mapped_flat [''a'' \<mapsto> sharedOut] (ts_inputFrom ?t)" using pair_flat by (simp add: fnTask_def)
  moreover have "mergeFields [''a'' \<mapsto> sharedOut] (ts_inputFrom ?t) [] = Some ?b" using pair_merged by (simp add: fnTask_def)
  moreover have "marshal go_codec (JObj ?b) = Inr (enc (JObj ?b))" by (simp add: go_codec_def)
  ultimately show ?thesis using fn_body_on_values [OF _ sharedOut_held] by blast
qed

lemma pair_sources: "sources_agree go_codec refTasks demoFlow [''a'' \<mapsto> sharedOut] pairWorld"
proof -
  have "tasksOf pairWorld (''ns'', ''f-a'') = Some finishedChild"
    by (simp add: pairWorld_def tableWith_def finishedChild_def readyChild_def demoMeta_def)
  then have "kGet refTasks (ns_of demoFlow, childName demoFlow ''a'') pairWorld = Inr finishedChild"
    by (simp add: refTasks_def tableClient_def tableGet_def childName_def demoFlow_def demoMeta_def)
  moreover have "hs_output (ko_status finishedChild) = ''{\"s\":\"v\"}''" by (simp add: finishedChild_def)
  ultimately show ?thesis using sharedOut_decoded by (simp add: sources_agree_def)
qed

theorem same_body_either_way_witness:
  "\<exists>dr h' body. buildDisposableRequest go_codec (fnTask ''b'' [takes ''a'' ''s'' ''t'']) Map.empty [] [''a'' \<mapsto> Some 0] outHeap = (Inr dr, h')
     \<and> buildBody go_codec refTasks secondChild pairWorld = BodyOk body \<and> marshal go_codec (bodyJson body) = Inr (dr_body dr)"
proof (rule same_body_either_way [where step = secondStep and flow = demoFlow and m = "[]" and outs = "[''a'' \<mapsto> sharedOut]"])
  show "wt_inputFrom secondStep = map stepMapping (ts_inputFrom (fnTask ''b'' [takes ''a'' ''s'' ''t'']))"
    by (simp add: secondStep_def demoStep_def stepMapping_def fnTask_def takes_def)
  show "ko_spec secondChild = childSpec demoFlow secondStep" by (simp add: secondChild_def)
  show "ns_of secondChild = ns_of demoFlow" by (simp add: secondChild_def blankTask_def demoFlow_def demoMeta_def)
  show "initialBody go_codec secondChild = BodyOk (Some [])"
    by (simp add: initialBody_def secondChild_def childSpec_def secondStep_def demoStep_def)
  show "input_holds outHeap (ts_input (fnTask ''b'' [takes ''a'' ''s'' ''t''])) [] {}"
    by (simp add: fnTask_def input_holds_def)
  show "mapped_flat [''a'' \<mapsto> sharedOut] (ts_inputFrom (fnTask ''b'' [takes ''a'' ''s'' ''t'']))"
    using pair_flat by (simp add: fnTask_def)
  show "mergeFields [''a'' \<mapsto> sharedOut] (ts_inputFrom (fnTask ''b'' [takes ''a'' ''s'' ''t''])) []
      = Some (setJSONField [] ''t'' (JStr ''v''))"
    using pair_merged by (simp add: fnTask_def)
  show "marshal go_codec (JObj (setJSONField [] ''t'' (JStr ''v''))) = Inr (enc (JObj (setJSONField [] ''t'' (JStr ''v''))))"
    by (simp add: go_codec_def)
qed (rule sharedOut_held, rule pair_sources)

theorem dashboard_link_works_witness:
  "\<exists>z. flowsOf (snd (flow_run 200)) (''ns'', ''f'') = Some z \<and>
     handleWorkflowJSON \<lparr>sv_marshalStatus = (\<lambda>st. Inr (ws_phase st)), sv_render = (\<lambda>s. s)\<rparr> refFlows
       ''/api/workflows/u-f'' (snd (flow_run 200)) =
     \<lparr>rp_status = 200, rp_contentType = ''application/json'', rp_body = ws_phase (ko_status z) @ [CHR 0x0A]\<rparr>"
proof -
  let ?w = "snd (flow_run 200)"
  obtain z where z: "flowsOf ?w (''ns'', ''f'') = Some z" by (rule flow_run_ok)
  have tx: "transactionOf demoFlow = ''u-f''" by (simp add: transactionOf_def demoFlow_def demoMeta_def)
  obtain items where l: "kList refFlows None TransactionIndexKey (transactionOf demoFlow) ?w = Inr items"
    by (simp add: refFlows_def tableClient_def tableList_def)
  have one: "k' = (''ns'', ''f'')" if "flowsOf ?w k' = Some z'" for k' z'
    using flow_run_only [OF that] .
  have "handleWorkflowJSON \<lparr>sv_marshalStatus = (\<lambda>st. Inr (ws_phase st)), sv_render = (\<lambda>s. s)\<rparr> refFlows
      (''/api/workflows/'' @ transactionOf demoFlow) ?w =
      \<lparr>rp_status = 200, rp_contentType = ''application/json'', rp_body = ws_phase (ko_status z) @ [CHR 0x0A]\<rparr>"
    using dashboard_link_works [OF flow_world.workflow_world_axioms flowIdx_key flow_stored flow_run_eq(1) z _ _ l one,
        where sv = "\<lparr>sv_marshalStatus = (\<lambda>st. Inr (ws_phase st)), sv_render = (\<lambda>s. s)\<rparr>" and js = "ws_phase (ko_status z)"]
    by (simp add: tx)
  with z show ?thesis unfolding tx by auto
qed

text \<open>The largest \<open>int32\<close> and 1 are added, and the wrapped sum is squared.\<close>

definition chainWorld :: cluster where
  "chainWorld = addWorld False [] [demoSquare ''Add'' ''a'' noResult]"

abbreviation sum_run :: "outcome \<times> cluster" where
  "sum_run \<equiv> AddReconcile refUtil refAdds refSquares (''ns'', ''a'') chainWorld"

abbreviation chain_run :: "outcome \<times> DynamicWatcher \<times> cluster" where
  "chain_run \<equiv> SquareReconcile refUtil refLib refDyn refMgr refSquares (''ns'', ''q'') NewDynamicWatcher (snd sum_run)"

lemma chain_done: "fst sum_run = Ret Done None" "fst chain_run = Ret Done None"
  "squaresOf (snd sum_run) (''ns'', ''q'') = Some (demoSquare ''Add'' ''a'' noResult)"
  by code_simp+

lemma ref_reads: "reads_result refLib refDyn (WithKind (''math.example.com'', ''v1alpha1'') ''Add'') addsOf ad_result"
  by (auto simp: reads_result_def refDyn_def refLib_def WithKind_def split: option.splits)

theorem sum_then_square_witness:
  "\<exists>y. squaresOf (snd (snd chain_run)) (''ns'', ''q'') = Some y \<and> sq_result (ko_status y) = Some 0"
proof -
  have sq: "sq_sourceRef (ko_spec (demoSquare ''Add'' ''a'' noResult)) =
      \<lparr>sr_apiVersion = SchemeGroupVersion, sr_kind = ''Add'', sr_name = ''a''\<rparr>" by (simp add: demoSquare_def)
  have p: "ParseGroupVersion refLib SchemeGroupVersion = Inr (''math.example.com'', ''v1alpha1'')"
    by (simp add: refLib_def SchemeGroupVersion_def)
  have e: "Ensure refMgr (WithKind (''math.example.com'', ''v1alpha1'') ''Add'') NewDynamicWatcher (snd sum_run)
      = (None, watching, snd sum_run)"
    using Ensure_demo by (simp add: addGvk_def)
  have live: "\<not> deleting (demoAdd False [])" by (simp add: demoAdd_def demoMeta_def)
  have run: "sum_run = (Ret Done None, snd sum_run)"
    "chain_run = (Ret Done None, fst (snd chain_run), snd (snd chain_run))"
    using chain_done(1,2) by (metis prod.collapse)+
  have st: "addsOf chainWorld (''ns'', ''a'') = Some (demoAdd False [])" unfolding chainWorld_def by (rule addsOf_world)
  have "(ad_x (ko_spec (demoAdd False [])) + ad_y (ko_spec (demoAdd False [])))
      * (ad_x (ko_spec (demoAdd False [])) + ad_y (ko_spec (demoAdd False []))) = 0"
    by (simp add: demoAdd_def)
  with sum_then_square [OF ref_util.kube_util_axioms adds.kube_api_axioms st live run(1) squares.kube_api_axioms
      chain_done(3) sq p ref_reads e refl refl run(2)]
  show ?thesis by simp
qed

end
